(* ===== verification/ApiTypes.thy ===== *)
theory ApiTypes
  imports Prelude
begin

text \<open>
  The data of the program: the custom resources of \<open>api/v1alpha2\<close> (MCPServer,
  MCPEgressPolicy, MCPServerGroup, MCPDiscoverySource) field by field, the
  Kubernetes objects the controllers read and write, and Go's errors.

  A pointer field is an \<open>option\<close>, a slice a list, a map an association list, an
  int32 or int64 an \<open>int\<close> (arithmetic on it goes through \<open>to_i32\<close>), a
  \<open>metav1.Time\<close> and a \<open>time.Duration\<close> an \<open>int\<close> of nanoseconds.  A Kubernetes
  structure that the program only passes on (resources, volumes, tolerations)
  is a \<open>json\<close> value; a structure it reads by reflection is its list of set
  fields.
\<close>

section \<open>Values passed on unread\<close>

datatype json =
  JNull | JBool bool | JInt int | JNum string | JStr string
| JArr "json list" | JObj "(string \<times> json) list"

type_synonym fields = "(string \<times> json) list"

section \<open>Errors\<close>

text \<open>
  A Go error: what \<open>errors.As\<close> and \<open>errors.Is\<close> can tell of it, and its text.
  \<open>Wrap p e\<close> is \<open>fmt.Errorf(p + "%w", e)\<close>, which keeps the kind of \<open>e\<close>;
  \<open>Plain\<close> is any error with no kind, \<open>fmt.Errorf\<close> with \<open>%v\<close> included.
\<close>
datatype gerr =
  NotFound string | AlreadyExists string | Conflict string | Plain string
| StatusError int string | ErrNotRegistered | ErrEndpointNotTrusted | ErrAlreadyRegistered
| Wrap string gerr | WrapSuffix gerr string

fun err_text :: "gerr \<Rightarrow> string" where
  "err_text (NotFound m) = m"
| "err_text (AlreadyExists m) = m"
| "err_text (Conflict m) = m"
| "err_text (Plain m) = m"
| "err_text (StatusError code body) = ''status '' @ itoa code @ '': '' @ body"
| "err_text ErrNotRegistered = ''mcp server not registered with core''"
| "err_text ErrEndpointNotTrusted = ''core refused the endpoint as a private address it does not trust''"
| "err_text ErrAlreadyRegistered = ''core already holds a server by that name''"
| "err_text (Wrap p e) = p @ err_text e"
| "err_text (WrapSuffix e s) = err_text e @ s"

text \<open>The innermost error, which \<open>errors.As\<close> and \<open>errors.Is\<close> reach.\<close>
fun err_cause :: "gerr \<Rightarrow> gerr" where
  "err_cause (Wrap p e) = err_cause e"
| "err_cause (WrapSuffix e s) = err_cause e"
| "err_cause e = e"

definition is_not_found :: "gerr \<Rightarrow> bool" where
  "is_not_found e = (case err_cause e of NotFound _ \<Rightarrow> True | _ \<Rightarrow> False)"

definition is_already_exists :: "gerr \<Rightarrow> bool" where
  "is_already_exists e = (case err_cause e of AlreadyExists _ \<Rightarrow> True | _ \<Rightarrow> False)"

text \<open>\<open>client.IgnoreNotFound\<close> on an error that is there.\<close>
definition ignore_not_found :: "gerr \<Rightarrow> gerr option" where
  "ignore_not_found e = (if is_not_found e then None else Some e)"

section \<open>Kubernetes metadata\<close>

record owner_ref =
  or_uid :: string
  or_kind :: string
  or_name :: string
  or_controller :: bool

record object_meta =
  m_name :: string
  m_namespace :: string
  m_uid :: string
  m_labels :: labels
  m_annotations :: labels
  m_finalizers :: "string list"
  m_owners :: "owner_ref list"
  m_generation :: int
  m_deletion :: "int option"
  m_creation :: int

definition empty_meta :: object_meta where
  "empty_meta = \<lparr>m_name = [], m_namespace = [], m_uid = [], m_labels = [], m_annotations = [],
     m_finalizers = [], m_owners = [], m_generation = 0, m_deletion = None, m_creation = 0\<rparr>"

definition mk_meta :: "string \<Rightarrow> string \<Rightarrow> labels \<Rightarrow> labels \<Rightarrow> object_meta" where
  "mk_meta n ns ls as = empty_meta\<lparr>m_name := n, m_namespace := ns, m_labels := ls, m_annotations := as\<rparr>"

datatype cond_status = CondTrue | CondFalse | CondUnknown

record condition =
  c_type :: string
  c_status :: cond_status
  c_reason :: string
  c_message :: string
  c_generation :: int
  c_transition :: int

record label_req =
  lr_key :: string
  lr_op :: string
  lr_values :: "string list"

record label_selector =
  ls_labels :: labels
  ls_exprs :: "label_req list"

definition match_labels :: "labels \<Rightarrow> label_selector" where
  "match_labels ls = \<lparr>ls_labels = ls, ls_exprs = []\<rparr>"

section \<open>MCPServer\<close>

datatype server_mode = ModeContainer | ModeRemote | ModeOther string

datatype server_state = StateUnset | Cold | Initializing | Ready | Degraded | Dead

definition MaxViolationRecords :: nat where "MaxViolationRecords = 100"

record peer_identity =
  pi_key_ref :: string
  pi_spki :: "string list"
  pi_issuance :: string

record server_tls =
  tls_peer :: "peer_identity option"
  tls_max_age :: "int option"

record egress_rule_spec =
  er_host :: string
  er_port :: int
  er_protocol :: string
  er_cidr :: string

record network_caps =
  nc_egress :: "egress_rule_spec list"
  nc_dns :: "bool option"
  nc_loopback :: "bool option"

record tool_caps =
  tc_max_count :: int
  tc_schema_drift :: "bool option"
  tc_expected :: "string list"

record server_caps =
  cap_network :: "network_caps option"
  cap_tools :: "tool_caps option"
  cap_enforcement :: string

record env_var =
  ev_name :: string
  ev_value :: string
  ev_from :: "json option"

record server_spec =
  sp_mode :: server_mode
  sp_image :: string
  sp_command :: "string list"
  sp_args :: "string list"
  sp_workdir :: string
  sp_endpoint :: string
  sp_healthpath :: string
  sp_tls :: "server_tls option"
  sp_replicas :: "int option"
  sp_startup_timeout :: "int option"
  sp_grace :: "int option"
  sp_resources :: "json option"
  sp_env :: "env_var list"
  sp_volumes :: "json list"
  sp_mounts :: "json list"
  sp_pod_sc :: "fields option"
  sp_ctr_sc :: "fields option"
  sp_service_account :: string
  sp_automount :: "bool option"
  sp_pull_secrets :: "string list"
  sp_node_selector :: labels
  sp_tolerations :: "json list"
  sp_affinity :: "json option"
  sp_priority_class :: string
  sp_runtime_class :: "string option"
  sp_initdata :: string
  sp_caps :: "server_caps option"

record initdata_digests =
  idd_256 :: string
  idd_384 :: string
  idd_512 :: string

record violation_record =
  vr_type :: string
  vr_detail :: string
  vr_severity :: string
  vr_action :: string
  vr_destination :: string
  vr_time :: int

record server_status =
  ss_state :: server_state
  ss_replicas :: int
  ss_ready :: int
  ss_available :: int
  ss_tools_count :: int
  ss_tools :: "string list"
  ss_endpoint :: string
  ss_started :: "int option"
  ss_stopped :: "int option"
  ss_health_check :: "int option"
  ss_failures :: int
  ss_observed :: int
  ss_pod :: string
  ss_conditions :: "condition list"
  ss_caps :: "server_caps option"
  ss_digests :: "initdata_digests option"
  ss_violations :: "violation_record list"

record mcp_server =
  s_meta :: object_meta
  s_spec :: server_spec
  s_status :: server_status

abbreviation "s_name s \<equiv> m_name (s_meta s)"
abbreviation "s_ns s \<equiv> m_namespace (s_meta s)"

definition GetReplicas :: "mcp_server \<Rightarrow> int" where
  "GetReplicas p = (case sp_replicas (s_spec p) of None \<Rightarrow> 1 | Some n \<Rightarrow> n)"

definition IsCold :: "mcp_server \<Rightarrow> bool" where
  "IsCold p = (GetReplicas p = 0)"

definition IsContainerMode :: "mcp_server \<Rightarrow> bool" where
  "IsContainerMode p = (sp_mode (s_spec p) = ModeContainer)"

definition IsRemoteMode :: "mcp_server \<Rightarrow> bool" where
  "IsRemoteMode p = (sp_mode (s_spec p) = ModeRemote)"

definition GetPodName :: "mcp_server \<Rightarrow> string" where
  "GetPodName p = ''mcp-provider-'' @ s_name p"

section \<open>MCPEgressPolicy\<close>

datatype policy_mode = PModeUnset | Audit | Enforce
datatype policy_action = ActionUnset | Deny | Allow
datatype backstop_flavor = FlavorUnset | FlavorAuto | FlavorCilium | FlavorVanilla
datatype backstop_enforcement =
  BackstopUnset | BackstopEnforcing | BackstopUnenforced | BackstopUnverified | BackstopDisabled
| BackstopPending | BackstopNotApplicable

record target_ref =
  tr_kind :: string
  tr_name :: string

record upstream_match =
  um_host :: string
  um_digest_ref :: string
  um_image_digest :: string
  um_issuers :: "string list"

record tool_rules =
  tl_allow :: "string list"
  tl_deny :: "string list"
  tl_approval :: "string list"

record header_match =
  hm_name :: string
  hm_values :: "string list"

record header_rules =
  hr_allow :: "header_match list"
  hr_deny :: "header_match list"
  hr_approval :: "header_match list"

record argument_deny =
  ad_secrets :: "string list"
  ad_max_bytes :: int

record upstream_rule =
  u_name :: string
  u_match :: upstream_match
  u_tools :: "tool_rules option"
  u_arg_deny :: "argument_deny option option"
  u_headers :: "header_rules option"

record network_backstop =
  nb_generate :: bool
  nb_flavor :: backstop_flavor

record policy_spec =
  ps_mode :: policy_mode
  ps_target :: target_ref
  ps_default :: policy_action
  ps_upstreams :: "upstream_rule list"
  ps_backstop :: "network_backstop option"

record policy_status =
  pst_observed :: int
  pst_enforcement :: backstop_enforcement
  pst_conditions :: "condition list"

record egress_policy =
  p_meta :: object_meta
  p_spec :: policy_spec
  p_status :: policy_status

abbreviation "p_name p \<equiv> m_name (p_meta p)"
abbreviation "p_ns p \<equiv> m_namespace (p_meta p)"

section \<open>MCPServerGroup\<close>

record health_policy =
  hp_percentage :: int
  hp_count :: "int option"
  hp_threshold :: int

record member_status =
  ms_name :: string
  ms_namespace :: string
  ms_state :: string

record group_status =
  gs_count :: int
  gs_ready :: int
  gs_degraded :: int
  gs_cold :: int
  gs_initializing :: int
  gs_dead :: int
  gs_providers :: "member_status list"
  gs_observed :: int
  gs_conditions :: "condition list"

record group_spec =
  gsp_selector :: "label_selector option"
  gsp_health :: "health_policy option"

record server_group =
  g_meta :: object_meta
  g_spec :: group_spec
  g_status :: group_status

abbreviation "g_name g \<equiv> m_name (g_meta g)"
abbreviation "g_ns g \<equiv> m_namespace (g_meta g)"

text \<open>\<open>IsHealthy\<close>: the percentage is computed in int32, so \<open>ReadyCount * 100\<close> wraps.\<close>
definition IsHealthy :: "group_status \<Rightarrow> health_policy option \<Rightarrow> bool" where
  "IsHealthy s policy =
     (if gs_count s = 0 then False
      else case policy of
        None \<Rightarrow> gs_ready s > 0
      | Some p \<Rightarrow> (case hp_count p of
            Some n \<Rightarrow> gs_ready s \<ge> n
          | None \<Rightarrow> (let percentage = to_i32 (go_div (to_i32 (gs_ready s * 100)) (gs_count s))
                     in percentage \<ge> hp_percentage p)))"

section \<open>MCPDiscoverySource\<close>

datatype discovery_type = DNamespace | DConfigMap | DAnnotations | DServiceDiscovery | DOther string
datatype discovery_mode = DModeUnset | Additive | Authoritative

record ns_selector_config =
  nsc_labels :: labels
  nsc_exprs :: "label_req list"
  nsc_exclude :: "string list option"

record configmap_ref =
  cmr_name :: string
  cmr_namespace :: string
  cmr_key :: string

record annotation_config =
  ac_pods :: labels
  ac_services :: labels
  ac_prefix :: string
  ac_required :: "string list"

record service_config =
  sc_selector :: labels
  sc_port_name :: string
  sc_protocol :: string

record template_config =
  tpl_meta :: "(labels \<times> labels) option"
  tpl_spec :: "server_spec option"

record discovery_filters =
  df_include :: "string list"
  df_exclude :: "string list"
  df_max :: "int option"

record ownership_config =
  oc_controller :: "bool option"
  oc_block :: bool

record source_spec =
  dsp_type :: discovery_type
  dsp_mode :: discovery_mode
  dsp_refresh :: "int option"
  dsp_paused :: bool
  dsp_ns :: "ns_selector_config option"
  dsp_cm :: "configmap_ref option"
  dsp_ann :: "annotation_config option"
  dsp_svc :: "service_config option"
  dsp_template :: "template_config option"
  dsp_filters :: "discovery_filters option"
  dsp_ownership :: "ownership_config option"

record discovered_status =
  dss_name :: string
  dss_source :: string
  dss_at :: int
  dss_managed :: bool
  dss_error :: string

record source_status =
  dst_discovered :: int
  dst_managed :: int
  dst_last_sync :: "int option"
  dst_duration :: "int option"
  dst_error :: string
  dst_next :: "int option"
  dst_servers :: "discovered_status list"
  dst_observed :: int
  dst_conditions :: "condition list"

record discovery_source =
  d_meta :: object_meta
  d_spec :: source_spec
  d_status :: source_status

abbreviation "d_name d \<equiv> m_name (d_meta d)"
abbreviation "d_ns d \<equiv> m_namespace (d_meta d)"

definition IsAuthoritative :: "discovery_source \<Rightarrow> bool" where
  "IsAuthoritative d = (dsp_mode (d_spec d) = Authoritative)"

definition IsPaused :: "discovery_source \<Rightarrow> bool" where
  "IsPaused d = dsp_paused (d_spec d)"

definition ShouldSetController :: "discovery_source \<Rightarrow> bool" where
  "ShouldSetController d = (case dsp_ownership (d_spec d) of
     None \<Rightarrow> True
   | Some own \<Rightarrow> (case oc_controller own of None \<Rightarrow> True | Some b \<Rightarrow> b))"

section \<open>Kubernetes objects\<close>

subsection \<open>NetworkPolicy\<close>

datatype proto = TCP | UDP

record np_peer =
  pe_block :: "string option"
  pe_ns_sel :: "label_selector option"
  pe_pod_sel :: "label_selector option"

record np_port =
  po_port :: "int option"
  po_proto :: "proto option"

text \<open>One egress or ingress rule: its peers (\<open>To\<close>, \<open>From\<close>) and ports.  In a
  NetworkPolicy an empty list of either means \<open>any\<close>.\<close>
record np_rule =
  ru_peers :: "np_peer list"
  ru_ports :: "np_port list"

datatype policy_type = TypeEgress | TypeIngress

record np_spec =
  nps_pods :: label_selector
  nps_types :: "policy_type list"
  nps_egress :: "np_rule list"
  nps_ingress :: "np_rule list"

record network_policy =
  np_meta :: object_meta
  np_spec :: np_spec

subsection \<open>Pods and Deployments\<close>

datatype restart_policy = RestartNever | RestartAlways
datatype pull_policy = PullIfNotPresent | PullAlways
datatype pod_phase = PhaseRunning | PhasePending | PhaseFailed | PhaseOther string
datatype strategy = Recreate

record container =
  ct_name :: string
  ct_image :: string
  ct_pull :: pull_policy
  ct_command :: "string list"
  ct_args :: "string list"
  ct_workdir :: string
  ct_env :: "env_var list"
  ct_resources :: json
  ct_mounts :: "json list"
  ct_sc :: fields

record pod_spec =
  psp_containers :: "container list"
  psp_volumes :: "json list"
  psp_restart :: restart_policy
  psp_service_account :: string
  psp_automount :: "bool option"
  psp_node_selector :: labels
  psp_pull_secrets :: "string list"
  psp_priority_class :: string
  psp_runtime_class :: "string option"
  psp_grace :: "int option"
  psp_tolerations :: "json list"
  psp_affinity :: "json option"
  psp_sc :: fields

text \<open>A container status: ready, restart count, the waiting state (reason and
  message) and the last termination (exit code and reason).\<close>
record container_status =
  cs_ready :: bool
  cs_restarts :: int
  cs_waiting :: "(string \<times> string) option"
  cs_last_exit :: "(int \<times> string) option"

record pod =
  pod_meta :: object_meta
  pod_spec :: pod_spec
  pod_phase :: pod_phase
  pod_reason :: string
  pod_message :: string
  pod_ip :: string
  pod_containers :: "container_status list"
  pod_conditions :: "(string \<times> cond_status) list"

record deploy_spec =
  dep_replicas :: int
  dep_selector :: labels
  dep_strategy :: strategy
  dep_history :: int
  dep_labels :: labels
  dep_annotations :: labels
  dep_pod :: pod_spec

record deployment =
  dep_meta :: object_meta
  dep_spec :: deploy_spec

subsection \<open>The other objects\<close>

record lease =
  le_meta :: object_meta
  le_holder :: "string option"

record namespace_obj =
  ns_meta :: object_meta

record config_map =
  cm_meta :: object_meta
  cm_data :: labels

record service =
  sv_meta :: object_meta
  sv_ports :: "(string \<times> int) list"

record daemon_set =
  dms_meta :: object_meta
  dms_host_network :: bool
  dms_template_labels :: labels

text \<open>An unstructured object: the CiliumNetworkPolicy, whose Go types the
  program does not vendor.\<close>
record unstructured =
  un_kind :: string
  un_meta :: object_meta
  un_spec :: json

section \<open>Zero values\<close>

text \<open>The Go zero values \<open>MCPServerSpec{}\<close>, \<open>MCPServerStatus{}\<close> and \<open>MCPServer{}\<close>.\<close>
definition zero_server_spec :: server_spec where
  "zero_server_spec = \<lparr>sp_mode = ModeOther [], sp_image = [], sp_command = [], sp_args = [],
     sp_workdir = [], sp_endpoint = [], sp_healthpath = [], sp_tls = None, sp_replicas = None,
     sp_startup_timeout = None, sp_grace = None, sp_resources = None, sp_env = [], sp_volumes = [],
     sp_mounts = [], sp_pod_sc = None, sp_ctr_sc = None, sp_service_account = [], sp_automount = None,
     sp_pull_secrets = [], sp_node_selector = [], sp_tolerations = [], sp_affinity = None,
     sp_priority_class = [], sp_runtime_class = None, sp_initdata = [], sp_caps = None\<rparr>"

definition zero_server_status :: server_status where
  "zero_server_status = \<lparr>ss_state = StateUnset, ss_replicas = 0, ss_ready = 0, ss_available = 0,
     ss_tools_count = 0, ss_tools = [], ss_endpoint = [], ss_started = None, ss_stopped = None,
     ss_health_check = None, ss_failures = 0, ss_observed = 0, ss_pod = [], ss_conditions = [],
     ss_caps = None, ss_digests = None, ss_violations = []\<rparr>"

definition zero_server :: mcp_server where
  "zero_server = \<lparr>s_meta = empty_meta, s_spec = zero_server_spec, s_status = zero_server_status\<rparr>"

section \<open>Facts\<close>

lemma err_cause_wrap [simp]:
  "is_not_found (Wrap p e) = is_not_found e"
  "is_not_found (WrapSuffix e s) = is_not_found e"
  "is_already_exists (Wrap p e) = is_already_exists e"
  by (simp_all add: is_not_found_def is_already_exists_def)

text \<open>The percentage test when nothing wraps.\<close>
lemma IsHealthy_percentage:
  assumes "0 \<le> gs_ready s" "gs_ready s \<le> gs_count s" "0 < gs_count s" "gs_count s * 100 < 2 ^ 31"
    and "hp_count p = None"
  shows "IsHealthy s (Some p) \<longleftrightarrow> hp_percentage p * gs_count s \<le> gs_ready s * 100"
proof -
  let ?r = "gs_ready s" and ?c = "gs_count s"
  have r: "to_i32 (?r * 100) = ?r * 100" using assms by (intro to_i32_id) (auto simp: is_i32_def)
  have nn: "0 \<le> ?r * 100 div ?c" using assms by (simp add: pos_imp_zdiv_nonneg_iff)
  have "?r * 100 div ?c \<le> ?r * 100" using zdiv_mono2 [of "?r * 100" 1 ?c] assms by simp
  then have "to_i32 (?r * 100 div ?c) = ?r * 100 div ?c"
    using assms nn by (intro to_i32_id) (auto simp: is_i32_def)
  moreover have "(hp_percentage p \<le> ?r * 100 div ?c) = (hp_percentage p * ?c \<le> ?r * 100)"
    using assms by (simp add: le_div_iff)
  ultimately show ?thesis using assms r by (simp add: IsHealthy_def go_div_nonneg)
qed

end
