(* ===== verification/KubeLib.thy ===== *)
theory KubeLib
  imports ApiTypes
begin

text \<open>
  The pure functions of the Kubernetes libraries that the program calls: the
  condition, finalizer and owner-reference helpers of apimachinery and
  controller-runtime, label-selector parsing, name validation, regular
  expressions and hashes.  Their code is not part of the repository, so they are
  the fields of a record \<open>klib\<close> and every definition that uses one takes the
  record as an argument.  What their documentation promises is stated as locales
  (\<open>condition_list\<close>, \<open>finalizer_list\<close>, \<open>owner_refs\<close>); \<open>std_lib\<close> is a concrete
  instance, on which the locales are interpreted.
\<close>

text \<open>One entry of a providers ConfigMap, what \<open>yaml.Unmarshal\<close> fills in.\<close>
record configmap_entry =
  ce_mode :: string
  ce_image :: string
  ce_endpoint :: string
  ce_command :: "string list"
  ce_args :: "string list"

record klib =
  find_condition :: "condition list \<Rightarrow> string \<Rightarrow> condition option"
  set_condition :: "int \<Rightarrow> condition list \<Rightarrow> condition \<Rightarrow> condition list"
  contains_finalizer :: "string list \<Rightarrow> string \<Rightarrow> bool"
  add_finalizer :: "string list \<Rightarrow> string \<Rightarrow> string list"
  remove_finalizer :: "string list \<Rightarrow> string \<Rightarrow> string list"
  is_controlled_by :: "object_meta \<Rightarrow> object_meta \<Rightarrow> bool"
  controller_of :: "object_meta \<Rightarrow> owner_ref option"
  set_controller :: "object_meta \<Rightarrow> object_meta \<Rightarrow> gerr + object_meta"
  dns1123_errors :: "string \<Rightarrow> string list"
  subdomain_errors :: "string \<Rightarrow> string list"
  label_value_errors :: "string \<Rightarrow> string list"
  convert_selector :: "string \<Rightarrow> gerr + labels"
  parse_label_selector :: "string \<Rightarrow> gerr + label_selector"
  format_selector :: "label_selector \<Rightarrow> string"
  selector_error :: "label_selector \<Rightarrow> gerr option"
  selector_matches :: "label_selector \<Rightarrow> labels \<Rightarrow> bool"
  regex_match :: "string \<Rightarrow> string \<Rightarrow> gerr + bool"
  sha_hex :: "string \<Rightarrow> initdata_digests"
  json_digest :: "json \<Rightarrow> string"
  deploy_digest :: "labels \<Rightarrow> deploy_spec \<Rightarrow> gerr + string"
  show_rate :: "string \<Rightarrow> string"
  parse_yaml :: "string \<Rightarrow> gerr + (string \<times> configmap_entry) list"

section \<open>Conditions\<close>

text \<open>
  \<open>meta.SetStatusCondition\<close> and \<open>meta.FindStatusCondition\<close>: a set condition is
  found with the given status, reason, message and generation, its transition
  time moves only with its status, and no other condition changes.
\<close>
locale condition_list =
  fixes find :: "condition list \<Rightarrow> string \<Rightarrow> condition option"
    and setc :: "int \<Rightarrow> condition list \<Rightarrow> condition \<Rightarrow> condition list"
  assumes find_set_same: "\<exists>t. find (setc now cs c) (c_type c) = Some (c\<lparr>c_transition := t\<rparr>)"
    and find_set_other: "ty \<noteq> c_type c \<Longrightarrow> find (setc now cs c) ty = find cs ty"
    and transition_kept: "find cs (c_type c) = Some old \<Longrightarrow> c_status old = c_status c \<Longrightarrow>
          find (setc now cs c) (c_type c) = Some (c\<lparr>c_transition := c_transition old\<rparr>)"
begin

text \<open>The status and reason of a condition, the part the program reads back.\<close>
definition verdict :: "condition list \<Rightarrow> string \<Rightarrow> (cond_status \<times> string) option" where
  "verdict cs ty = map_option (\<lambda>c. (c_status c, c_reason c)) (find cs ty)"

lemma verdict_set:
  "verdict (setc now cs c) ty =
     (if ty = c_type c then Some (c_status c, c_reason c) else verdict cs ty)"
  using find_set_same [of now cs c] find_set_other [of ty c now cs]
  by (auto simp: verdict_def)

lemma message_set:
  "map_option c_message (find (setc now cs c) ty) =
     (if ty = c_type c then Some (c_message c) else map_option c_message (find cs ty))"
  using find_set_same [of now cs c] find_set_other [of ty c now cs] by auto

lemma find_set_ne_None: "find (setc now cs c) (c_type c) \<noteq> None"
  using find_set_same [of now cs c] by auto

end

fun std_find :: "condition list \<Rightarrow> string \<Rightarrow> condition option" where
  "std_find [] ty = None"
| "std_find (c # cs) ty = (if c_type c = ty then Some c else std_find cs ty)"

fun std_set :: "int \<Rightarrow> condition list \<Rightarrow> condition \<Rightarrow> condition list" where
  "std_set now [] c = [c\<lparr>c_transition := now\<rparr>]"
| "std_set now (d # cs) c =
     (if c_type d = c_type c then
        c\<lparr>c_transition := (if c_status d = c_status c then c_transition d else now)\<rparr> # cs
      else d # std_set now cs c)"

interpretation std_conds: condition_list std_find std_set
proof
  fix now cs and c :: condition and ty old
  show "\<exists>t. std_find (std_set now cs c) (c_type c) = Some (c\<lparr>c_transition := t\<rparr>)"
    by (induction cs) auto
  show "ty \<noteq> c_type c \<Longrightarrow> std_find (std_set now cs c) ty = std_find cs ty"
    by (induction cs) auto
  show "std_find cs (c_type c) = Some old \<Longrightarrow> c_status old = c_status c \<Longrightarrow>
        std_find (std_set now cs c) (c_type c) = Some (c\<lparr>c_transition := c_transition old\<rparr>)"
    by (induction cs) (auto split: if_splits)
qed

text \<open>
  Setting a condition that is already there, with nothing but its transition time
  different, leaves the list as it is.
\<close>
locale condition_store = condition_list +
  assumes set_present: "find cs (c_type c) = Some d \<Longrightarrow> d\<lparr>c_transition := c_transition c\<rparr> = c \<Longrightarrow> setc now cs c = cs"
begin

text \<open>So a second set of the same condition does nothing, at whatever time.\<close>
lemma set_again: "setc later (setc now cs c) c = setc now cs c"
proof -
  obtain t where "find (setc now cs c) (c_type c) = Some (c\<lparr>c_transition := t\<rparr>)"
    using find_set_same by blast
  then show ?thesis by (rule set_present) simp
qed

end

interpretation std_cond_store: condition_store std_find std_set
proof
  fix cs and c d :: condition and now
  assume "std_find cs (c_type c) = Some d" "d\<lparr>c_transition := c_transition c\<rparr> = c"
  then show "std_set now cs c = cs"
  proof (induction cs)
    case (Cons x cs)
    show ?case
    proof (cases "c_type x = c_type c")
      case True
      then have "c = x\<lparr>c_transition := c_transition c\<rparr>" using Cons.prems by simp
      then have "c_status x = c_status c" "c\<lparr>c_transition := c_transition x\<rparr> = x" by (cases x; cases c; simp)+
      then show ?thesis using True by simp
    qed (use Cons in auto)
  qed simp
qed

section \<open>Finalizers\<close>

locale finalizer_list =
  fixes has :: "string list \<Rightarrow> string \<Rightarrow> bool"
    and add :: "string list \<Rightarrow> string \<Rightarrow> string list"
    and remove :: "string list \<Rightarrow> string \<Rightarrow> string list"
  assumes has_add: "has (add fs f) g \<longleftrightarrow> g = f \<or> has fs g"
    and has_remove: "has (remove fs f) g \<longleftrightarrow> g \<noteq> f \<and> has fs g"

definition std_contains :: "string list \<Rightarrow> string \<Rightarrow> bool" where
  "std_contains fs f = (f \<in> set fs)"

definition std_add :: "string list \<Rightarrow> string \<Rightarrow> string list" where
  "std_add fs f = (if f \<in> set fs then fs else fs @ [f])"

definition std_remove :: "string list \<Rightarrow> string \<Rightarrow> string list" where
  "std_remove fs f = filter (\<lambda>g. g \<noteq> f) fs"

interpretation std_fins: finalizer_list std_contains std_add std_remove
  by unfold_locales (auto simp: std_contains_def std_add_def std_remove_def)

section \<open>Owner references\<close>

text \<open>
  \<open>metav1.IsControlledBy\<close>, \<open>metav1.GetControllerOf\<close> and
  \<open>controllerutil.SetControllerReference\<close>: an object is controlled by at most the
  one owner its controller reference names, and setting the reference makes the
  owner the controller and changes nothing else.
\<close>
locale owner_refs =
  fixes controlled :: "object_meta \<Rightarrow> object_meta \<Rightarrow> bool"
    and controller :: "object_meta \<Rightarrow> owner_ref option"
    and setref :: "object_meta \<Rightarrow> object_meta \<Rightarrow> gerr + object_meta"
  assumes controlled_iff: "controlled m own \<longleftrightarrow>
        (\<exists>r. controller m = Some r \<and> or_uid r = m_uid own)"
    and setref_controlled: "setref own m = Inr m' \<Longrightarrow> controlled m' own"
    and setref_frame: "setref own m = Inr m' \<Longrightarrow> m'\<lparr>m_owners := m_owners m\<rparr> = m"
begin

lemma controlled_unique:
  "controlled m own \<Longrightarrow> controlled m own' \<Longrightarrow> m_uid own = m_uid own'"
  by (auto simp: controlled_iff)

lemma uncontrolled: "controller m = None \<Longrightarrow> \<not> controlled m own"
  by (simp add: controlled_iff)

lemma setref_name: "setref own m = Inr m' \<Longrightarrow> m_name m' = m_name m \<and> m_namespace m' = m_namespace m"
  by (drule setref_frame, cases m, cases m') auto

end

fun std_controller :: "owner_ref list \<Rightarrow> owner_ref option" where
  "std_controller [] = None"
| "std_controller (r # rs) = (if or_controller r then Some r else std_controller rs)"

definition std_controlled :: "object_meta \<Rightarrow> object_meta \<Rightarrow> bool" where
  "std_controlled m own = (case std_controller (m_owners m) of
     None \<Rightarrow> False | Some r \<Rightarrow> or_uid r = m_uid own)"

definition std_set_controller :: "object_meta \<Rightarrow> object_meta \<Rightarrow> gerr + object_meta" where
  "std_set_controller own m = (case std_controller (m_owners m) of
     Some r \<Rightarrow> if or_uid r = m_uid own then Inr m
               else Inl (AlreadyExists ''already owned by another controller'')
   | None \<Rightarrow> Inr (m\<lparr>m_owners := m_owners m @ [\<lparr>or_uid = m_uid own, or_kind = [], or_name = m_name own,
        or_controller = True\<rparr>]\<rparr>))"

lemma std_controller_append:
  "std_controller (rs @ qs) = (case std_controller rs of None \<Rightarrow> std_controller qs | Some r \<Rightarrow> Some r)"
  by (induction rs) auto

interpretation std_owners: owner_refs std_controlled "\<lambda>m. std_controller (m_owners m)" std_set_controller
proof
  fix m own m'
  show "std_controlled m own \<longleftrightarrow> (\<exists>r. std_controller (m_owners m) = Some r \<and> or_uid r = m_uid own)"
    by (auto simp: std_controlled_def split: option.splits)
  show "std_set_controller own m = Inr m' \<Longrightarrow> std_controlled m' own"
    by (auto simp: std_set_controller_def std_controlled_def std_controller_append
        split: option.splits if_splits)
  show "std_set_controller own m = Inr m' \<Longrightarrow> m'\<lparr>m_owners := m_owners m\<rparr> = m"
    by (auto simp: std_set_controller_def split: option.splits if_splits)
qed

section \<open>A concrete instance\<close>

text \<open>
  The instance the witnesses use.  Its parsers accept a fixed grammar (one
  \<open>key=value\<close> per comma-separated part) and its hashes are trivial; nothing is
  proved from that.
\<close>

fun std_pairs :: "string list \<Rightarrow> labels option" where
  "std_pairs [] = Some []"
| "std_pairs (p # ps) = (case (cut_on CHR ''='' p, std_pairs ps) of
     (Some kv, Some m) \<Rightarrow> Some (kv # m) | _ \<Rightarrow> None)"

definition std_lib :: klib where
  "std_lib = \<lparr>
     find_condition = std_find, set_condition = std_set,
     contains_finalizer = std_contains, add_finalizer = std_add, remove_finalizer = std_remove,
     is_controlled_by = std_controlled, controller_of = (\<lambda>m. std_controller (m_owners m)),
     set_controller = std_set_controller,
     dns1123_errors = (\<lambda>s. if s = [] then [''empty''] else []),
     subdomain_errors = (\<lambda>s. if s = [] then [''empty''] else []), label_value_errors = (\<lambda>s. []),
     convert_selector = (\<lambda>s. case std_pairs (split_on CHR '','' s) of
        None \<Rightarrow> Inl (Plain ''invalid selector'') | Some m \<Rightarrow> Inr m),
     parse_label_selector = (\<lambda>s. case std_pairs (split_on CHR '','' s) of
        None \<Rightarrow> Inl (Plain ''invalid selector'') | Some m \<Rightarrow> Inr (match_labels m)),
     format_selector = (\<lambda>s. join '','' (map (\<lambda>(k, v). k @ ''='' @ v) (ls_labels s))),
     selector_error = (\<lambda>s. None),
     selector_matches = (\<lambda>s m. \<forall>(k, v) \<in> set (ls_labels s). label_of m k = v),
     regex_match = (\<lambda>p s. Inr (str_contains s p)),
     sha_hex = (\<lambda>s. \<lparr>idd_256 = s, idd_384 = s, idd_512 = s\<rparr>),
     json_digest = (\<lambda>j. ''digest''),
     deploy_digest = (\<lambda>l s. Inr ''hash''),
     show_rate = (\<lambda>s. s),
     parse_yaml = (\<lambda>s. Inr [])\<rparr>"

abbreviation "lib_conds L \<equiv> condition_list (find_condition L) (set_condition L)"
abbreviation "lib_cond_store L \<equiv> condition_store (find_condition L) (set_condition L)"
abbreviation "lib_finalizers L \<equiv>
  finalizer_list (contains_finalizer L) (add_finalizer L) (remove_finalizer L)"
abbreviation "lib_owners L \<equiv> owner_refs (is_controlled_by L) (controller_of L) (set_controller L)"

text \<open>The list says \<open>c\<close>: the condition of its type is \<open>c\<close>, whenever it last changed.\<close>
definition says :: "'e klib_scheme \<Rightarrow> condition list \<Rightarrow> condition \<Rightarrow> bool" where
  "says L cs c = (\<exists>t. find_condition L cs (c_type c) = Some (c\<lparr>c_transition := t\<rparr>))"

lemma lib_cond_store_conds: "lib_cond_store L \<Longrightarrow> lib_conds L"
  by (simp add: condition_store_def)

lemma says_set:
  assumes "lib_conds L"
  shows "says L (set_condition L t cs c) c"
    "c_type d \<noteq> c_type c \<Longrightarrow> says L (set_condition L t cs c) d = says L cs d"
  using condition_list.find_set_same [OF assms, of t cs c] condition_list.find_set_other [OF assms, of "c_type d" c t cs]
  by (auto simp: says_def)

lemma says_set_same:
  assumes "lib_cond_store L" "says L cs c"
  shows "set_condition L t cs c = cs"
proof -
  obtain u where "find_condition L cs (c_type c) = Some (c\<lparr>c_transition := u\<rparr>)" using assms(2) by (auto simp: says_def)
  then show ?thesis by (rule condition_store.set_present [OF assms(1)]) simp
qed

text \<open>A list of conditions of different types, set one after the other.\<close>
lemma says_fold_other:
  assumes "lib_conds L" "c_type c \<notin> c_type ` set cs"
  shows "says L (foldl (set_condition L t) l cs) c = says L l c"
  using assms(2) by (induction cs arbitrary: l) (auto simp: says_set(2) [OF assms(1)])

lemma says_fold:
  assumes "lib_conds L" "distinct (map c_type cs)" "c \<in> set cs"
  shows "says L (foldl (set_condition L t) l cs) c"
  using assms(2,3)
proof (induction cs arbitrary: l)
  case (Cons d cs)
  show ?case
  proof (cases "c = d")
    case True
    then have "c_type c \<notin> c_type ` set cs" using Cons.prems(1) by auto
    then show ?thesis using True by (simp add: says_fold_other [OF assms(1)] says_set(1) [OF assms(1)])
  qed (use Cons in auto)
qed simp

lemma says_fold_same:
  assumes "lib_cond_store L" "\<And>c. c \<in> set cs \<Longrightarrow> says L l c"
  shows "foldl (set_condition L t) l cs = l"
  using assms(2) by (induction cs arbitrary: l) (auto simp: says_set_same [OF assms(1)])

lemma std_lib_conds: "lib_conds std_lib"
  by (simp add: std_lib_def std_conds.condition_list_axioms)

lemma std_lib_cond_store: "lib_cond_store std_lib"
  by (simp add: std_lib_def std_cond_store.condition_store_axioms)

lemma std_lib_finalizers: "lib_finalizers std_lib"
  by (simp add: std_lib_def std_fins.finalizer_list_axioms)

lemma std_lib_owners: "lib_owners std_lib"
  by (simp add: std_lib_def std_owners.owner_refs_axioms)

end
