(* ===== verification/Cluster.thy ===== *)
theory Cluster
  imports KubeLib
begin

text \<open>
  The world outside the process and how the program acts on it: the API server,
  the core's HTTP interface, the clock.  Everything the program does is an
  \<open>effect\<close>, appended to a log in the order it happens; everything it is told
  comes from an \<open>env\<close>, a record of arbitrary functions of the log so far and
  the request, so that an answer may depend on the whole history and on nothing
  that the program cannot see.  Statements about every \<open>env\<close> hold for every
  behaviour of the cluster and of core.

  This theory also has the two write helpers of \<open>internal/controller\<close>
  (\<open>status_write.go\<close>, \<open>apply.go\<close>, \<open>conditions.go\<close>) and the rules by which
  the effects of a reconcile are reasoned about.
\<close>

section \<open>Effects\<close>

datatype kobj =
  KServer mcp_server | KPolicy egress_policy | KGroup server_group | KSource discovery_source
| KNetPol network_policy | KCilium unstructured | KDeploy deployment | KPod pod | KLease lease

record http_req =
  hq_method :: string
  hq_url :: string
  hq_body :: "json option"
  hq_headers :: labels

text \<open>A response: its status, its body as text, and the body as JSON when it parses.\<close>
record http_resp =
  hs_code :: int
  hs_body :: string
  hs_json :: "json option"

text \<open>The kinds of objects, as the reads and deletes name them.\<close>
datatype kind =
  ServerKind | PolicyKind | GroupKind | SourceKind | NetPolKind | CiliumKind | DeployKind | PodKind
| LeaseKind | NamespaceKind | ConfigMapKind | ServiceKind | DaemonSetKind

datatype event_type = Normal | Warning

datatype effect =
  ReadObj kind string string
| ListObjs kind string "label_selector option"
| Create kobj
| Update kobj
| Apply kobj
| Delete kind string string
| StatusPatch kobj
| StatusUpdate kobj
| Event event_type string string
| Http http_req
| Sleep int
| Metric string "string list"

type_synonym history = "effect list"

record env = klib +
  get_server :: "history \<Rightarrow> string \<Rightarrow> string \<Rightarrow> gerr + mcp_server"
  get_policy :: "history \<Rightarrow> string \<Rightarrow> string \<Rightarrow> gerr + egress_policy"
  get_group :: "history \<Rightarrow> string \<Rightarrow> string \<Rightarrow> gerr + server_group"
  get_source :: "history \<Rightarrow> string \<Rightarrow> string \<Rightarrow> gerr + discovery_source"
  get_netpol :: "history \<Rightarrow> string \<Rightarrow> string \<Rightarrow> gerr + network_policy"
  get_cilium :: "history \<Rightarrow> string \<Rightarrow> string \<Rightarrow> gerr + unstructured"
  get_deploy :: "history \<Rightarrow> string \<Rightarrow> string \<Rightarrow> gerr + deployment"
  get_pod :: "history \<Rightarrow> string \<Rightarrow> string \<Rightarrow> gerr + pod"
  get_lease :: "history \<Rightarrow> string \<Rightarrow> string \<Rightarrow> gerr + lease"
  get_namespace :: "history \<Rightarrow> string \<Rightarrow> string \<Rightarrow> gerr + namespace_obj"
  get_configmap :: "history \<Rightarrow> string \<Rightarrow> string \<Rightarrow> gerr + config_map"
  list_servers :: "history \<Rightarrow> string \<Rightarrow> label_selector option \<Rightarrow> gerr + mcp_server list"
  list_groups :: "history \<Rightarrow> string \<Rightarrow> label_selector option \<Rightarrow> gerr + server_group list"
  list_policies :: "history \<Rightarrow> string \<Rightarrow> label_selector option \<Rightarrow> gerr + egress_policy list"
  list_pods :: "history \<Rightarrow> string \<Rightarrow> label_selector option \<Rightarrow> gerr + pod list"
  list_services :: "history \<Rightarrow> string \<Rightarrow> label_selector option \<Rightarrow> gerr + service list"
  list_namespaces :: "history \<Rightarrow> string \<Rightarrow> label_selector option \<Rightarrow> gerr + namespace_obj list"
  list_daemonsets :: "history \<Rightarrow> string \<Rightarrow> label_selector option \<Rightarrow> gerr + daemon_set list"
  write_result :: "history \<Rightarrow> effect \<Rightarrow> gerr option"
  http_result :: "history \<Rightarrow> http_req \<Rightarrow> gerr + http_resp"
  request_error :: "http_req \<Rightarrow> gerr option"
  ctx_error :: "history \<Rightarrow> gerr option"
  clock :: "history \<Rightarrow> int"
  serves_kind :: "history \<Rightarrow> string \<Rightarrow> string \<Rightarrow> bool"
  convert_error :: "kobj \<Rightarrow> gerr option"
  upsert_server :: "history \<Rightarrow> string \<Rightarrow> string \<Rightarrow> (mcp_server \<Rightarrow> gerr + mcp_server) \<Rightarrow> gerr option \<times> effect list"
  range_order :: "history \<Rightarrow> string list \<Rightarrow> string list"

section \<open>The state of a reconcile\<close>

text \<open>
  The object being reconciled (a pointer the functions share), the status it was
  read with (\<open>statusBase\<close> in the context), the log, and what the reconciler
  keeps between reconciles.
\<close>
record ('o, 's, 'x) st =
  st_obj :: 'o
  st_base :: "'s option"
  st_kept :: 'x
  st_log :: history

definition emit :: "effect \<Rightarrow> (('o, 's, 'x) st, unit) state" where
  "emit e = State (\<lambda>s. ((), s\<lparr>st_log := st_log s @ [e]\<rparr>))"

definition ask :: "(history \<Rightarrow> 'a) \<Rightarrow> (('o, 's, 'x) st, 'a) state" where
  "ask f = State (\<lambda>s. (f (st_log s), s))"

definition the_obj :: "(('o, 's, 'x) st, 'o) state" where
  "the_obj = State (\<lambda>s. (st_obj s, s))"

definition upd_obj :: "('o \<Rightarrow> 'o) \<Rightarrow> (('o, 's, 'x) st, unit) state" where
  "upd_obj f = State (\<lambda>s. ((), s\<lparr>st_obj := f (st_obj s)\<rparr>))"

definition the_base :: "(('o, 's, 'x) st, 's option) state" where
  "the_base = State (\<lambda>s. (st_base s, s))"

definition set_base :: "'s \<Rightarrow> (('o, 's, 'x) st, unit) state" where
  "set_base b = State (\<lambda>s. ((), s\<lparr>st_base := Some b\<rparr>))"

definition the_kept :: "(('o, 's, 'x) st, 'x) state" where
  "the_kept = State (\<lambda>s. (st_kept s, s))"

definition set_kept :: "'x \<Rightarrow> (('o, 's, 'x) st, unit) state" where
  "set_kept x = State (\<lambda>s. ((), s\<lparr>st_kept := x\<rparr>))"

text \<open>A read of one object: the answer, and the read in the log.\<close>
definition fetch ::
  "kind \<Rightarrow> (history \<Rightarrow> string \<Rightarrow> string \<Rightarrow> gerr + 'a) \<Rightarrow> string \<Rightarrow> string
    \<Rightarrow> (('o, 's, 'x) st, gerr + 'a) state" where
  "fetch k f ns n = do { r \<leftarrow> ask (\<lambda>l. f l ns n); emit (ReadObj k ns n); ret r }"

definition fetch_list ::
  "kind \<Rightarrow> (history \<Rightarrow> string \<Rightarrow> label_selector option \<Rightarrow> gerr + 'a list) \<Rightarrow> string
    \<Rightarrow> label_selector option \<Rightarrow> (('o, 's, 'x) st, gerr + 'a list) state" where
  "fetch_list k f ns sel = do { r \<leftarrow> ask (\<lambda>l. f l ns sel); emit (ListObjs k ns sel); ret r }"

text \<open>A write: the attempt is in the log whether or not it is accepted.\<close>
definition perform :: "'e env_scheme \<Rightarrow> effect \<Rightarrow> (('o, 's, 'x) st, gerr option) state" where
  "perform E e = do { r \<leftarrow> ask (\<lambda>l. write_result E l e); emit e; ret r }"

definition event :: "event_type \<Rightarrow> string \<Rightarrow> string \<Rightarrow> (('o, 's, 'x) st, unit) state" where
  "event ty reason msg = emit (Event ty reason msg)"

definition now :: "'e env_scheme \<Rightarrow> (('o, 's, 'x) st, int) state" where
  "now E = ask (clock E)"

section \<open>Helpers of the controllers\<close>

definition ReasonUnspecified :: string where "ReasonUnspecified = ''Unspecified''"

text \<open>\<open>upsertCondition\<close>: an empty reason is replaced, since the API server would
  refuse the whole status with it.\<close>
definition upsertCondition ::
  "'e klib_scheme \<Rightarrow> int \<Rightarrow> condition list \<Rightarrow> int \<Rightarrow> string \<Rightarrow> cond_status \<Rightarrow> string \<Rightarrow> string
    \<Rightarrow> condition list" where
  "upsertCondition L t cs gen ty status reason msg = set_condition L t cs
     \<lparr>c_type = ty, c_status = status, c_reason = (if reason = [] then ReasonUnspecified else reason),
      c_message = msg, c_generation = gen, c_transition = 0\<rparr>"

definition getCondition :: "'e klib_scheme \<Rightarrow> condition list \<Rightarrow> string \<Rightarrow> condition option" where
  "getCondition L cs ty = find_condition L cs ty"

text \<open>\<open>conditionChanges\<close> of \<open>mcpserver_controller.go\<close>.\<close>
definition conditionChanges ::
  "'e klib_scheme \<Rightarrow> condition list \<Rightarrow> string \<Rightarrow> cond_status \<Rightarrow> string \<Rightarrow> bool" where
  "conditionChanges L cs ty status reason = (case find_condition L cs ty of
     None \<Rightarrow> True | Some c \<Rightarrow> c_status c \<noteq> status \<or> c_reason c \<noteq> reason)"

text \<open>\<open>labelsContain\<close> of \<open>namespace_egress_controller.go\<close>.\<close>
definition labelsContain :: "labels \<Rightarrow> labels \<Rightarrow> bool" where
  "labelsContain has want = list_all (\<lambda>(k, v). label_of has k = v) want"

text \<open>
  \<open>writeStatus\<close>: nothing when the status equals the base, a patch against the
  base otherwise, and a full update when the reconcile has no base.  \<open>mk\<close> is the
  kind of the object and \<open>get\<close> its status.
\<close>
definition writeStatus ::
  "'e env_scheme \<Rightarrow> ('o \<Rightarrow> kobj) \<Rightarrow> ('o \<Rightarrow> 's) \<Rightarrow> (('o, 's, 'x) st, gerr option) state" where
  "writeStatus E mk get = do {
     o1 \<leftarrow> the_obj;
     b \<leftarrow> the_base;
     (case b of
        None \<Rightarrow> perform E (StatusUpdate (mk o1))
      | Some s \<Rightarrow>
          (if s = get o1 then ret None
           else do {
             r \<leftarrow> perform E (StatusPatch (mk o1));
             (case r of
                Some e \<Rightarrow> ret (Some e)
              | None \<Rightarrow> do { set_base (get o1); ret None }) })) }"

text \<open>\<open>applyUnstructured\<close>: what the API server assigns is not sent.\<close>
definition strip_meta :: "object_meta \<Rightarrow> object_meta" where
  "strip_meta m = m\<lparr>m_creation := 0, m_uid := [], m_generation := 0\<rparr>"

definition applyUnstructured :: "kobj \<Rightarrow> kobj" where
  "applyUnstructured k = (case k of
     KNetPol p \<Rightarrow> KNetPol (p\<lparr>np_meta := strip_meta (np_meta p)\<rparr>)
   | KCilium u \<Rightarrow> KCilium (u\<lparr>un_meta := strip_meta (un_meta u)\<rparr>)
   | KDeploy d \<Rightarrow> KDeploy (d\<lparr>dep_meta := strip_meta (dep_meta d)\<rparr>)
   | _ \<Rightarrow> k)"

definition applyOwned :: "'e env_scheme \<Rightarrow> kobj \<Rightarrow> (('o, 's, 'x) st, gerr option) state" where
  "applyOwned E k = (case convert_error E k of
     Some e \<Rightarrow> ret (Some e)
   | None \<Rightarrow> perform E (Apply (applyUnstructured k)))"

text \<open>An outcome of a reconcile: \<open>RequeueAfter\<close> in nanoseconds, and the error.\<close>
type_synonym outcome = "int \<times> gerr option"

definition seconds :: "int \<Rightarrow> int" where "seconds n = n * 1000000000"

section \<open>Reasoning about effects\<close>

text \<open>
  \<open>triple G P m Q\<close>: run in a state satisfying \<open>P\<close>, every effect of \<open>m\<close> is
  allowed by \<open>G\<close> at the history where it happens, and the result and final state
  satisfy \<open>Q\<close>.
\<close>
definition triple ::
  "(history \<Rightarrow> effect \<Rightarrow> bool) \<Rightarrow> (('o, 's, 'x) st \<Rightarrow> bool) \<Rightarrow> (('o, 's, 'x) st, 'a) state
    \<Rightarrow> ('a \<Rightarrow> ('o, 's, 'x) st \<Rightarrow> bool) \<Rightarrow> bool" where
  "triple G P m Q = (\<forall>s. P s \<longrightarrow> (\<exists>es. st_log (snd (run_state m s)) = st_log s @ es
      \<and> (\<forall>i < length es. G (st_log s @ take i es) (es ! i))
      \<and> Q (fst (run_state m s)) (snd (run_state m s))))"

abbreviation "emits A m \<equiv> triple (\<lambda>l e. A e) (\<lambda>s. True) m (\<lambda>a s. True)"

lemma run_emit [simp]: "run_state (emit e) s = ((), s\<lparr>st_log := st_log s @ [e]\<rparr>)"
  by (simp add: emit_def)
lemma run_ask [simp]: "run_state (ask f) s = (f (st_log s), s)" by (simp add: ask_def)
lemma run_the_obj [simp]: "run_state the_obj s = (st_obj s, s)" by (simp add: the_obj_def)
lemma run_upd_obj [simp]: "run_state (upd_obj f) s = ((), s\<lparr>st_obj := f (st_obj s)\<rparr>)"
  by (simp add: upd_obj_def)
lemma run_the_base [simp]: "run_state the_base s = (st_base s, s)" by (simp add: the_base_def)
lemma run_set_base [simp]: "run_state (set_base b) s = ((), s\<lparr>st_base := Some b\<rparr>)"
  by (simp add: set_base_def)
lemma run_the_kept [simp]: "run_state the_kept s = (st_kept s, s)" by (simp add: the_kept_def)
lemma run_set_kept [simp]: "run_state (set_kept x) s = ((), s\<lparr>st_kept := x\<rparr>)"
  by (simp add: set_kept_def)

lemma run_fetch [simp]: "run_state (fetch k f ns n) s
    = (f (st_log s) ns n, s\<lparr>st_log := st_log s @ [ReadObj k ns n]\<rparr>)"
  by (simp add: fetch_def run_bind)
lemma run_fetch_list [simp]: "run_state (fetch_list k f ns sel) s
    = (f (st_log s) ns sel, s\<lparr>st_log := st_log s @ [ListObjs k ns sel]\<rparr>)"
  by (simp add: fetch_list_def run_bind)
lemma run_perform [simp]: "run_state (perform E e) s
    = (write_result E (st_log s) e, s\<lparr>st_log := st_log s @ [e]\<rparr>)"
  by (simp add: perform_def run_bind)
lemma run_event [simp]: "run_state (event ty r m) s
    = ((), s\<lparr>st_log := st_log s @ [Event ty r m]\<rparr>)"
  by (simp add: event_def)
lemma run_now [simp]: "run_state (now E) s = (clock E (st_log s), s)" by (simp add: now_def)

lemma triple_ret [wp]: "triple G (Q x) (ret x) Q"
  by (auto simp: triple_def)

lemma triple_bind [wp]:
  assumes m: "triple G P m R" and f: "\<And>a. triple G (R a) (f a) Q"
  shows "triple G P (State_Monad.bind m f) Q"
  unfolding triple_def
proof (intro allI impI)
  fix s assume "P s"
  obtain a s1 where r1: "run_state m s = (a, s1)" by (cases "run_state m s")
  obtain es where es: "st_log s1 = st_log s @ es" "\<forall>i < length es. G (st_log s @ take i es) (es ! i)" "R a s1"
    using m \<open>P s\<close> r1 by (auto simp: triple_def)
  obtain b s2 where r2: "run_state (f a) s1 = (b, s2)" by (cases "run_state (f a) s1")
  obtain fs where fs: "st_log s2 = st_log s1 @ fs" "\<forall>i < length fs. G (st_log s1 @ take i fs) (fs ! i)" "Q b s2"
    using f [of a] es(3) r2 by (auto simp: triple_def)
  have "G (st_log s @ take i (es @ fs)) ((es @ fs) ! i)" if "i < length (es @ fs)" for i
  proof (cases "i < length es")
    case False
    then have "i - length es < length fs" using that by simp
    then show ?thesis using fs(2) es(1) False by (simp add: nth_append)
  qed (use es(2) in \<open>simp add: nth_append\<close>)
  then show "\<exists>gs. st_log (snd (run_state (State_Monad.bind m f) s)) = st_log s @ gs \<and>
      (\<forall>i < length gs. G (st_log s @ take i gs) (gs ! i)) \<and>
      Q (fst (run_state (State_Monad.bind m f) s)) (snd (run_state (State_Monad.bind m f) s))"
    using es(1) fs(1,3) r1 r2 by (intro exI [of _ "es @ fs"]) (simp add: run_bind)
qed

lemma triple_pre: "triple G P' m Q \<Longrightarrow> (\<And>s. P s \<Longrightarrow> P' s) \<Longrightarrow> triple G P m Q"
  by (auto simp: triple_def)

lemma triple_post: "triple G P m Q' \<Longrightarrow> (\<And>a s. Q' a s \<Longrightarrow> Q a s) \<Longrightarrow> triple G P m Q"
  unfolding triple_def by blast

lemma triple_weaken: "triple G P m Q \<Longrightarrow> (\<And>l e. G l e \<Longrightarrow> G' l e) \<Longrightarrow> triple G' P m Q"
  unfolding triple_def by blast

lemma triple_emit [wp]: "triple G (\<lambda>s. G (st_log s) e \<and> Q () (s\<lparr>st_log := st_log s @ [e]\<rparr>)) (emit e) Q"
  by (auto simp: triple_def intro!: exI [of _ "[e]"])

lemma triple_silent:
  assumes "\<And>s. st_log (snd (run_state m s)) = st_log s"
  shows "triple G (\<lambda>s. Q (fst (run_state m s)) (snd (run_state m s))) m Q"
  using assms by (auto simp: triple_def)

lemma triple_ask [wp]: "triple G (\<lambda>s. Q (f (st_log s)) s) (ask f) Q"
  by (rule triple_pre, rule triple_silent) auto
lemma triple_the_obj [wp]: "triple G (\<lambda>s. Q (st_obj s) s) the_obj Q"
  by (rule triple_pre, rule triple_silent) auto
lemma triple_upd_obj [wp]: "triple G (\<lambda>s. Q () (s\<lparr>st_obj := f (st_obj s)\<rparr>)) (upd_obj f) Q"
  by (rule triple_pre, rule triple_silent) auto
lemma triple_the_base [wp]: "triple G (\<lambda>s. Q (st_base s) s) the_base Q"
  by (rule triple_pre, rule triple_silent) auto
lemma triple_set_base [wp]: "triple G (\<lambda>s. Q () (s\<lparr>st_base := Some b\<rparr>)) (set_base b) Q"
  by (rule triple_pre, rule triple_silent) auto
lemma triple_the_kept [wp]: "triple G (\<lambda>s. Q (st_kept s) s) the_kept Q"
  by (rule triple_pre, rule triple_silent) auto
lemma triple_set_kept [wp]: "triple G (\<lambda>s. Q () (s\<lparr>st_kept := x\<rparr>)) (set_kept x) Q"
  by (rule triple_pre, rule triple_silent) auto
lemma triple_now [wp]: "triple G (\<lambda>s. Q (clock E (st_log s)) s) (now E) Q"
  unfolding now_def by (rule wp)

lemma triple_fetch [wp]: "triple G (\<lambda>s. G (st_log s) (ReadObj k ns n)
    \<and> Q (f (st_log s) ns n) (s\<lparr>st_log := st_log s @ [ReadObj k ns n]\<rparr>)) (fetch k f ns n) Q"
  by (auto simp: triple_def intro!: exI [of _ "[ReadObj k ns n]"])

lemma triple_fetch_list [wp]: "triple G (\<lambda>s. G (st_log s) (ListObjs k ns sel)
    \<and> Q (f (st_log s) ns sel) (s\<lparr>st_log := st_log s @ [ListObjs k ns sel]\<rparr>)) (fetch_list k f ns sel) Q"
  by (auto simp: triple_def intro!: exI [of _ "[ListObjs k ns sel]"])

lemma triple_perform [wp]: "triple G (\<lambda>s. G (st_log s) e
    \<and> Q (write_result E (st_log s) e) (s\<lparr>st_log := st_log s @ [e]\<rparr>)) (perform E e) Q"
  by (auto simp: triple_def intro!: exI [of _ "[e]"])

lemma triple_event [wp]: "triple G (\<lambda>s. G (st_log s) (Event ty r m)
    \<and> Q () (s\<lparr>st_log := st_log s @ [Event ty r m]\<rparr>)) (event ty r m) Q"
  by (auto simp: triple_def intro!: exI [of _ "[Event ty r m]"])

subsection \<open>Case distinctions\<close>

text \<open>The rules that follow the shape of a program, the precondition unchanged.\<close>

lemma triple_return: "(\<And>s. P s \<Longrightarrow> Q x s) \<Longrightarrow> triple G P (ret x) Q"
  by (rule triple_pre, rule triple_ret)
lemma triple_if:
  "(b \<Longrightarrow> triple G P m Q) \<Longrightarrow> (\<not> b \<Longrightarrow> triple G P n Q) \<Longrightarrow> triple G P (if b then m else n) Q"
  by simp
lemma triple_option:
  "(x = None \<Longrightarrow> triple G P m Q) \<Longrightarrow> (\<And>y. x = Some y \<Longrightarrow> triple G P (f y) Q) \<Longrightarrow>
   triple G P (case x of None \<Rightarrow> m | Some y \<Rightarrow> f y) Q"
  by (cases x) auto
lemma triple_sum:
  "(\<And>y. x = Inl y \<Longrightarrow> triple G P (f y) Q) \<Longrightarrow> (\<And>y. x = Inr y \<Longrightarrow> triple G P (g y) Q) \<Longrightarrow>
   triple G P (case x of Inl y \<Rightarrow> f y | Inr y \<Rightarrow> g y) Q"
  by (cases x) auto
lemma triple_prod:
  "(\<And>y z. x = (y, z) \<Longrightarrow> triple G P (f y z) Q) \<Longrightarrow> triple G P (case x of (y, z) \<Rightarrow> f y z) Q"
  by (cases x) auto
lemma triple_when:
  "(b \<Longrightarrow> triple G P m Q) \<Longrightarrow> (\<And>s. \<not> b \<Longrightarrow> P s \<Longrightarrow> Q () s) \<Longrightarrow> triple G P (whenM b m) Q"
  by (simp add: whenM_def triple_return)

lemmas triple_cases = triple_if triple_option triple_sum triple_prod

subsection \<open>Effects alone\<close>

text \<open>The rules for \<open>emits\<close>: which effects a program may have, whatever the state.\<close>

lemma emits_ret [emits_intro]: "emits A (ret x)" by (rule wp)
lemma emits_bind [emits_intro]:
  "emits A m \<Longrightarrow> (\<And>a. emits A (f a)) \<Longrightarrow> emits A (State_Monad.bind m f)"
  by (rule triple_bind)
lemma emits_silent [emits_intro]:
  "emits A (ask h)" "emits A the_obj" "emits A (upd_obj f)" "emits A the_base" "emits A (set_base b)"
  "emits A the_kept" "emits A (set_kept x)" "emits A (now E)"
  by (rule triple_pre, rule wp, simp)+
lemma emits_emit [emits_intro]: "A e \<Longrightarrow> emits A (emit e)"
  by (rule triple_pre, rule wp) simp
lemma emits_fetch [emits_intro]: "A (ReadObj k ns n) \<Longrightarrow> emits A (fetch k f ns n)"
  by (rule triple_pre, rule wp) simp
lemma emits_fetch_list [emits_intro]: "A (ListObjs k ns sel) \<Longrightarrow> emits A (fetch_list k f ns sel)"
  by (rule triple_pre, rule wp) simp
lemma emits_perform [emits_intro]: "A e \<Longrightarrow> emits A (perform E e)"
  by (rule triple_pre, rule wp) simp
lemma emits_event [emits_intro]: "A (Event ty r m) \<Longrightarrow> emits A (event ty r m)"
  by (rule triple_pre, rule wp) simp
lemma emits_if [emits_intro]: "(b \<Longrightarrow> emits A m) \<Longrightarrow> (\<not> b \<Longrightarrow> emits A n) \<Longrightarrow> emits A (if b then m else n)"
  by simp
lemma emits_when [emits_intro]: "(b \<Longrightarrow> emits A m) \<Longrightarrow> emits A (whenM b m)"
  by (simp add: whenM_def emits_ret)
lemma emits_option [emits_intro]:
  "(x = None \<Longrightarrow> emits A m) \<Longrightarrow> (\<And>y. x = Some y \<Longrightarrow> emits A (f y)) \<Longrightarrow>
   emits A (case x of None \<Rightarrow> m | Some y \<Rightarrow> f y)"
  by (cases x) auto
lemma emits_sum [emits_intro]:
  "(\<And>y. x = Inl y \<Longrightarrow> emits A (f y)) \<Longrightarrow> (\<And>y. x = Inr y \<Longrightarrow> emits A (g y)) \<Longrightarrow>
   emits A (case x of Inl y \<Rightarrow> f y | Inr y \<Rightarrow> g y)"
  by (cases x) auto
lemma emits_prod [emits_intro]:
  "(\<And>y z. x = (y, z) \<Longrightarrow> emits A (f y z)) \<Longrightarrow> emits A (case x of (y, z) \<Rightarrow> f y z)"
  by (cases x) auto
lemma emits_let [emits_intro]: "(\<And>y. emits A (f y)) \<Longrightarrow> emits A (let y = x in f y)"
  by simp
lemma emits_for_each [emits_intro]: "(\<And>x. x \<in> set xs \<Longrightarrow> emits A (f x)) \<Longrightarrow> emits A (for_each f xs)"
  by (induction xs) (auto intro!: emits_ret emits_bind)

text \<open>Effects that neither create, change nor remove an object (a status aside).\<close>
definition harmless :: "effect \<Rightarrow> bool" where
  "harmless e = (case e of Apply _ \<Rightarrow> False | Delete _ _ _ \<Rightarrow> False | Create _ \<Rightarrow> False | Update _ \<Rightarrow> False | _ \<Rightarrow> True)"

lemma harmless_simps [simp]:
  "harmless (ReadObj k ns n)" "harmless (Event t r m)" "harmless (Metric a b)" "harmless (Sleep d)"
  "harmless (Http rq)" "harmless (ListObjs k ns sel)" "harmless (StatusPatch ob)" "harmless (StatusUpdate ob)"
  by (simp_all add: harmless_def)

lemma harmless_not [simp]:
  "\<not> harmless (Create k)" "\<not> harmless (Update k)" "\<not> harmless (Apply k)" "\<not> harmless (Delete kd ns n)"
  by (simp_all add: harmless_def)

lemma emits_writeStatus [emits_intro]:
  "(\<And>k. A (StatusPatch k)) \<Longrightarrow> (\<And>k. A (StatusUpdate k)) \<Longrightarrow> emits A (writeStatus E mk get)"
  unfolding writeStatus_def by (intro emits_intro) auto

lemma emits_applyOwned [emits_intro]: "A (Apply (applyUnstructured k)) \<Longrightarrow> emits A (applyOwned E k)"
  unfolding applyOwned_def by (intro emits_intro)

lemma emitsD:
  assumes "emits A m" "run_state m s = (a, s')"
  shows "\<exists>es. st_log s' = st_log s @ es \<and> list_all A es"
  using assms(1) [unfolded triple_def, rule_format, of s] assms(2)
  by (auto simp: list_all_length)

lemma emits_mono: "emits A m \<Longrightarrow> (\<And>e. A e \<Longrightarrow> B e) \<Longrightarrow> emits B m"
  by (rule triple_weaken)

text \<open>Two facts about one run hold together.\<close>
lemma triple_conj:
  assumes "triple G P m Q" "triple G' P' m Q'"
  shows "triple (\<lambda>l e. G l e \<and> G' l e) (\<lambda>s. P s \<and> P' s) m (\<lambda>a s. Q a s \<and> Q' a s)"
  using assms unfolding triple_def by (metis same_append_eq)

lemma triple_emits:
  assumes "emits A m" "triple (\<lambda>l e. True) P m Q"
  shows "triple (\<lambda>l e. A e) P m Q"
  using triple_conj [OF assms] by (simp add: triple_def)

text \<open>A fact about the run itself, as a triple.\<close>
lemma triple_run:
  assumes "emits A m" "\<And>s. P s \<Longrightarrow> Q (fst (run_state m s)) (snd (run_state m s))"
  shows "triple (\<lambda>l e. A e) P m Q"
  using assms unfolding triple_def by blast

text \<open>A property of the history that no effect of the program breaks.\<close>
lemma triple_invariant:
  assumes "emits B m" "\<And>l e. B e \<Longrightarrow> I l \<Longrightarrow> G l e" "\<And>l l'. I l \<Longrightarrow> I (l @ l')"
  shows "triple G (\<lambda>s. I (st_log s)) m (\<lambda>a s. I (st_log s))"
  using assms(1) unfolding triple_def by (fastforce intro: assms(2,3))

lemma tripleD:
  assumes "triple G P m Q" "P s" "run_state m s = (a, s')" "st_log s' = st_log s @ es"
  shows "Q a s'" "i < length es \<Longrightarrow> G (st_log s @ take i es) (es ! i)"
  using assms unfolding triple_def by (metis fst_conv snd_conv same_append_eq)+

subsection \<open>What was read\<close>

text \<open>An object was read at or after position \<open>n\<close> of the history, with an answer that
  satisfies \<open>ok\<close>.\<close>
definition seen ::
  "(history \<Rightarrow> string \<Rightarrow> string \<Rightarrow> gerr + 'a) \<Rightarrow> kind \<Rightarrow> string \<Rightarrow> string \<Rightarrow> nat
    \<Rightarrow> (gerr + 'a \<Rightarrow> bool) \<Rightarrow> history \<Rightarrow> bool" where
  "seen f k ns nm n ok l = (\<exists>i \<ge> n. i < length l \<and> l ! i = ReadObj k ns nm \<and> ok (f (take i l) ns nm))"

lemma seen_append: "seen f k ns nm n ok l \<Longrightarrow> seen f k ns nm n ok (l @ l')"
  unfolding seen_def by (elim exE conjE, rule_tac x = i in exI) (auto simp: nth_append)

lemma seen_known: "seen f k ns nm n ((=) r) l \<Longrightarrow> ok r \<Longrightarrow> seen f k ns nm n ok l"
  unfolding seen_def by blast

lemma seen_now: "n \<le> length l \<Longrightarrow> ok (f l ns nm) \<Longrightarrow> seen f k ns nm n ok (l @ [ReadObj k ns nm])"
  unfolding seen_def by (rule exI [of _ "length l"]) simp

lemma triple_seen:
  assumes "\<And>l. G l (ReadObj k ns nm)"
  shows "triple G (\<lambda>t. n \<le> length (st_log t)) (fetch k f ns nm)
     (\<lambda>r t. n \<le> length (st_log t) \<and> seen f k ns nm n ((=) r) (st_log t))"
  by (rule triple_pre, rule wp) (simp add: assms seen_now)

text \<open>MCPServers were listed at or after position \<open>n\<close>, with this answer.\<close>
definition members_listed :: "'e env_scheme \<Rightarrow> string \<Rightarrow> label_selector \<Rightarrow> mcp_server list \<Rightarrow> nat \<Rightarrow> history \<Rightarrow> bool" where
  "members_listed E ns sl ss n l = (\<exists>i \<ge> n. i < length l \<and> l ! i = ListObjs ServerKind ns (Some sl)
     \<and> list_servers E (take i l) ns (Some sl) = Inr ss)"

lemma members_listed_append: "members_listed E ns sl ss n l \<Longrightarrow> members_listed E ns sl ss n (l @ l')"
  unfolding members_listed_def by (elim exE conjE, rule_tac x = i in exI) (auto simp: nth_append)

lemma members_listed_now: "n \<le> length l \<Longrightarrow> list_servers E l ns (Some sl) = Inr ss \<Longrightarrow>
   members_listed E ns sl ss n (l @ [ListObjs ServerKind ns (Some sl)])"
  unfolding members_listed_def by (rule exI [of _ "length l"]) simp

text \<open>A write was accepted, or refused because the object is gone.\<close>
definition gone :: "'e env_scheme \<Rightarrow> effect \<Rightarrow> nat \<Rightarrow> history \<Rightarrow> bool" where
  "gone E e n l = (\<exists>i \<ge> n. i < length l \<and> l ! i = e
     \<and> (case write_result E (take i l) e of None \<Rightarrow> True | Some x \<Rightarrow> is_not_found x))"

lemma gone_append: "gone E e n l \<Longrightarrow> gone E e n (l @ l')"
  unfolding gone_def by (elim exE conjE, rule_tac x = i in exI) (auto simp: nth_append)

lemma gone_now: "n \<le> length l \<Longrightarrow> (case write_result E l e of None \<Rightarrow> True | Some x \<Rightarrow> is_not_found x) \<Longrightarrow>
   gone E e n (l @ [e])"
  unfolding gone_def by (rule exI [of _ "length l"]) simp

text \<open>A write of one of the kind \<open>P\<close> was accepted.\<close>
definition accepted :: "'e env_scheme \<Rightarrow> (effect \<Rightarrow> bool) \<Rightarrow> nat \<Rightarrow> history \<Rightarrow> bool" where
  "accepted E P n l = (\<exists>i \<ge> n. i < length l \<and> P (l ! i) \<and> write_result E (take i l) (l ! i) = None)"

lemma accepted_append: "accepted E P n l \<Longrightarrow> accepted E P n (l @ l')"
  unfolding accepted_def by (elim exE conjE, rule_tac x = i in exI) (auto simp: nth_append)

lemma accepted_now: "n \<le> length l \<Longrightarrow> P e \<Longrightarrow> write_result E l e = None \<Longrightarrow> accepted E P n (l @ [e])"
  unfolding accepted_def by (rule exI [of _ "length l"]) simp

text \<open>What holds of the history goes on holding when effects cannot undo it.\<close>
lemma triple_keep:
  assumes "emits (\<lambda>e. \<forall>l. G l e) m" "\<And>l l'. I l \<Longrightarrow> I (l @ l')"
  shows "triple G (\<lambda>s. I (st_log s)) m (\<lambda>a s. I (st_log s))"
  by (rule triple_invariant [OF assms(1)]) (simp_all add: assms(2))

text \<open>A fact about the history that lasts allows effects that rest on it.\<close>
lemma triple_frame:
  assumes "triple A P m Q" "\<And>l l'. I l \<Longrightarrow> I (l @ l')" "\<And>l e. A l e \<Longrightarrow> I l \<Longrightarrow> G l e"
  shows "triple G (\<lambda>s. P s \<and> I (st_log s)) m (\<lambda>a s. Q a s \<and> I (st_log s))"
  unfolding triple_def
proof (intro allI impI)
  fix s assume "P s \<and> I (st_log s)"
  then obtain es where "st_log (snd (run_state m s)) = st_log s @ es" "\<forall>i < length es. A (st_log s @ take i es) (es ! i)"
    "Q (fst (run_state m s)) (snd (run_state m s))" "I (st_log s)"
    using assms(1) by (auto simp: triple_def)
  then show "\<exists>es. st_log (snd (run_state m s)) = st_log s @ es
      \<and> (\<forall>i < length es. G (st_log s @ take i es) (es ! i))
      \<and> Q (fst (run_state m s)) (snd (run_state m s)) \<and> I (st_log (snd (run_state m s)))"
    using assms(2,3) by (intro exI [of _ es]) auto
qed

subsection \<open>Results alone\<close>

text \<open>Every result of the program satisfies \<open>Q\<close>, whatever the state.\<close>
abbreviation "yields Q m \<equiv> triple (\<lambda>l e. True) (\<lambda>s. True) m (\<lambda>a s. Q a)"

lemma yields_ret [yields_intro]: "Q x \<Longrightarrow> yields Q (ret x)" by (rule triple_return)
lemma yields_bind [yields_intro]:
  "emits (\<lambda>e. True) m \<Longrightarrow> (\<And>a. yields Q (f a)) \<Longrightarrow> yields Q (State_Monad.bind m f)"
  by (rule triple_bind)

lemmas yields_cases [yields_intro] = triple_cases [where G = "\<lambda>l e. True" and P = "\<lambda>s. True"]

lemma yieldsD: "yields Q m \<Longrightarrow> run_state m s = (a, s') \<Longrightarrow> Q a"
  unfolding triple_def by (metis fst_conv)

subsection \<open>Programs that change nothing but the log\<close>

definition log_only :: "(('o, 's, 'x) st, 'a) state \<Rightarrow> bool" where
  "log_only m = (\<forall>s. \<exists>l. snd (run_state m s) = s\<lparr>st_log := l\<rparr>)"

lemma log_only_ret [log_only_intro]: "log_only (ret x)"
  unfolding log_only_def by (intro allI, rule_tac x = "st_log s" in exI) simp

lemma log_only_bind [log_only_intro]:
  assumes m: "log_only m" and f: "\<And>a. log_only (f a)"
  shows "log_only (State_Monad.bind m f)"
  unfolding log_only_def
proof
  fix s
  obtain a s1 where r: "run_state m s = (a, s1)" by (cases "run_state m s")
  obtain l where l: "s1 = s\<lparr>st_log := l\<rparr>" using m r by (metis log_only_def snd_conv)
  obtain k where "snd (run_state (f a) s1) = s1\<lparr>st_log := k\<rparr>" using f by (metis log_only_def)
  then show "\<exists>l. snd (run_state (State_Monad.bind m f) s) = s\<lparr>st_log := l\<rparr>"
    using r l by (intro exI [of _ k]) (simp add: run_bind)
qed

lemma log_only_basic [log_only_intro]:
  "log_only (ask f)" "log_only the_obj" "log_only the_base" "log_only the_kept" "log_only (now E)"
  "log_only (emit e)" "log_only (fetch k g ns n)" "log_only (fetch_list k h ns sel)"
  "log_only (perform E e)" "log_only (event ty r m)"
  unfolding log_only_def
  by (intro allI, rule_tac x = "st_log s" in exI, simp; fail
    | intro allI, simp, rule exI, rule refl)+

lemma log_only_if [log_only_intro]: "log_only m \<Longrightarrow> log_only n \<Longrightarrow> log_only (if b then m else n)"
  by simp
lemma log_only_option [log_only_intro]:
  "log_only m \<Longrightarrow> (\<And>y. log_only (f y)) \<Longrightarrow> log_only (case x of None \<Rightarrow> m | Some y \<Rightarrow> f y)"
  by (cases x) auto
lemma log_only_sum [log_only_intro]:
  "(\<And>y. log_only (f y)) \<Longrightarrow> (\<And>y. log_only (g y)) \<Longrightarrow> log_only (case x of Inl y \<Rightarrow> f y | Inr y \<Rightarrow> g y)"
  by (cases x) auto
lemma log_only_prod [log_only_intro]:
  "(\<And>y z. log_only (f y z)) \<Longrightarrow> log_only (case x of (y, z) \<Rightarrow> f y z)"
  by (cases x) auto

lemma log_onlyD: "log_only m \<Longrightarrow> run_state m s = (a, s') \<Longrightarrow>
    st_obj s' = st_obj s \<and> st_base s' = st_base s \<and> st_kept s' = st_kept s"
  by (drule spec [of _ s, OF log_only_def [THEN iffD1]]) auto

subsection \<open>The status write\<close>

text \<open>
  The contract of \<open>writeStatus\<close> for one kind of object, whose status is reached
  by \<open>get\<close>: a write that reports no error leaves the API server with the status
  the object now has.
\<close>
locale status_object =
  fixes mk :: "'o \<Rightarrow> kobj" and get :: "'o \<Rightarrow> 's" and put :: "'s \<Rightarrow> 'o \<Rightarrow> 'o"
  assumes get_put: "get (put b ob) = b"
    and mk_inj: "mk ob = mk ob' \<Longrightarrow> ob = ob'"
begin

lemma unchanged_writes_nothing:
  assumes "st_base s = Some (get (st_obj s))"
  shows "run_state (writeStatus E mk get) s = (None, s)"
  using assms by (simp add: writeStatus_def run_bind)

lemma changed_writes_once:
  assumes "st_base s = Some b" "b \<noteq> get (st_obj s)"
  shows "run_state (writeStatus E mk get) s =
    (write_result E (st_log s) (StatusPatch (mk (st_obj s))),
     s\<lparr>st_log := st_log s @ [StatusPatch (mk (st_obj s))],
       st_base := (if write_result E (st_log s) (StatusPatch (mk (st_obj s))) = None
                   then Some (get (st_obj s)) else Some b)\<rparr>)"
  using assms by (cases "write_result E (st_log s) (StatusPatch (mk (st_obj s)))")
    (simp_all add: writeStatus_def run_bind)

text \<open>After a write without an error a second one in the same reconcile does nothing.\<close>
lemma write_idempotent:
  assumes "run_state (writeStatus E mk get) s = (None, s')" "st_base s \<noteq> None"
  shows "run_state (writeStatus E mk get) s' = (None, s')"
proof (cases "st_base s = Some (get (st_obj s))")
  case True
  then show ?thesis using assms unchanged_writes_nothing [OF True, of E] by auto
next
  case False
  then obtain b where "st_base s = Some b" "b \<noteq> get (st_obj s)" using assms(2) by auto
  then have "st_base s' = Some (get (st_obj s')) \<and> st_obj s' = st_obj s"
    using assms(1) changed_writes_once [of s b E] by auto
  then show ?thesis using unchanged_writes_nothing [of s'] by simp
qed

lemma status_reaches_server:
  assumes "run_state (writeStatus E mk get) s = (None, s')" "st_base s = Some b" "b \<noteq> get (st_obj s)"
  shows "\<exists>ob. last (st_log s') = StatusPatch (mk ob) \<and> get ob = get (st_obj s)"
  using assms changed_writes_once [of s b E] by auto

end

abbreviation "server_write E \<equiv> writeStatus E KServer s_status"
abbreviation "policy_write E \<equiv> writeStatus E KPolicy p_status"
abbreviation "source_write E \<equiv> writeStatus E KSource d_status"

interpretation server_obj: status_object KServer s_status "\<lambda>b ob. ob\<lparr>s_status := b\<rparr>"
  by unfold_locales auto
interpretation policy_obj: status_object KPolicy p_status "\<lambda>b ob. ob\<lparr>p_status := b\<rparr>"
  by unfold_locales auto
interpretation source_obj: status_object KSource d_status "\<lambda>b ob. ob\<lparr>d_status := b\<rparr>"
  by unfold_locales auto

lemma labelsContain_iff: "labelsContain h w \<longleftrightarrow> (\<forall>(k, v) \<in> set w. label_of h k = v)"
  by (auto simp: labelsContain_def list_all_iff)

section \<open>Creating or updating\<close>

text \<open>
  \<open>controllerutil.CreateOrUpdate\<close> of an MCPServer: it reads the object, runs the
  caller's function on what it found, or on an object with that name alone, and creates
  or updates the result, unless the function failed or changed nothing.  The function
  may not change the key.
\<close>
locale upserting =
  fixes ups :: "history \<Rightarrow> string \<Rightarrow> string \<Rightarrow> (mcp_server \<Rightarrow> gerr + mcp_server) \<Rightarrow> gerr option \<times> effect list"
  assumes ups_effects: "e \<in> set (snd (ups l ns n f)) \<Longrightarrow> e = ReadObj ServerKind ns n
      \<or> (\<exists>x s. s_ns x = ns \<and> s_name x = n \<and> f x = Inr s \<and> s_ns s = ns \<and> s_name s = n
           \<and> (e = Create (KServer s) \<or> e = Update (KServer s)))"
    and ups_done: "fst (ups l ns n f) = None \<Longrightarrow> \<exists>x s. s_ns x = ns \<and> s_name x = n \<and> f x = Inr s
      \<and> (s = x \<or> Create (KServer s) \<in> set (snd (ups l ns n f)) \<or> Update (KServer s) \<in> set (snd (ups l ns n f)))"
begin

text \<open>Nothing but the object of that name is read or written.\<close>
lemma ups_own: "e \<in> set (snd (ups l ns n f)) \<Longrightarrow> (case e of
    ReadObj k ns' n' \<Rightarrow> k = ServerKind \<and> ns' = ns \<and> n' = n
  | Create (KServer s) \<Rightarrow> s_ns s = ns \<and> s_name s = n
  | Update (KServer s) \<Rightarrow> s_ns s = ns \<and> s_name s = n
  | _ \<Rightarrow> False)"
  using ups_effects by fastforce

end

definition std_upsert ::
  "history \<Rightarrow> string \<Rightarrow> string \<Rightarrow> (mcp_server \<Rightarrow> gerr + mcp_server) \<Rightarrow> gerr option \<times> effect list" where
  "std_upsert l ns n f =
     (case f (zero_server\<lparr>s_meta := mk_meta n ns [] []\<rparr>) of
        Inl e \<Rightarrow> (Some e, [ReadObj ServerKind ns n])
      | Inr s \<Rightarrow> (if s_ns s = ns \<and> s_name s = n then (None, [ReadObj ServerKind ns n, Create (KServer s)])
          else (Some (Plain ''the function changed the name''), [ReadObj ServerKind ns n])))"

interpretation std_ups: upserting std_upsert
proof
  fix e l ns n and f :: "mcp_server \<Rightarrow> gerr + mcp_server"
  let ?x = "zero_server\<lparr>s_meta := mk_meta n ns [] []\<rparr>"
  have key: "s_ns ?x = ns" "s_name ?x = n" by (simp_all add: mk_meta_def)
  show "e \<in> set (snd (std_upsert l ns n f)) \<Longrightarrow> e = ReadObj ServerKind ns n
      \<or> (\<exists>x s. s_ns x = ns \<and> s_name x = n \<and> f x = Inr s \<and> s_ns s = ns \<and> s_name s = n
           \<and> (e = Create (KServer s) \<or> e = Update (KServer s)))"
    using key by (auto simp: std_upsert_def split: sum.splits if_splits)
  assume "fst (std_upsert l ns n f) = None"
  then obtain s where "f ?x = Inr s" "Create (KServer s) \<in> set (snd (std_upsert l ns n f))"
    by (auto simp: std_upsert_def split: sum.splits if_splits)
  then show "\<exists>x s. s_ns x = ns \<and> s_name x = n \<and> f x = Inr s
      \<and> (s = x \<or> Create (KServer s) \<in> set (snd (std_upsert l ns n f))
            \<or> Update (KServer s) \<in> set (snd (std_upsert l ns n f)))"
    using key by blast
qed

abbreviation "lib_upsert E \<equiv> upserting (upsert_server E)"

text \<open>A Go map is ranged over in some order of its keys, each once.\<close>
abbreviation "lib_range E \<equiv> (\<forall>l ks. distinct ks \<longrightarrow> distinct (range_order E l ks) \<and> set (range_order E l ks) = set ks)"

section \<open>A concrete environment\<close>

text \<open>
  The environment the witnesses start from and update: an empty cluster that
  accepts every write, a core that answers nothing, a stopped clock.
\<close>
definition std_env :: env where
  "std_env = klib.extend std_lib (env.fields
     (\<lambda>l ns n. Inl (NotFound [])) (\<lambda>l ns n. Inl (NotFound [])) (\<lambda>l ns n. Inl (NotFound []))
     (\<lambda>l ns n. Inl (NotFound [])) (\<lambda>l ns n. Inl (NotFound [])) (\<lambda>l ns n. Inl (NotFound []))
     (\<lambda>l ns n. Inl (NotFound [])) (\<lambda>l ns n. Inl (NotFound [])) (\<lambda>l ns n. Inl (NotFound []))
     (\<lambda>l ns n. Inl (NotFound [])) (\<lambda>l ns n. Inl (NotFound []))
     (\<lambda>l ns sel. Inr []) (\<lambda>l ns sel. Inr []) (\<lambda>l ns sel. Inr []) (\<lambda>l ns sel. Inr [])
     (\<lambda>l ns sel. Inr []) (\<lambda>l ns sel. Inr []) (\<lambda>l ns sel. Inr [])
     (\<lambda>l e. None) (\<lambda>l rq. Inl (Plain [])) (\<lambda>rq. None) (\<lambda>l. None) (\<lambda>l. 0) (\<lambda>l g k. False)
     (\<lambda>k. None) std_upsert (\<lambda>l ks. ks))"

lemmas std_env_eqs = std_env_def std_lib_def klib.defs env.defs

lemma std_env_lib [simp]:
  "find_condition std_env = std_find" "set_condition std_env = std_set"
  "contains_finalizer std_env = std_contains" "add_finalizer std_env = std_add"
  "remove_finalizer std_env = std_remove" "is_controlled_by std_env = std_controlled"
  "controller_of std_env = (\<lambda>m. std_controller (m_owners m))"
  "set_controller std_env = std_set_controller"
  "upsert_server std_env = std_upsert" "range_order std_env l ks = ks"
  by (simp_all add: std_env_eqs)

lemma std_env_answers [simp]:
  "write_result std_env l e = None" "request_error std_env rq = None" "ctx_error std_env l = None"
  "clock std_env l = 0" "serves_kind std_env l g k = False" "convert_error std_env ob = None"
  "http_result std_env l rq = Inl (Plain [])" "json_digest std_env j = ''digest''"
  "deploy_digest std_env ls d = Inr ''hash''" "show_rate std_env r = r" "regex_match std_env p x = Inr (str_contains x p)"
  by (simp_all add: std_env_eqs)

lemma std_env_empty [simp]:
  "get_server std_env l ns n = Inl (NotFound [])" "get_policy std_env l ns n = Inl (NotFound [])"
  "get_group std_env l ns n = Inl (NotFound [])" "get_source std_env l ns n = Inl (NotFound [])"
  "get_netpol std_env l ns n = Inl (NotFound [])" "get_cilium std_env l ns n = Inl (NotFound [])"
  "get_deploy std_env l ns n = Inl (NotFound [])" "get_pod std_env l ns n = Inl (NotFound [])"
  "get_lease std_env l ns n = Inl (NotFound [])" "get_namespace std_env l ns n = Inl (NotFound [])"
  "get_configmap std_env l ns n = Inl (NotFound [])"
  "list_servers std_env l ns sel = Inr []" "list_policies std_env l ns sel = Inr []" "list_groups std_env l ns sel = Inr []"
  "list_pods std_env l ns sel = Inr []" "list_services std_env l ns sel = Inr []"
  "list_namespaces std_env l ns sel = Inr []" "list_daemonsets std_env l ns sel = Inr []"
  by (simp_all add: std_env_eqs)

end
