(* ===== verification/HangarClient.thy ===== *)
theory HangarClient
  imports Cluster "HOL-Library.Sublist"
begin

text \<open>
  \<open>pkg/hangar/client.go\<close>: the client of core's REST interface, with its retries,
  its decoding of answers and its classification of errors.  A request body is the
  JSON value that is sent; an answer carries its text and, when it parses, its
  JSON value.  The per-call budget is part of the context, so it shows as
  \<open>ctx_error\<close> of the environment.
\<close>

record client =
  cl_base :: string
  cl_key :: string
  cl_retries :: int
  cl_delay :: int

record client_config =
  cc_url :: string
  cc_key :: string
  cc_retries :: int
  cc_delay :: int

definition DefaultConfig :: client_config where
  "DefaultConfig = \<lparr>cc_url = ''http://mcp-hangar.mcp-hangar.svc.cluster.local:8080'', cc_key = [],
     cc_retries = 3, cc_delay = 500000000\<rparr>"

text \<open>\<open>NewClient\<close>: the timeouts live in the HTTP client, outside the model.\<close>
definition NewClient :: "client_config option \<Rightarrow> client" where
  "NewClient config = (let c = (case config of None \<Rightarrow> DefaultConfig | Some c \<Rightarrow> c) in
     \<lparr>cl_base = cc_url c, cl_key = cc_key c,
      cl_retries = (if cc_retries c \<le> 0 then 3 else cc_retries c),
      cl_delay = (if cc_delay c \<le> 0 then 500000000 else cc_delay c)\<rparr>)"

section \<open>Error classes\<close>

definition status_code :: "gerr \<Rightarrow> int option" where
  "status_code e = (case err_cause e of StatusError c _ \<Rightarrow> Some c | _ \<Rightarrow> None)"

definition IsAuthRejected :: "gerr option \<Rightarrow> bool" where
  "IsAuthRejected err = (case err of None \<Rightarrow> False
     | Some e \<Rightarrow> status_code e = Some 401 \<or> status_code e = Some 403)"

definition IsForbidden :: "gerr \<Rightarrow> bool" where
  "IsForbidden e = (status_code e = Some 403)"

definition IsNotRegistered :: "gerr \<Rightarrow> bool" where
  "IsNotRegistered e = (err_cause e = ErrNotRegistered)"

definition IsEndpointNotTrusted :: "gerr \<Rightarrow> bool" where
  "IsEndpointNotTrusted e = (err_cause e = ErrEndpointNotTrusted)"

definition IsAlreadyRegistered :: "gerr \<Rightarrow> bool" where
  "IsAlreadyRegistered e = (err_cause e = ErrAlreadyRegistered)"

section \<open>Requests\<close>

definition setHeaders :: "client \<Rightarrow> bool \<Rightarrow> labels" where
  "setHeaders c body = (if cl_key c \<noteq> [] then [(''X-API-Key'', cl_key c)] else [])
     @ [(''Accept'', ''application/json''), (''User-Agent'', ''mcp-hangar-operator/1.0'')]
     @ (if body then [(''Content-Type'', ''application/json'')] else [])"

definition mk_request :: "client \<Rightarrow> string \<Rightarrow> string \<Rightarrow> json option \<Rightarrow> http_req" where
  "mk_request c meth url body = \<lparr>hq_method = meth, hq_url = url, hq_body = body,
     hq_headers = setHeaders c (body \<noteq> None)\<rparr>"

definition send :: "'e env_scheme \<Rightarrow> http_req \<Rightarrow> (('o, 's, 'x) st, gerr + http_resp) state" where
  "send E rq = do { r \<leftarrow> ask (\<lambda>l. http_result E l rq); emit (Http rq); ret r }"

text \<open>The back-off before attempt \<open>k > 0\<close>: the base delay shifted left, in int64.\<close>
definition backoff :: "client \<Rightarrow> nat \<Rightarrow> int" where
  "backoff c k = to_i64 (cl_delay c * to_i64 (2 ^ (k - 1)))"

definition status_error :: "http_resp \<Rightarrow> gerr" where
  "status_error r = StatusError (hs_code r) (hs_body r)"

text \<open>The loop of \<open>doWithRetry\<close> from attempt \<open>k\<close>, with \<open>n\<close> attempts left and the
  last error.\<close>
fun attempts :: "'e env_scheme \<Rightarrow> client \<Rightarrow> http_req \<Rightarrow> nat \<Rightarrow> nat \<Rightarrow> gerr
    \<Rightarrow> (('o, 's, 'x) st, gerr + http_resp) state" where
  "attempts E c rq 0 k lastErr =
     ret (Inl (Wrap (''request failed after '' @ itoa (cl_retries c) @ '' retries: '') lastErr))"
| "attempts E c rq (Suc n) k lastErr = do {
     stop \<leftarrow> (if k > 0 then do { emit (Sleep (backoff c k)); ask (ctx_error E) } else ret None);
     (case stop of
        Some e \<Rightarrow> ret (Inl e)
      | None \<Rightarrow> (case request_error E rq of
          Some e \<Rightarrow> ret (Inl (Wrap ''failed to create request: '' e))
        | None \<Rightarrow> do {
            r \<leftarrow> send E rq;
            (case r of
               Inl e \<Rightarrow> do {
                 ce \<leftarrow> ask (ctx_error E);
                 (if ce \<noteq> None then ret (Inl (Wrap ''request failed: '' e))
                  else attempts E c rq n (Suc k) (Wrap ''request failed: '' e)) }
             | Inr resp \<Rightarrow>
                (if hs_code resp \<ge> 500
                 then attempts E c rq n (Suc k) (Wrap ''server error: '' (status_error resp))
                 else ret (Inr resp))) })) }"

definition doWithRetry :: "'e env_scheme \<Rightarrow> client \<Rightarrow> string \<Rightarrow> string \<Rightarrow> json option
    \<Rightarrow> (('o, 's, 'x) st, gerr + http_resp) state" where
  "doWithRetry E c meth url body =
     attempts E c (mk_request c meth url body) (nat (cl_retries c + 1)) 0 (Plain [])"

text \<open>\<open>observe\<close>: the latency and, on an error, the error counter.\<close>
definition observed :: "string \<Rightarrow> (('o, 's, 'x) st, gerr + 'a) state \<Rightarrow> (('o, 's, 'x) st, gerr + 'a) state" where
  "observed op m = do {
     r \<leftarrow> m;
     emit (Metric ''hangar_client_latency_seconds'' [op]);
     (case r of
        Inl e \<Rightarrow> do { emit (Metric ''hangar_client_errors_total'' [op]); ret r }
      | Inr _ \<Rightarrow> ret r) }"

text \<open>One call: the request, and what its answer means.\<close>
definition call :: "'e env_scheme \<Rightarrow> client \<Rightarrow> string \<Rightarrow> string \<Rightarrow> string \<Rightarrow> json option
    \<Rightarrow> (http_resp \<Rightarrow> gerr + 'a) \<Rightarrow> (('o, 's, 'x) st, gerr + 'a) state" where
  "call E c op meth url body answer = observed op (do {
     r \<leftarrow> doWithRetry E c meth url body;
     (case r of Inl e \<Rightarrow> ret (Inl e) | Inr resp \<Rightarrow> ret (answer resp)) })"

section \<open>Decoding\<close>

text \<open>\<open>encoding/json\<close> into Go values: a missing field and \<open>null\<close> leave the zero
  value, a value of another type is an error.  The text of that error is left out.\<close>

definition decode_error :: gerr where
  "decode_error = Wrap ''failed to decode response: '' (Plain [])"

definition jfield :: "fields \<Rightarrow> string \<Rightarrow> json" where
  "jfield m k = (case map_of m k of None \<Rightarrow> JNull | Some v \<Rightarrow> v)"

definition decode_object :: "json option \<Rightarrow> fields option" where
  "decode_object j = (case j of
     Some (JObj m) \<Rightarrow> Some m | Some JNull \<Rightarrow> Some [] | _ \<Rightarrow> None)"

definition decode_string :: "json \<Rightarrow> string option" where
  "decode_string j = (case j of JStr s \<Rightarrow> Some s | JNull \<Rightarrow> Some [] | _ \<Rightarrow> None)"

definition decode_int :: "json \<Rightarrow> int option" where
  "decode_int j = (case j of
     JInt n \<Rightarrow> (if to_i64 n = n then Some n else None) | JNull \<Rightarrow> Some 0 | _ \<Rightarrow> None)"

definition decode_number :: "json \<Rightarrow> string option" where
  "decode_number j = (case j of
     JInt n \<Rightarrow> Some (itoa n) | JNum t \<Rightarrow> Some t | JNull \<Rightarrow> Some ''0'' | _ \<Rightarrow> None)"

definition decode_bool :: "json \<Rightarrow> bool option" where
  "decode_bool j = (case j of JBool b \<Rightarrow> Some b | JNull \<Rightarrow> Some False | _ \<Rightarrow> None)"

fun decode_all :: "('a \<Rightarrow> 'b option) \<Rightarrow> 'a list \<Rightarrow> 'b list option" where
  "decode_all f [] = Some []"
| "decode_all f (x # xs) = (case (f x, decode_all f xs) of
     (Some y, Some ys) \<Rightarrow> Some (y # ys) | _ \<Rightarrow> None)"

definition decode_list :: "(json \<Rightarrow> 'b option) \<Rightarrow> json \<Rightarrow> 'b list option" where
  "decode_list f j = (case j of JArr xs \<Rightarrow> decode_all f xs | JNull \<Rightarrow> Some [] | _ \<Rightarrow> None)"

text \<open>\<open>toolRef.UnmarshalJSON\<close>: a name, or an object with a name.\<close>
definition decode_tool :: "json \<Rightarrow> string option" where
  "decode_tool j = (case decode_string j of
     Some s \<Rightarrow> Some s
   | None \<Rightarrow> (case j of JObj m \<Rightarrow> decode_string (jfield m ''name'') | _ \<Rightarrow> None))"

record server_health =
  sh_consecutive :: int
  sh_invocations :: int
  sh_failures :: int
  sh_rate :: string
  sh_retry :: bool

definition decode_health :: "json option \<Rightarrow> server_health option" where
  "decode_health j = (case decode_object j of
     None \<Rightarrow> None
   | Some m \<Rightarrow> (case (decode_int (jfield m ''consecutive_failures''),
          decode_int (jfield m ''total_invocations''), decode_int (jfield m ''total_failures''),
          decode_number (jfield m ''success_rate''), decode_bool (jfield m ''can_retry'')) of
        (Some a, Some b, Some c, Some d, Some e) \<Rightarrow>
          Some \<lparr>sh_consecutive = a, sh_invocations = b, sh_failures = c, sh_rate = d, sh_retry = e\<rparr>
      | _ \<Rightarrow> None))"

definition unexpected_status :: "http_resp \<Rightarrow> gerr" where
  "unexpected_status r = Wrap ''unexpected status: '' (status_error r)"

section \<open>Calls\<close>

definition servers_url :: "client \<Rightarrow> string" where
  "servers_url c = cl_base c @ ''/api/mcp_servers/''"

definition answer_tools :: "string \<Rightarrow> string \<Rightarrow> http_resp \<Rightarrow> gerr + string list" where
  "answer_tools name ns r =
     (if hs_code r = 404 then Inl (Plain (''provider not found: '' @ ns @ ''/'' @ name))
      else if hs_code r \<noteq> 200 then Inl (unexpected_status r)
      else (case decode_object (hs_json r) of
          None \<Rightarrow> Inl decode_error
        | Some m \<Rightarrow> (case decode_list decode_tool (jfield m ''tools'') of
            None \<Rightarrow> Inl decode_error | Some ts \<Rightarrow> Inr ts)))"

definition GetMCPServerTools ::
  "'e env_scheme \<Rightarrow> client \<Rightarrow> string \<Rightarrow> string \<Rightarrow> (('o, 's, 'x) st, gerr + string list) state" where
  "GetMCPServerTools E c name ns =
     call E c ''get_tools'' ''GET'' (servers_url c @ name @ ''/tools'') None (answer_tools name ns)"

definition answer_health :: "string \<Rightarrow> string \<Rightarrow> http_resp \<Rightarrow> gerr + server_health" where
  "answer_health name ns r =
     (if hs_code r = 404 then Inl (WrapSuffix ErrNotRegistered ('': '' @ ns @ ''/'' @ name))
      else if hs_code r \<noteq> 200 then Inl (unexpected_status r)
      else (case decode_health (hs_json r) of None \<Rightarrow> Inl decode_error | Some h \<Rightarrow> Inr h))"

definition GetMCPServerHealth ::
  "'e env_scheme \<Rightarrow> client \<Rightarrow> string \<Rightarrow> string \<Rightarrow> (('o, 's, 'x) st, gerr + server_health) state" where
  "GetMCPServerHealth E c name ns =
     call E c ''get_health'' ''GET'' (servers_url c @ name @ ''/health'') None (answer_health name ns)"

definition answer_provenance :: "string \<Rightarrow> http_resp \<Rightarrow> gerr + string" where
  "answer_provenance name r =
     (if hs_code r = 404 then Inl (WrapSuffix ErrNotRegistered ('': '' @ name))
      else if hs_code r \<noteq> 200 then Inl (unexpected_status r)
      else (case decode_object (hs_json r) of
          None \<Rightarrow> Inl decode_error
        | Some m \<Rightarrow> (case decode_string (jfield m ''provenance'') of
            None \<Rightarrow> Inl decode_error | Some p \<Rightarrow> Inr p)))"

definition GetMCPServerProvenance ::
  "'e env_scheme \<Rightarrow> client \<Rightarrow> string \<Rightarrow> (('o, 's, 'x) st, gerr + string) state" where
  "GetMCPServerProvenance E c name =
     call E c ''get_provenance'' ''GET'' (servers_url c @ name) None (answer_provenance name)"

text \<open>The compiled L7 policy; its JSON leaves empty lists out.\<close>
record l7_payload =
  l7_tools :: tool_rules
  l7_secrets :: "string list"
  l7_max_bytes :: "int option"
  l7_headers :: "header_rules option"
  l7_default :: string
  l7_mode :: string

definition omit_empty :: "string \<Rightarrow> json list \<Rightarrow> fields" where
  "omit_empty k xs = (if xs = [] then [] else [(k, JArr xs)])"

definition header_json :: "header_match \<Rightarrow> json" where
  "header_json h = JObj [(''name'', JStr (hm_name h)), (''values'', JArr (map JStr (hm_values h)))]"

definition l7_json :: "l7_payload \<Rightarrow> json" where
  "l7_json p = JObj (
     [(''tools'', JObj (omit_empty ''allow'' (map JStr (tl_allow (l7_tools p)))
        @ omit_empty ''deny'' (map JStr (tl_deny (l7_tools p)))
        @ omit_empty ''requireApproval'' (map JStr (tl_approval (l7_tools p))))),
      (''arguments'', JObj (omit_empty ''secretPatterns'' (map JStr (l7_secrets p))
        @ (case l7_max_bytes p of None \<Rightarrow> [] | Some n \<Rightarrow> [(''maxPayloadBytes'', JInt n)])))]
     @ (case l7_headers p of None \<Rightarrow> []
        | Some h \<Rightarrow> [(''headers'', JObj (omit_empty ''allow'' (map header_json (hr_allow h))
            @ omit_empty ''deny'' (map header_json (hr_deny h))
            @ omit_empty ''requireApproval'' (map header_json (hr_approval h))))])
     @ [(''defaultAction'', JStr (l7_default p))]
     @ (if l7_mode p = [] then [] else [(''mode'', JStr (l7_mode p))]))"

definition answer_l7 :: "http_resp \<Rightarrow> gerr + bool" where
  "answer_l7 r =
     (if hs_code r \<noteq> 200 \<and> hs_code r \<noteq> 201 then Inl (Wrap ''set L7 policy failed: '' (status_error r))
      else Inr (case decode_object (hs_json r) of
          None \<Rightarrow> False | Some m \<Rightarrow> jfield m ''persisted'' = JBool True))"

definition SetL7Policy ::
  "'e env_scheme \<Rightarrow> client \<Rightarrow> string \<Rightarrow> l7_payload \<Rightarrow> (('o, 's, 'x) st, gerr + bool) state" where
  "SetL7Policy E c name p = call E c ''set_l7_policy'' ''POST'' (servers_url c @ name @ ''/l7_policy'')
     (Some (l7_json p)) answer_l7"

text \<open>A delete whose answer is 200, 204 or 404 succeeded.\<close>
definition answer_delete :: "string \<Rightarrow> http_resp \<Rightarrow> gerr + unit" where
  "answer_delete what r =
     (if hs_code r \<noteq> 200 \<and> hs_code r \<noteq> 204 \<and> hs_code r \<noteq> 404
      then Inl (Plain (what @ '' failed with status '' @ itoa (hs_code r) @ '': '' @ hs_body r))
      else Inr ())"

definition ClearL7Policy ::
  "'e env_scheme \<Rightarrow> client \<Rightarrow> string \<Rightarrow> (('o, 's, 'x) st, gerr + unit) state" where
  "ClearL7Policy E c name = call E c ''clear_l7_policy'' ''DELETE''
     (servers_url c @ name @ ''/l7_policy'') None (answer_delete ''clear L7 policy'')"

definition answer_register :: "string \<Rightarrow> string \<Rightarrow> http_resp \<Rightarrow> gerr + unit" where
  "answer_register name endpoint r =
     (if hs_code r = 201 \<or> hs_code r = 200 then Inr ()
      else if hs_code r = 400 \<and> str_contains (hs_body r) ''ssrf_blocked''
        then Inl (WrapSuffix ErrEndpointNotTrusted ('': '' @ endpoint))
      else if hs_code r = 422 \<and> str_contains (hs_body r) ''already exists''
        then Inl (WrapSuffix ErrAlreadyRegistered ('': '' @ name))
      else Inl (Wrap ''registration failed: '' (status_error r)))"

definition registration_body :: "string \<Rightarrow> string \<Rightarrow> json option \<Rightarrow> json" where
  "registration_body name endpoint tls = JObj (
     [(''mcp_server_id'', JStr name), (''mode'', JStr ''remote'')]
     @ (if endpoint \<noteq> [] then [(''endpoint'', JStr endpoint)] else [])
     @ (case tls of None \<Rightarrow> [] | Some t \<Rightarrow> [(''tls'', t)]))"

definition registerRemote ::
  "'e env_scheme \<Rightarrow> client \<Rightarrow> string \<Rightarrow> string \<Rightarrow> json option \<Rightarrow> (('o, 's, 'x) st, gerr + unit) state" where
  "registerRemote E c name endpoint tls = call E c ''register'' ''POST'' (servers_url c)
     (Some (registration_body name endpoint tls)) (answer_register name endpoint)"

definition RegisterRemoteMCPServer ::
  "'e env_scheme \<Rightarrow> client \<Rightarrow> string \<Rightarrow> string \<Rightarrow> (('o, 's, 'x) st, gerr + unit) state" where
  "RegisterRemoteMCPServer E c name endpoint = registerRemote E c name endpoint None"

definition RegisterKeyPinnedMCPServer ::
  "'e env_scheme \<Rightarrow> client \<Rightarrow> string \<Rightarrow> string \<Rightarrow> json \<Rightarrow> (('o, 's, 'x) st, gerr + unit) state" where
  "RegisterKeyPinnedMCPServer E c name endpoint tls = registerRemote E c name endpoint (Some tls)"

definition answer_update :: "string \<Rightarrow> string \<Rightarrow> http_resp \<Rightarrow> gerr + unit" where
  "answer_update name endpoint r =
     (if hs_code r = 200 then Inr ()
      else if hs_code r = 400 \<and> str_contains (hs_body r) ''ssrf_blocked''
        then Inl (WrapSuffix ErrEndpointNotTrusted ('': '' @ endpoint))
      else if hs_code r = 404 then Inl (WrapSuffix ErrNotRegistered ('': '' @ name))
      else Inl (Wrap ''update failed: '' (status_error r)))"

definition update_body :: "string \<Rightarrow> json option \<Rightarrow> json" where
  "update_body endpoint tls = JObj (
     [(''endpoint'', (if endpoint \<noteq> [] then JStr endpoint else JNull))]
     @ (case tls of None \<Rightarrow> [] | Some t \<Rightarrow> [(''tls'', t)]))"

definition UpdateMCPServerConnection ::
  "'e env_scheme \<Rightarrow> client \<Rightarrow> string \<Rightarrow> string \<Rightarrow> json option \<Rightarrow> (('o, 's, 'x) st, gerr + unit) state" where
  "UpdateMCPServerConnection E c name endpoint tls = call E c ''update'' ''PUT'' (servers_url c @ name)
     (Some (update_body endpoint tls)) (answer_update name endpoint)"

definition PeerIdentityCapability :: string where "PeerIdentityCapability = ''peer_identity''"
definition DeclaredKeyIssuanceCapability :: string where
  "DeclaredKeyIssuanceCapability = ''declared_key_issuance''"

definition system_error :: gerr where
  "system_error = Wrap ''failed to parse system info: '' (Plain [])"

definition answer_capabilities :: "http_resp \<Rightarrow> gerr + string list" where
  "answer_capabilities r =
     (if hs_code r \<noteq> 200 then Inl (Wrap ''system info failed: '' (status_error r))
      else (case decode_object (hs_json r) of
          None \<Rightarrow> Inl system_error
        | Some m \<Rightarrow> (case decode_object (Some (jfield m ''system'')) of
            None \<Rightarrow> Inl system_error
          | Some sy \<Rightarrow> (case decode_list decode_string (jfield sy ''capabilities'') of
              None \<Rightarrow> Inl system_error | Some cs \<Rightarrow> Inr cs))))"

definition Capabilities ::
  "'e env_scheme \<Rightarrow> client \<Rightarrow> (('o, 's, 'x) st, gerr + string list) state" where
  "Capabilities E c = call E c ''capabilities'' ''GET'' (cl_base c @ ''/api/system/'') None answer_capabilities"

definition OverHTTPS :: "client \<Rightarrow> bool" where
  "OverHTTPS c = has_prefix (to_lower (cl_base c)) ''https://''"

definition answer_start :: "http_resp \<Rightarrow> gerr + unit" where
  "answer_start r = (if hs_code r \<noteq> 200 \<and> hs_code r \<noteq> 202
     then Inl (Wrap ''start failed: '' (status_error r)) else Inr ())"

definition StartMCPServer ::
  "'e env_scheme \<Rightarrow> client \<Rightarrow> string \<Rightarrow> (('o, 's, 'x) st, gerr + unit) state" where
  "StartMCPServer E c name =
     call E c ''start'' ''POST'' (servers_url c @ name @ ''/start'') None answer_start"

definition DeregisterMCPServer ::
  "'e env_scheme \<Rightarrow> client \<Rightarrow> string \<Rightarrow> (('o, 's, 'x) st, gerr + unit) state" where
  "DeregisterMCPServer E c name =
     call E c ''deregister'' ''DELETE'' (servers_url c @ name) None (answer_delete ''deregistration'')"

text \<open>\<open>Ping\<close> does not retry.\<close>
definition Ping :: "'e env_scheme \<Rightarrow> client \<Rightarrow> (('o, 's, 'x) st, gerr + unit) state" where
  "Ping E c = observed ''ping'' (let rq = mk_request c ''GET'' (cl_base c @ ''/health/live'') None in
     (case request_error E rq of
        Some e \<Rightarrow> ret (Inl (Wrap ''failed to create request: '' e))
      | None \<Rightarrow> do {
          r \<leftarrow> send E rq;
          ret (case r of
             Inl e \<Rightarrow> Inl (Wrap ''ping failed: '' e)
           | Inr resp \<Rightarrow> (if hs_code resp \<noteq> 200
               then Inl (Plain (''unhealthy: status '' @ itoa (hs_code resp))) else Inr ())) }))"

section \<open>Facts\<close>

lemma run_send [simp]: "run_state (send E rq) s
    = (http_result E (st_log s) rq, s\<lparr>st_log := st_log s @ [Http rq]\<rparr>)"
  by (simp add: send_def run_bind)

lemma triple_send [wp]: "triple G (\<lambda>s. G (st_log s) (Http rq)
    \<and> Q (http_result E (st_log s) rq) (s\<lparr>st_log := st_log s @ [Http rq]\<rparr>)) (send E rq) Q"
  by (auto simp: triple_def intro!: exI [of _ "[Http rq]"])

text \<open>What a call of method \<open>meth\<close> at \<open>url\<close> may do.\<close>
definition call_effect :: "string \<Rightarrow> string \<Rightarrow> json option \<Rightarrow> effect \<Rightarrow> bool" where
  "call_effect meth url body e = (case e of
     Http rq \<Rightarrow> hq_method rq = meth \<and> hq_url rq = url \<and> hq_body rq = body
   | Sleep _ \<Rightarrow> True | Metric _ _ \<Rightarrow> True | _ \<Rightarrow> False)"

lemma emits_send [emits_intro]: "A (Http rq) \<Longrightarrow> emits A (send E rq)"
  by (rule triple_pre, rule wp) simp

lemma emits_attempts:
  assumes "A (Http rq)" "\<And>d. A (Sleep d)"
  shows "emits A (attempts E c rq n k lastErr)"
proof (induction n arbitrary: k lastErr)
  case 0
  show ?case by (simp add: emits_ret)
next
  case (Suc n)
  show ?case unfolding attempts.simps by (intro emits_intro assms Suc)
qed

lemma emits_call:
  assumes "\<And>rq. hq_method rq = meth \<Longrightarrow> hq_url rq = url \<Longrightarrow> hq_body rq = body \<Longrightarrow> A (Http rq)"
    and "\<And>d. A (Sleep d)" "\<And>n l. A (Metric n l)"
  shows "emits A (call E c op meth url body answer)"
  unfolding call_def observed_def doWithRetry_def
  by (intro emits_intro emits_attempts assms) (simp_all add: mk_request_def)

lemma call_emits: "emits (call_effect meth url body) (call E c op meth url body answer)"
  by (rule emits_call) (simp_all add: call_effect_def)

lemmas client_defs = GetMCPServerTools_def GetMCPServerHealth_def GetMCPServerProvenance_def
  SetL7Policy_def ClearL7Policy_def RegisterRemoteMCPServer_def RegisterKeyPinnedMCPServer_def
  registerRemote_def UpdateMCPServerConnection_def Capabilities_def StartMCPServer_def
  DeregisterMCPServer_def

text \<open>A call leaves the object, the base and what is kept alone.\<close>
lemma log_only_send [log_only_intro]: "log_only (send E rq)"
  unfolding send_def by (intro log_only_intro)

lemma log_only_attempts: "log_only (attempts E c rq n k lastErr)"
proof (induction n arbitrary: k lastErr)
  case 0
  show ?case by (simp add: log_only_intro)
next
  case (Suc n)
  show ?case unfolding attempts.simps by (intro log_only_intro Suc)
qed

lemma log_only_call [log_only_intro]: "log_only (call E c op meth url body answer)"
  unfolding call_def observed_def doWithRetry_def by (intro log_only_intro log_only_attempts)

subsection \<open>The retry schedule\<close>

text \<open>All that \<open>n\<close> attempts can do, from attempt \<open>k\<close> on.\<close>
fun schedule :: "client \<Rightarrow> http_req \<Rightarrow> nat \<Rightarrow> nat \<Rightarrow> effect list" where
  "schedule c rq 0 k = []"
| "schedule c rq (Suc n) k =
     (if k > 0 then [Sleep (backoff c k)] else []) @ [Http rq] @ schedule c rq n (Suc k)"

lemma attempts_schedule:
  "\<exists>es. st_log (snd (run_state (attempts E c rq n k lastErr) s)) = st_log s @ es
     \<and> prefix es (schedule c rq n k)"
proof (induction n arbitrary: k lastErr s)
  case (Suc n)
  define w where "w = (if k > 0 then [Sleep (backoff c k)] else [])"
  define s1 where "s1 = s\<lparr>st_log := st_log s @ w\<rparr>"
  define s2 where "s2 = s\<lparr>st_log := st_log s @ w @ [Http rq]\<rparr>"
  define stop where "stop = (if k > 0 then ctx_error E (st_log s1) else None)"
  have sched: "schedule c rq (Suc n) k = w @ [Http rq] @ schedule c rq n (Suc k)" by (simp add: w_def)
  have again: "\<exists>es. st_log (snd (run_state (attempts E c rq n (Suc k) e) s2)) = st_log s @ es
      \<and> prefix es (schedule c rq (Suc n) k)" for e
  proof -
    obtain fs where "st_log (snd (run_state (attempts E c rq n (Suc k) e) s2)) = st_log s2 @ fs"
      "prefix fs (schedule c rq n (Suc k))" using Suc.IH by blast
    then show ?thesis by (intro exI [of _ "w @ [Http rq] @ fs"]) (simp add: sched s2_def del: schedule.simps)
  qed
  have halt: "\<exists>es. st_log s1 = st_log s @ es \<and> prefix es (schedule c rq (Suc n) k)"
    "\<exists>es. st_log s2 = st_log s @ es \<and> prefix es (schedule c rq (Suc n) k)"
    by (intro exI [of _ w], simp add: sched s1_def del: schedule.simps)
      (intro exI [of _ "w @ [Http rq]"], simp add: sched s2_def del: schedule.simps)
  have run: "run_state (attempts E c rq (Suc n) k lastErr) s =
      (case stop of
         Some e \<Rightarrow> (Inl e, s1)
       | None \<Rightarrow> (case request_error E rq of
           Some e \<Rightarrow> (Inl (Wrap ''failed to create request: '' e), s1)
         | None \<Rightarrow> (case http_result E (st_log s1) rq of
             Inl e \<Rightarrow> (if ctx_error E (st_log s2) \<noteq> None then (Inl (Wrap ''request failed: '' e), s2)
               else run_state (attempts E c rq n (Suc k) (Wrap ''request failed: '' e)) s2)
           | Inr resp \<Rightarrow> (if hs_code resp \<ge> 500
               then run_state (attempts E c rq n (Suc k) (Wrap ''server error: '' (status_error resp))) s2
               else (Inr resp, s2)))))"
    unfolding stop_def s1_def s2_def w_def
    by (cases "k = 0") (simp_all add: run_bind split: option.split sum.split)
  show ?case
    unfolding run using halt again
    by (simp del: schedule.simps split: option.split sum.split)
qed simp

lemma attempts_send_first:
  assumes "request_error E rq = None"
  shows "\<exists>es. st_log (snd (run_state (attempts E c rq (Suc n) 0 le) s)) = st_log s @ Http rq # es"
proof -
  let ?s = "s\<lparr>st_log := st_log s @ [Http rq]\<rparr>"
  have more: "\<exists>es. st_log (snd (run_state (attempts E c rq n k e) ?s)) = st_log s @ Http rq # es" for k e
    using attempts_schedule [of E c rq n k e ?s] by auto
  show ?thesis using assms more
    by (auto simp: run_bind simp del: attempts.simps(1) split: option.split sum.split)
qed

text \<open>The history of a call: its attempts, the first of which is made when the request can be
  built, and then its metrics.\<close>
lemma call_history:
  obtains ds ms where "st_log (snd (run_state (call E c op meth url body answer) s)) = st_log s @ ds @ ms"
    and "prefix ds (schedule c (mk_request c meth url body) (nat (cl_retries c + 1)) 0)"
    and "0 \<le> cl_retries c \<and> request_error E (mk_request c meth url body) = None \<longrightarrow>
          (\<exists>fs. ds = Http (mk_request c meth url body) # fs)"
    and "list_all (\<lambda>e. \<exists>a b. e = Metric a b) ms"
proof -
  let ?rq = "mk_request c meth url body"
  obtain r t where r: "run_state (doWithRetry E c meth url body) s = (r, t)" by fastforce
  obtain ds where ds: "st_log t = st_log s @ ds" "prefix ds (schedule c ?rq (nat (cl_retries c + 1)) 0)"
    using attempts_schedule [of E c ?rq "nat (cl_retries c + 1)" 0 "Plain []" s] r by (auto simp: doWithRetry_def)
  have "\<exists>fs. ds = Http ?rq # fs" if q: "0 \<le> cl_retries c" "request_error E ?rq = None"
  proof -
    obtain n where "nat (cl_retries c + 1) = Suc n" using q(1) by (cases "nat (cl_retries c + 1)") auto
    then show ?thesis
      using attempts_send_first [OF q(2), of c n "Plain []" s] r ds(1) by (auto simp: doWithRetry_def)
  qed
  moreover obtain ms where "st_log (snd (run_state (call E c op meth url body answer) s)) = st_log t @ ms"
    "list_all (\<lambda>e. \<exists>a b. e = Metric a b) ms"
    using r by (cases r; cases "case r of Inl e \<Rightarrow> Inl e | Inr resp \<Rightarrow> answer resp")
      (auto simp: call_def observed_def run_bind)
  ultimately show thesis using that [of ds ms] ds by auto
qed

subsection \<open>What a result rests on\<close>

text \<open>The request was sent at or after position \<open>n\<close> of the history and answered
  by \<open>resp\<close>.\<close>
definition answered :: "'e env_scheme \<Rightarrow> nat \<Rightarrow> http_req \<Rightarrow> history \<Rightarrow> http_resp \<Rightarrow> bool" where
  "answered E n rq l resp = (\<exists>k \<ge> n. k < length l \<and> l ! k = Http rq \<and> http_result E (take k l) rq = Inr resp)"

lemma answered_append: "answered E n rq l resp \<Longrightarrow> answered E n rq (l @ l') resp"
  unfolding answered_def by (elim exE conjE, rule_tac x = k in exI) (auto simp: nth_append)

lemma attempts_answered:
  "triple (\<lambda>l e. True) (\<lambda>t :: ('o, 's, 'x) st. n \<le> length (st_log t)) (attempts E c rq m k le)
     (\<lambda>r t. n \<le> length (st_log t)
        \<and> (\<forall>resp. r = Inr resp \<longrightarrow> answered E n rq (st_log t) resp \<and> hs_code resp < 500))"
proof (induction m arbitrary: k le)
  case 0
  show ?case by (rule triple_pre, simp, rule wp) simp
next
  case (Suc m)
  let ?Q = "\<lambda>r t. n \<le> length (st_log t)
        \<and> (\<forall>resp. r = Inr resp \<longrightarrow> answered E n rq (st_log t) resp \<and> hs_code resp < 500)"
  have wait: "triple (\<lambda>l e. True) (\<lambda>t :: ('o, 's, 'x) st. n \<le> length (st_log t))
     (if k > 0 then do { emit (Sleep (backoff c k)); ask (ctx_error E) } else ret None)
     (\<lambda>r t. n \<le> length (st_log t))"
    by (cases "k > 0") (simp_all, (rule triple_pre, (rule wp)+, simp)+)
  have sent: "triple (\<lambda>l e. True) (\<lambda>t :: ('o, 's, 'x) st. n \<le> length (st_log t)) (send E rq)
     (\<lambda>r t. n \<le> length (st_log t) \<and> (\<forall>resp. r = Inr resp \<longrightarrow> answered E n rq (st_log t) resp))"
    by (rule triple_pre, rule wp) (auto simp: answered_def intro!: exI [of _ "length (st_log _)"])
  have failed: "triple (\<lambda>l e. True) (\<lambda>t :: ('o, 's, 'x) st. n \<le> length (st_log t))
     (do { ce \<leftarrow> ask (ctx_error E);
           (if ce \<noteq> None then ret (Inl (Wrap ''request failed: '' e))
            else attempts E c rq m (Suc k) (Wrap ''request failed: '' e)) }) ?Q" for e
  proof (rule triple_bind)
    show "triple (\<lambda>l e. True) (\<lambda>t :: ('o, 's, 'x) st. n \<le> length (st_log t)) (ask (ctx_error E)) (\<lambda>r t. n \<le> length (st_log t))"
      by (rule triple_pre, rule wp) simp
    show "triple (\<lambda>l e. True) (\<lambda>t :: ('o, 's, 'x) st. n \<le> length (st_log t))
       (if ce \<noteq> None then ret (Inl (Wrap ''request failed: '' e))
            else attempts E c rq m (Suc k) (Wrap ''request failed: '' e)) ?Q" for ce
    proof (cases ce)
      case None
      show ?thesis unfolding None by (simp, rule Suc)
    next
      case (Some x)
      show ?thesis unfolding Some by (simp, rule triple_pre, rule triple_ret) simp
    qed
  qed
  have step: "triple (\<lambda>l e. True) (\<lambda>t :: ('o, 's, 'x) st. n \<le> length (st_log t)
       \<and> (\<forall>resp. r = Inr resp \<longrightarrow> answered E n rq (st_log t) resp))
     (case r of
        Inl e \<Rightarrow> do { ce \<leftarrow> ask (ctx_error E);
           (if ce \<noteq> None then ret (Inl (Wrap ''request failed: '' e))
            else attempts E c rq m (Suc k) (Wrap ''request failed: '' e)) }
      | Inr resp \<Rightarrow> (if hs_code resp \<ge> 500
           then attempts E c rq m (Suc k) (Wrap ''server error: '' (status_error resp))
           else ret (Inr resp))) ?Q" for r
  proof (cases r)
    case (Inl e)
    show ?thesis unfolding Inl sum.case by (rule triple_pre, rule failed) simp
  next
    case (Inr resp)
    show ?thesis unfolding Inr sum.case
      by (cases "hs_code resp \<ge> 500") (simp_all, (rule triple_pre, rule Suc triple_ret, simp)+)
  qed
  have body: "triple (\<lambda>l e. True) (\<lambda>t :: ('o, 's, 'x) st. n \<le> length (st_log t))
     (case stop of Some e \<Rightarrow> ret (Inl e)
      | None \<Rightarrow> (case request_error E rq of
          Some e \<Rightarrow> ret (Inl (Wrap ''failed to create request: '' e))
        | None \<Rightarrow> do { r \<leftarrow> send E rq;
            (case r of
               Inl e \<Rightarrow> do { ce \<leftarrow> ask (ctx_error E);
                  (if ce \<noteq> None then ret (Inl (Wrap ''request failed: '' e))
                   else attempts E c rq m (Suc k) (Wrap ''request failed: '' e)) }
             | Inr resp \<Rightarrow> (if hs_code resp \<ge> 500
                  then attempts E c rq m (Suc k) (Wrap ''server error: '' (status_error resp))
                  else ret (Inr resp))) })) ?Q" for stop
    by (intro triple_option triple_bind [OF sent step] triple_return) auto
  show ?case unfolding attempts.simps by (rule triple_bind [OF wait body])
qed

text \<open>A call that gives a value rests on an answer that decodes to it, and an
  answer with a 5xx status is never one.\<close>
lemma call_answered:
  "triple (\<lambda>l e. True) (\<lambda>t. n \<le> length (st_log t)) (call E c op meth url body answer)
     (\<lambda>r t. n \<le> length (st_log t) \<and> (\<forall>x. r = Inr x \<longrightarrow>
        (\<exists>resp. answered E n (mk_request c meth url body) (st_log t) resp \<and> hs_code resp < 500
           \<and> answer resp = Inr x)))"
proof -
  let ?Q = "\<lambda>r t. n \<le> length (st_log t) \<and> (\<forall>x. r = Inr x \<longrightarrow>
        (\<exists>resp. answered E n (mk_request c meth url body) (st_log t) resp \<and> hs_code resp < 500
           \<and> answer resp = Inr x))"
  have m: "triple (\<lambda>l e. True) (\<lambda>t. n \<le> length (st_log t))
     (do { r \<leftarrow> doWithRetry E c meth url body;
           (case r of Inl e \<Rightarrow> ret (Inl e) | Inr resp \<Rightarrow> ret (answer resp)) }) ?Q"
  proof (rule triple_bind)
    show "triple (\<lambda>l e. True) (\<lambda>t. n \<le> length (st_log t)) (doWithRetry E c meth url body)
      (\<lambda>r t. n \<le> length (st_log t) \<and> (\<forall>resp. r = Inr resp \<longrightarrow>
         answered E n (mk_request c meth url body) (st_log t) resp \<and> hs_code resp < 500))"
      unfolding doWithRetry_def by (rule attempts_answered)
    fix r :: "gerr + http_resp"
    show "triple (\<lambda>l e. True) (\<lambda>t. n \<le> length (st_log t) \<and> (\<forall>resp. r = Inr resp \<longrightarrow>
         answered E n (mk_request c meth url body) (st_log t) resp \<and> hs_code resp < 500))
       (case r of Inl e \<Rightarrow> ret (Inl e) | Inr resp \<Rightarrow> ret (answer resp)) ?Q"
      by (cases r) (auto intro: triple_pre [OF triple_ret])
  qed
  have fin: "triple (\<lambda>l e. True) (?Q r) (do { emit (Metric ''hangar_client_latency_seconds'' [op]);
       (case r of Inl e \<Rightarrow> do { emit (Metric ''hangar_client_errors_total'' [op]); ret r } | Inr _ \<Rightarrow> ret r) }) ?Q" for r
    by (cases r) (simp_all, (rule triple_pre, (rule wp)+, auto intro: answered_append)+)
  show ?thesis unfolding call_def observed_def by (rule triple_bind [OF m fin])
qed

text \<open>A call whose first request is answered below 500 sends no other.\<close>
lemma call_first_answer:
  assumes "0 \<le> cl_retries c" "request_error E (mk_request c meth url body) = None"
    and "http_result E (st_log s) (mk_request c meth url body) = Inr resp" "hs_code resp < 500"
  shows "fst (run_state (call E c op meth url body answer) s) = answer resp"
proof -
  obtain n where n: "nat (cl_retries c + 1) = Suc n" using assms(1) by (cases "nat (cl_retries c + 1)") auto
  show ?thesis
    using assms(2-4) by (cases "answer resp") (simp_all add: call_def observed_def doWithRetry_def n run_bind)
qed

section \<open>Properties\<close>

text \<open>C38 A call sends at most one more request than the configured retries, every
  one the same request, each retry after its back-off and nothing else in between:
  what it does is a prefix of the schedule.\<close>
theorem retry_schedule:
  "\<exists>es. st_log (snd (run_state (doWithRetry E c meth url body) s)) = st_log s @ es
     \<and> prefix es (schedule c (mk_request c meth url body) (nat (cl_retries c + 1)) 0)"
  unfolding doWithRetry_def by (rule attempts_schedule)

text \<open>What a registration's answer means: 200 and 201 are success and nothing
  else is; the endpoint is refused exactly on 400 with core's SSRF code, the name is
  taken exactly on 422 with its conflict text, and the key is forbidden exactly on 403.\<close>
theorem register_outcome:
  assumes "0 \<le> cl_retries c"
    and "request_error E (mk_request c ''POST'' (servers_url c) (Some (registration_body n ep tls))) = None"
    and "http_result E (st_log s)
           (mk_request c ''POST'' (servers_url c) (Some (registration_body n ep tls))) = Inr resp"
    and "hs_code resp < 500"
  shows "(case fst (run_state (registerRemote E c n ep tls) s) of
      Inr _ \<Rightarrow> hs_code resp = 200 \<or> hs_code resp = 201
    | Inl e \<Rightarrow> hs_code resp \<noteq> 200 \<and> hs_code resp \<noteq> 201
        \<and> (IsEndpointNotTrusted e \<longleftrightarrow> hs_code resp = 400 \<and> str_contains (hs_body resp) ''ssrf_blocked'')
        \<and> (IsAlreadyRegistered e \<longleftrightarrow> hs_code resp = 422 \<and> str_contains (hs_body resp) ''already exists'')
        \<and> (IsForbidden e \<longleftrightarrow> hs_code resp = 403) \<and> \<not> IsNotRegistered e)"
  unfolding registerRemote_def call_first_answer [OF assms]
  by (simp add: answer_register_def IsEndpointNotTrusted_def IsAlreadyRegistered_def IsForbidden_def
      IsNotRegistered_def status_code_def status_error_def)

text \<open>Core refusing the key of a client that registers a server.\<close>
theorem register_outcome_witness:
  "case fst (run_state (registerRemote (std_env\<lparr>http_result := (\<lambda>l rq. Inr \<lparr>hs_code = 403, hs_body = [], hs_json = None\<rparr>)\<rparr>)
       \<lparr>cl_base = ''https://core'', cl_key = [], cl_retries = 3, cl_delay = 1\<rparr> ''s'' ''https://e'' None)
       \<lparr>st_obj = 0 :: nat, st_base = None :: nat option, st_kept = (), st_log = []\<rparr>) of
     Inr _ \<Rightarrow> False | Inl e \<Rightarrow> IsForbidden e"
  using register_outcome [of "\<lparr>cl_base = ''https://core'', cl_key = [], cl_retries = 3, cl_delay = 1\<rparr>"
      "std_env\<lparr>http_result := (\<lambda>l rq. Inr \<lparr>hs_code = 403, hs_body = [], hs_json = None\<rparr>)\<rparr>" "''s''" "''https://e''" None
      "\<lparr>st_obj = 0 :: nat, st_base = None :: nat option, st_kept = (), st_log = []\<rparr>"
      "\<lparr>hs_code = 403, hs_body = [], hs_json = None\<rparr>"]
  by (simp split: sum.splits)

end
