(* ===== verification/IpAddr.thy ===== *)
theory IpAddr
  imports Prelude "HOL-Library.Word"
begin

text \<open>
  Go's address parsing, as the network-policy builder uses it: \<open>netip.ParseAddr\<close>,
  \<open>netip.ParsePrefix\<close>, \<open>net.ParseCIDR\<close>, \<open>net.ParseIP\<close> with \<open>To4\<close>, and
  \<open>Prefix.Overlaps\<close>.  The loops of the standard library are recursions on the
  text; an address is a 32-bit or 128-bit word.  The lemmas characterise
  \<open>overlaps\<close> by the addresses two prefixes share.
\<close>

datatype ip_addr = IP4 "32 word" | IP6 "128 word"

type_synonym prefix = "ip_addr \<times> nat"

section \<open>Parsing\<close>

definition is_digit :: "char \<Rightarrow> bool" where
  "is_digit c = (let n = of_char c :: nat in 48 \<le> n \<and> n \<le> 57)"

definition digit_val :: "char \<Rightarrow> nat" where
  "digit_val c = of_char c - 48"

definition hex_val :: "char \<Rightarrow> nat option" where
  "hex_val c = (let n = of_char c :: nat in
     if 48 \<le> n \<and> n \<le> 57 then Some (n - 48)
     else if 97 \<le> n \<and> n \<le> 102 then Some (n - 87)
     else if 65 \<le> n \<and> n \<le> 70 then Some (n - 55)
     else None)"

text \<open>\<open>parseIPv4Fields\<close>: the value and digit count of the current octet, and the
  octets read so far.\<close>
fun v4_loop :: "string \<Rightarrow> nat \<Rightarrow> nat \<Rightarrow> nat list \<Rightarrow> nat list option" where
  "v4_loop [] val digits acc = (if length acc < 3 then None else Some (acc @ [val]))"
| "v4_loop (c # s) val digits acc =
     (if is_digit c then
        (if digits = 1 \<and> val = 0 then None
         else if val * 10 + digit_val c > 255 then None
         else v4_loop s (val * 10 + digit_val c) (Suc digits) acc)
      else if c = CHR ''.'' then
        (if digits = 0 \<or> s = [] then None
         else if length acc = 3 then None
         else v4_loop s 0 0 (acc @ [val]))
      else None)"

definition parse_v4 :: "string \<Rightarrow> nat list option" where
  "parse_v4 s = v4_loop s 0 0 []"

text \<open>The hexadecimal digits at the head of an IPv6 group: how many, their value,
  and the rest.  More than four are refused.\<close>
fun v6_hex :: "string \<Rightarrow> nat \<Rightarrow> nat \<Rightarrow> (nat \<times> nat \<times> string) option" where
  "v6_hex [] off acc = Some (off, acc, [])"
| "v6_hex (c # s) off acc = (case hex_val c of
     None \<Rightarrow> Some (off, acc, c # s)
   | Some d \<Rightarrow> (if off > 3 then None
       else if acc * 16 + d > 65535 then None
       else v6_hex s (Suc off) (acc * 16 + d)))"

text \<open>The loop of \<open>parseIPv6\<close> over at most eight groups: the bytes so far and the
  position of the ellipsis.\<close>
fun v6_loop :: "nat \<Rightarrow> string \<Rightarrow> nat list \<Rightarrow> nat option
    \<Rightarrow> (string \<times> nat list \<times> nat option) option" where
  "v6_loop 0 s bs ell = Some (s, bs, ell)"
| "v6_loop (Suc n) s bs ell = (case v6_hex s 0 0 of
     None \<Rightarrow> None
   | Some (off, acc, rest) \<Rightarrow>
      (if off = 0 then None
       else if rest \<noteq> [] \<and> hd rest = CHR ''.'' then
         (if ell = None \<and> length bs \<noteq> 12 then None
          else if length bs + 4 > 16 then None
          else (case parse_v4 s of None \<Rightarrow> None | Some f \<Rightarrow> Some ([], bs @ f, ell)))
       else (let bs' = bs @ [acc div 256, acc mod 256] in
         (case rest of
            [] \<Rightarrow> Some ([], bs', ell)
          | c # t \<Rightarrow>
             (if c \<noteq> CHR '':'' then None
              else if t = [] then None
              else if hd t = CHR '':'' then
                (if ell \<noteq> None then None
                 else if tl t = [] then Some ([], bs', Some (length bs'))
                 else v6_loop n (tl t) bs' (Some (length bs')))
              else v6_loop n t bs' ell)))))"

definition v6_expand :: "nat list \<Rightarrow> nat option \<Rightarrow> nat list option" where
  "v6_expand bs ell =
     (if length bs < 16 then
        (case ell of None \<Rightarrow> None
         | Some e \<Rightarrow> Some (take e bs @ replicate (16 - length bs) 0 @ drop e bs))
      else (case ell of None \<Rightarrow> Some bs | Some _ \<Rightarrow> None))"

text \<open>\<open>parseIPv6\<close>: the bytes and the zone.\<close>
definition parse_v6 :: "string \<Rightarrow> (nat list \<times> string) option" where
  "parse_v6 inp =
     (case (case cut_on CHR ''%'' inp of
              None \<Rightarrow> Some (inp, [])
            | Some (s, z) \<Rightarrow> if z = [] then None else Some (s, z)) of
        None \<Rightarrow> None
      | Some (s, zone) \<Rightarrow>
         (if take 2 s = [CHR '':'', CHR '':''] then
            (let t = drop 2 s in
             if t = [] then Some (replicate 16 0, zone)
             else (case v6_loop 8 t [] (Some 0) of
                 None \<Rightarrow> None
               | Some (rest, bs, ell) \<Rightarrow>
                   if rest \<noteq> [] then None else map_option (\<lambda>b. (b, zone)) (v6_expand bs ell)))
          else (case v6_loop 8 s [] None of
                 None \<Rightarrow> None
               | Some (rest, bs, ell) \<Rightarrow>
                   if rest \<noteq> [] then None else map_option (\<lambda>b. (b, zone)) (v6_expand bs ell))))"

definition bytes_nat :: "nat list \<Rightarrow> nat" where
  "bytes_nat bs = foldl (\<lambda>n b. n * 256 + b) 0 bs"

text \<open>\<open>netip.ParseAddr\<close>: the first of \<open>.\<close>, \<open>:\<close> and \<open>%\<close> decides the family.\<close>
fun addr_kind :: "string \<Rightarrow> char option" where
  "addr_kind [] = None"
| "addr_kind (c # s) =
     (if c = CHR ''.'' \<or> c = CHR '':'' \<or> c = CHR ''%'' then Some c else addr_kind s)"

definition parse_addr :: "string \<Rightarrow> (ip_addr \<times> string) option" where
  "parse_addr s = (case addr_kind s of
     None \<Rightarrow> None
   | Some c \<Rightarrow>
      (if c = CHR ''.'' then map_option (\<lambda>f. (IP4 (of_nat (bytes_nat f)), [])) (parse_v4 s)
       else if c = CHR '':'' then map_option (\<lambda>(b, z). (IP6 (of_nat (bytes_nat b)), z)) (parse_v6 s)
       else None))"

definition bit_len :: "ip_addr \<Rightarrow> nat" where
  "bit_len a = (case a of IP4 _ \<Rightarrow> 32 | IP6 _ \<Rightarrow> 128)"

text \<open>\<open>dtoi\<close> of package net, on the whole text: decimal digits below 16777215.\<close>
fun dtoi_loop :: "string \<Rightarrow> nat \<Rightarrow> nat option" where
  "dtoi_loop [] n = Some n"
| "dtoi_loop (c # s) n = (if is_digit c then
      (if n * 10 + digit_val c \<ge> 16777215 then None else dtoi_loop s (n * 10 + digit_val c))
    else None)"

definition dtoi :: "string \<Rightarrow> nat option" where
  "dtoi s = (if s = [] then None else dtoi_loop s 0)"

text \<open>\<open>net.ParseCIDR\<close>: the address and prefix length it accepts.\<close>
definition net_parse_cidr :: "string \<Rightarrow> prefix option" where
  "net_parse_cidr s = (case cut_on CHR ''/'' s of
     None \<Rightarrow> None
   | Some (a, m) \<Rightarrow> (case parse_addr a of
        None \<Rightarrow> None
      | Some (ip, zone) \<Rightarrow>
         (if zone \<noteq> [] then None
          else (case dtoi m of None \<Rightarrow> None
                | Some n \<Rightarrow> if n > bit_len ip then None else Some (ip, n)))))"

text \<open>\<open>net.ParseIP\<close>.\<close>
definition net_parse_ip :: "string \<Rightarrow> ip_addr option" where
  "net_parse_ip s = (case parse_addr s of
     None \<Rightarrow> None | Some (ip, zone) \<Rightarrow> if zone \<noteq> [] then None else Some ip)"

text \<open>\<open>IP.To4() != nil\<close>: an IPv4 address, or an IPv6 one of the mapped form
  \<open>::ffff:a.b.c.d\<close>.\<close>
definition has_to4 :: "ip_addr \<Rightarrow> bool" where
  "has_to4 a = (case a of IP4 _ \<Rightarrow> True | IP6 w \<Rightarrow> drop_bit 32 w = 0xffff)"

text \<open>\<open>strconv.Atoi\<close> on the bits of a prefix, whose first character the caller
  has checked.\<close>
fun dec_loop :: "string \<Rightarrow> nat \<Rightarrow> nat option" where
  "dec_loop [] n = Some n"
| "dec_loop (c # s) n = (if is_digit c then dec_loop s (n * 10 + digit_val c) else None)"

definition parse_prefix :: "string \<Rightarrow> prefix option" where
  "parse_prefix s = (case cut_last CHR ''/'' s of
     None \<Rightarrow> None
   | Some (a, b) \<Rightarrow> (case parse_addr a of
        None \<Rightarrow> None
      | Some (ip, zone) \<Rightarrow>
         (if zone \<noteq> [] then None
          else if b = [] then None
          else if length b > 1 \<and> \<not> (is_digit (hd b) \<and> hd b \<noteq> CHR ''0'') then None
          else (case dec_loop b 0 of None \<Rightarrow> None
                | Some n \<Rightarrow> if n > bit_len ip then None else Some (ip, n)))))"

section \<open>Prefixes\<close>

text \<open>\<open>Addr.Prefix(b)\<close>: the address with all but its first \<open>b\<close> bits cleared.\<close>
definition mask_addr :: "nat \<Rightarrow> ip_addr \<Rightarrow> ip_addr" where
  "mask_addr b a = (case a of
     IP4 w \<Rightarrow> IP4 (push_bit (32 - b) (drop_bit (32 - b) w))
   | IP6 w \<Rightarrow> IP6 (push_bit (128 - b) (drop_bit (128 - b) w)))"

definition masked :: "prefix \<Rightarrow> prefix" where
  "masked p = (mask_addr (snd p) (fst p), snd p)"

definition is4 :: "ip_addr \<Rightarrow> bool" where
  "is4 a = (case a of IP4 _ \<Rightarrow> True | IP6 _ \<Rightarrow> False)"

definition overlaps :: "prefix \<Rightarrow> prefix \<Rightarrow> bool" where
  "overlaps p q =
     (if p = q then True
      else if is4 (fst p) \<noteq> is4 (fst q) then False
      else (let m = min (snd p) (snd q) in
        if m = 0 then True else mask_addr m (fst p) = mask_addr m (fst q)))"

text \<open>The addresses of a prefix: those of its family that agree on its bits.\<close>
definition in_prefix :: "ip_addr \<Rightarrow> prefix \<Rightarrow> bool" where
  "in_prefix x p = (is4 x = is4 (fst p) \<and> mask_addr (snd p) x = mask_addr (snd p) (fst p))"

definition valid_prefix :: "prefix \<Rightarrow> bool" where
  "valid_prefix p = (snd p \<le> bit_len (fst p))"

subsection \<open>Facts\<close>

lemma drop_push_drop [simp]: "drop_bit k (push_bit k (drop_bit k x)) = drop_bit k (x :: 'w::len word)"
  by (rule bit_eqI) (auto simp: bit_simps dest: bit_imp_le_length)

lemma push_drop_eq_iff:
  fixes a b :: "'w::len word"
  assumes "k \<le> LENGTH('w)"
  shows "push_bit k (drop_bit k a) = push_bit k (drop_bit k b) \<longleftrightarrow> drop_bit k a = drop_bit k b"
proof
  assume "push_bit k (drop_bit k a) = push_bit k (drop_bit k b)"
  then have "drop_bit k (push_bit k (drop_bit k a)) = drop_bit k (push_bit k (drop_bit k b))" by simp
  then show "drop_bit k a = drop_bit k b" by simp
qed simp

lemma drop_bit_mono_eq:
  fixes a b :: "'w::len word"
  assumes "drop_bit k a = drop_bit k b" "k \<le> l"
  shows "drop_bit l a = drop_bit l b"
proof -
  have "drop_bit l x = drop_bit (l - k) (drop_bit k x)" for x :: "'w word"
    using assms(2) by simp
  then show ?thesis using assms(1) by metis
qed

lemma mask_addr_eq_iff:
  "mask_addr n (IP4 a) = mask_addr n (IP4 b) \<longleftrightarrow> drop_bit (32 - n) a = drop_bit (32 - n) b"
  "mask_addr n (IP6 c) = mask_addr n (IP6 d) \<longleftrightarrow> drop_bit (128 - n) c = drop_bit (128 - n) d"
  by (simp_all add: mask_addr_def push_drop_eq_iff)

lemma mask_addr_cross [simp]:
  "mask_addr n (IP4 a) \<noteq> mask_addr m (IP6 b)" "mask_addr n (IP6 b) \<noteq> mask_addr m (IP4 a)"
  by (simp_all add: mask_addr_def)

lemma mask_addr_mono:
  assumes "mask_addr n a = mask_addr n b" "m \<le> n"
  shows "mask_addr m a = mask_addr m b"
  using assms by (cases a; cases b)
    (auto simp: mask_addr_eq_iff intro: drop_bit_mono_eq)

lemma is4_mask [simp]: "is4 (mask_addr n a) = is4 a"
  by (cases a) (simp_all add: mask_addr_def is4_def)

lemma mask_mask [simp]: "mask_addr n (mask_addr n a) = mask_addr n a"
  by (cases a) (simp_all only: mask_addr_def ip_addr.case drop_push_drop)

lemma in_prefix_masked [simp]: "in_prefix x (masked p) = in_prefix x p"
  by (simp add: in_prefix_def masked_def)

lemma mask_zero:
  "is4 a = is4 b \<Longrightarrow> mask_addr 0 a = mask_addr 0 b"
proof -
  assume "is4 a = is4 b"
  moreover have "drop_bit 32 (x :: 32 word) = 0" for x
    by (rule bit_eqI) (auto simp: bit_simps dest: bit_imp_le_length)
  moreover have "drop_bit 128 (y :: 128 word) = 0" for y
    by (rule bit_eqI) (auto simp: bit_simps dest: bit_imp_le_length)
  ultimately show ?thesis by (cases a; cases b) (simp_all add: mask_addr_def is4_def)
qed

text \<open>Two prefixes overlap exactly when they share an address.\<close>
lemma overlaps_iff: "overlaps p q \<longleftrightarrow> (\<exists>x. in_prefix x p \<and> in_prefix x q)"
proof
  assume o: "overlaps p q"
  show "\<exists>x. in_prefix x p \<and> in_prefix x q"
  proof (cases "p = q")
    case True then show ?thesis by (auto simp: in_prefix_def)
  next
    case False
    then have fam: "is4 (fst p) = is4 (fst q)" using o by (simp add: overlaps_def split: if_splits)
    have eq: "mask_addr (min (snd p) (snd q)) (fst p) = mask_addr (min (snd p) (snd q)) (fst q)"
      using o False fam mask_zero [OF fam] by (auto simp: overlaps_def Let_def split: if_splits)
    show ?thesis
    proof (cases "snd p \<le> snd q")
      case True
      then show ?thesis using eq fam by (intro exI [of _ "fst q"]) (simp add: in_prefix_def min_def)
    next
      case False
      then show ?thesis using eq fam by (intro exI [of _ "fst p"]) (simp add: in_prefix_def min_def)
    qed
  qed
next
  assume "\<exists>x. in_prefix x p \<and> in_prefix x q"
  then obtain x where x: "in_prefix x p" "in_prefix x q" by blast
  then have fam: "is4 (fst p) = is4 (fst q)" by (simp add: in_prefix_def)
  have "mask_addr (min (snd p) (snd q)) x = mask_addr (min (snd p) (snd q)) (fst p)"
    by (rule mask_addr_mono [of "snd p"]) (use x(1) in \<open>simp_all only: in_prefix_def min.cobounded1\<close>)
  moreover have "mask_addr (min (snd p) (snd q)) x = mask_addr (min (snd p) (snd q)) (fst q)"
    by (rule mask_addr_mono [of "snd q"]) (use x(2) in \<open>simp_all only: in_prefix_def min.cobounded2\<close>)
  ultimately show "overlaps p q" using fam by (simp add: overlaps_def Let_def)
qed

lemma drop_bit_not_ne:
  fixes a :: "'w::len word"
  assumes "k < LENGTH('w)"
  shows "drop_bit k (not a) \<noteq> drop_bit k a"
proof
  assume "drop_bit k (not a) = drop_bit k a"
  then have "bit (drop_bit k (not a)) 0 = bit (drop_bit k a) 0" by simp
  then show False using assms by (simp add: bit_simps)
qed

text \<open>A prefix holds every address of its family exactly when it has no bits.\<close>
lemma full_prefix_iff:
  assumes "valid_prefix p"
  shows "(\<forall>x. is4 x = is4 (fst p) \<longrightarrow> in_prefix x p) \<longleftrightarrow> snd p = 0"
proof
  assume all: "\<forall>x. is4 x = is4 (fst p) \<longrightarrow> in_prefix x p"
  show "snd p = 0"
  proof (rule ccontr)
    assume n: "snd p \<noteq> 0"
    show False
    proof (cases "fst p")
      case (IP4 a)
      then have "in_prefix (IP4 (not a)) p" using all by (simp add: is4_def)
      then have "drop_bit (32 - snd p) (not a) = drop_bit (32 - snd p) a"
        using IP4 by (simp only: in_prefix_def mask_addr_eq_iff)
      then show False using drop_bit_not_ne [of "32 - snd p" a] n by simp
    next
      case (IP6 a)
      then have "in_prefix (IP6 (not a)) p" using all by (simp add: is4_def)
      then have "drop_bit (128 - snd p) (not a) = drop_bit (128 - snd p) a"
        using IP6 by (simp only: in_prefix_def mask_addr_eq_iff)
      then show False using drop_bit_not_ne [of "128 - snd p" a] n by simp
    qed
  qed
next
  assume "snd p = 0"
  then show "\<forall>x. is4 x = is4 (fst p) \<longrightarrow> in_prefix x p"
    by (auto simp: in_prefix_def intro: mask_zero)
qed

lemma net_parse_cidr_valid: "net_parse_cidr s = Some p \<Longrightarrow> valid_prefix p"
  unfolding net_parse_cidr_def valid_prefix_def
  by (simp split: option.split_asm prod.split_asm if_split_asm) auto

lemma parse_prefix_valid: "parse_prefix s = Some p \<Longrightarrow> valid_prefix p"
  unfolding parse_prefix_def valid_prefix_def
  by (simp split: option.split_asm prod.split_asm if_split_asm) auto

subsection \<open>Texts that parse\<close>

lemma v4_loop_no_slash: "v4_loop s v n acc = Some r \<Longrightarrow> CHR ''/'' \<notin> set s"
  by (induction s v n acc rule: v4_loop.induct) (auto simp: is_digit_def split: if_splits)

lemma v6_hex_slash:
  "v6_hex s off acc = Some (off', acc', rest) \<Longrightarrow> CHR ''/'' \<in> set s \<longleftrightarrow> CHR ''/'' \<in> set rest"
  by (induction s off acc rule: v6_hex.induct) (auto simp: hex_val_def split: if_splits option.splits)

lemma v6_loop_slash:
  "v6_loop n s bs ell = Some (rest, bs', ell') \<Longrightarrow> CHR ''/'' \<in> set s \<Longrightarrow> CHR ''/'' \<in> set rest"
proof (induction n s bs ell rule: v6_loop.induct)
  case (2 n s bs ell)
  obtain off acc r where h: "v6_hex s 0 0 = Some (off, acc, r)" and off: "off \<noteq> 0"
    using 2(3) by (auto split: option.splits if_splits)
  have r: "CHR ''/'' \<in> set r" using v6_hex_slash [OF h] 2(4) by simp
  show ?case
  proof (cases "hd r = CHR ''.''")
    case True
    then show ?thesis using 2(3,4) h off r
      by (auto simp: parse_v4_def dest: v4_loop_no_slash split: option.splits if_splits)
  next
    case False
    obtain t where t: "r = CHR '':'' # t" "t \<noteq> []"
      using 2(3) h off False r by (cases r) (auto simp: Let_def split: if_splits)
    have in_t: "CHR ''/'' \<in> set t" using r t by simp
    then have "CHR ''/'' \<in> set (tl t)" if "hd t = CHR '':''" using that by (cases t) auto
    then show ?thesis using 2(1) [OF h] 2(2) [OF h] 2(3) h off False t in_t
      by (auto simp: Let_def split: if_splits)
  qed
qed simp

lemma parse_v6_no_slash:
  assumes "parse_v6 s = Some (b, [])" shows "CHR ''/'' \<notin> set s"
proof
  assume sl: "CHR ''/'' \<in> set s"
  have zone: "cut_on CHR ''%'' s = None"
    using assms by (cases "cut_on CHR ''%'' s") (auto simp: parse_v6_def Let_def split: option.split_asm if_split_asm)
  have stop: "v6_loop n t bs ell \<noteq> Some ([], bs', ell')" if "CHR ''/'' \<in> set t" for n t bs ell bs' ell'
    using v6_loop_slash [of n t bs ell "[]" bs' ell'] that by auto
  show False
  proof (cases "take 2 s = [CHR '':'', CHR '':'']")
    case True
    have "set (take 2 s @ drop 2 s) = {CHR '':''} \<union> set (drop 2 s)" unfolding set_append True by simp
    then have "CHR ''/'' \<in> set (drop 2 s)" using sl by simp
    then show ?thesis using assms True stop [of "drop 2 s"]
      by (auto simp: parse_v6_def zone Let_def split: option.split_asm if_split_asm)
  next
    case False
    then show ?thesis using assms stop [OF sl]
      by (auto simp: parse_v6_def zone Let_def split: option.split_asm if_split_asm)
  qed
qed

lemma parse_addr_no_slash: "parse_addr s = Some (ip, []) \<Longrightarrow> CHR ''/'' \<notin> set s"
  using v4_loop_no_slash [of s 0 0 "[]"] parse_v6_no_slash [of s]
  by (cases "parse_v4 s"; cases "parse_v6 s")
    (auto simp: parse_addr_def parse_v4_def split: option.split_asm if_split_asm)

lemma host_cidr_reads:
  assumes "net_parse_ip h = Some ip" and "dtoi m = Some n" and "n \<le> bit_len ip"
  shows "net_parse_cidr (h @ CHR ''/'' # m) = Some (ip, n)"
proof -
  have a: "parse_addr h = Some (ip, [])" using assms(1) by (auto simp: net_parse_ip_def split: option.splits if_splits)
  then show ?thesis using assms(2,3) parse_addr_no_slash [OF a] by (simp add: net_parse_cidr_def cut_on_new)
qed

lemmas cidr_evals = net_parse_cidr_def parse_addr_def parse_v4_def dtoi_def is_digit_def digit_val_def bit_len_def

end
