(* ===== verification/NetPolicy.thy ===== *)
theory NetPolicy
  imports KubeLib IpAddr
begin

text \<open>
  \<open>pkg/networkpolicy\<close>, files \<open>builder.go\<close> and \<open>ingress.go\<close>: the policies built for
  an MCPServer, a namespace, an MCPEgressPolicy (Vanilla and Cilium) and the
  provider ingress fence.  The two package variables set at startup are the
  record \<open>dns_config\<close>.  What a policy lets out is given by \<open>egress_permits\<close>, the
  documented meaning of a NetworkPolicy, over which the builder is refined to
  what the spec declares.
\<close>

definition LabelManagedBy :: string where "LabelManagedBy = ''app.kubernetes.io/managed-by''"
definition LabelProvider :: string where "LabelProvider = ''mcp-hangar.io/provider''"
definition LabelComponent :: string where "LabelComponent = ''mcp-hangar.io/component''"
definition AnnotationHostWarnings :: string where
  "AnnotationHostWarnings = ''mcp-hangar.io/host-warnings''"
definition DefaultManagerName :: string where "DefaultManagerName = ''mcp-hangar-operator''"
definition componentNetworkPolicy :: string where "componentNetworkPolicy = ''network-policy''"
definition EnforceEgressLabel :: string where "EnforceEgressLabel = ''mcp-hangar.io/enforce-egress''"
definition DefaultDenyEgressName :: string where "DefaultDenyEgressName = ''mcp-default-deny-egress''"
definition LabelEgressPolicy :: string where "LabelEgressPolicy = ''mcp-hangar.io/egress-policy''"

text \<open>A plain \<open>true\<close> as annotations and labels carry it.\<close>
definition str_true :: string where "str_true = ''true''"

definition NetworkPolicyName :: "string \<Rightarrow> string" where
  "NetworkPolicyName n = ''mcp-provider-'' @ n @ ''-egress''"

definition EgressPolicyBackstopName :: "string \<Rightarrow> string" where
  "EgressPolicyBackstopName n = ''mcp-egresspolicy-'' @ n"

section \<open>Addresses\<close>

definition asCIDR :: "string \<Rightarrow> string option" where
  "asCIDR host = (case net_parse_cidr host of
     Some _ \<Rightarrow> Some host
   | None \<Rightarrow> (case net_parse_ip host of
        Some ip \<Rightarrow> (if has_to4 ip then Some (host @ ''/32'') else Some (host @ ''/128''))
      | None \<Rightarrow> None))"

definition clusterInternalRanges :: "prefix list" where
  "clusterInternalRanges =
     [(IP4 0x0a000000, 8), (IP4 0xac100000, 12), (IP4 0xc0a80000, 16), (IP4 0x64400000, 10),
      (IP6 0xfc000000000000000000000000000000, 7)]"

definition LooksClusterInternal :: "string \<Rightarrow> bool" where
  "LooksClusterInternal host = (case asCIDR host of
     None \<Rightarrow> False
   | Some cidr \<Rightarrow> (case parse_prefix cidr of
        None \<Rightarrow> False
      | Some p \<Rightarrow> list_ex (\<lambda>r. overlaps r (masked p)) clusterInternalRanges))"

definition IsUnrestrictedEgress :: "egress_rule_spec \<Rightarrow> bool" where
  "IsUnrestrictedEgress rule =
     (if er_host rule = ''*'' then True
      else list_ex (\<lambda>s. case parse_prefix (trim_space s) of Some p \<Rightarrow> snd p = 0 | None \<Rightarrow> False)
             [er_cidr rule, er_host rule])"

section \<open>DNS configuration\<close>

record dns_selector =
  ds_namespace :: string
  ds_labels :: labels

text \<open>\<open>ExtraDNSEgressPeers\<close> and \<open>ExtraDNSSelectors\<close>.\<close>
record dns_config =
  dc_peers :: "np_peer list"
  dc_selectors :: "dns_selector list"

definition block_peer :: "string \<Rightarrow> np_peer" where
  "block_peer c = \<lparr>pe_block = Some c, pe_ns_sel = None, pe_pod_sel = None\<rparr>"

fun dns_cidr_peers :: "string list \<Rightarrow> gerr + np_peer list" where
  "dns_cidr_peers [] = Inr []"
| "dns_cidr_peers (c # cs) = (let t = trim_space c in
     if t = [] then dns_cidr_peers cs
     else (case net_parse_cidr t of
        None \<Rightarrow> Inl (Wrap (''invalid DNS egress CIDR '' @ quote t @ '': '') (Plain ''invalid CIDR address''))
      | Some _ \<Rightarrow> (case dns_cidr_peers cs of Inl e \<Rightarrow> Inl e | Inr ps \<Rightarrow> Inr (block_peer t # ps))))"

definition SetExtraDNSCIDRs :: "dns_config \<Rightarrow> string list \<Rightarrow> gerr option \<times> dns_config" where
  "SetExtraDNSCIDRs d cs = (case dns_cidr_peers cs of
     Inl e \<Rightarrow> (Some e, d) | Inr ps \<Rightarrow> (None, d\<lparr>dc_peers := ps\<rparr>))"

definition dns_spec_error :: "string \<Rightarrow> string \<Rightarrow> gerr" where
  "dns_spec_error spec why = Plain (''invalid DNS egress selector '' @ quote spec @ '': '' @ why)"

definition dns_selector_of :: "klib \<Rightarrow> string \<Rightarrow> gerr + dns_selector" where
  "dns_selector_of L spec = (case cut_on CHR ''/'' spec of
     None \<Rightarrow> Inl (dns_spec_error spec ''want <namespace>/<key>=<value>[,...]'')
   | Some (ns, s) \<Rightarrow>
      (if ns = [] \<or> s = [] then Inl (dns_spec_error spec ''want <namespace>/<key>=<value>[,...]'')
       else if dns1123_errors L ns \<noteq> [] then
         Inl (dns_spec_error spec (''namespace: '' @ join ''; '' (dns1123_errors L ns)))
       else (case convert_selector L s of
           Inl e \<Rightarrow> Inl (Wrap (''invalid DNS egress selector '' @ quote spec @ '': '') e)
         | Inr ls \<Rightarrow>
            (if ls = [] then Inl (dns_spec_error spec ''at least one pod label is required'')
             else Inr \<lparr>ds_namespace = ns, ds_labels = ls\<rparr>))))"

fun dns_selectors_of :: "klib \<Rightarrow> string list \<Rightarrow> gerr + dns_selector list" where
  "dns_selectors_of L [] = Inr []"
| "dns_selectors_of L (x # xs) = (let spec = trim_space x in
     if spec = [] then dns_selectors_of L xs
     else (case dns_selector_of L spec of
        Inl e \<Rightarrow> Inl e
      | Inr s \<Rightarrow> (case dns_selectors_of L xs of Inl e \<Rightarrow> Inl e | Inr ss \<Rightarrow> Inr (s # ss))))"

definition SetExtraDNSSelectors :: "klib \<Rightarrow> dns_config \<Rightarrow> string list \<Rightarrow> gerr option \<times> dns_config" where
  "SetExtraDNSSelectors L d specs = (case dns_selectors_of L specs of
     Inl e \<Rightarrow> (Some e, d) | Inr ss \<Rightarrow> (None, d\<lparr>dc_selectors := ss\<rparr>))"

section \<open>Egress rules\<close>

definition pod_peer :: "string \<Rightarrow> label_selector \<Rightarrow> np_peer" where
  "pod_peer ns sel = \<lparr>pe_block = None,
     pe_ns_sel = Some (match_labels [(''kubernetes.io/metadata.name'', ns)]), pe_pod_sel = Some sel\<rparr>"

definition kubeDNSPeer :: np_peer where
  "kubeDNSPeer = pod_peer ''kube-system'' (match_labels [(''k8s-app'', ''kube-dns'')])"

definition dnsEgressRule :: "dns_config \<Rightarrow> np_rule" where
  "dnsEgressRule d = \<lparr>
     ru_peers = [kubeDNSPeer]
       @ map (\<lambda>s. pod_peer (ds_namespace s) (match_labels (ds_labels s))) (dc_selectors d)
       @ dc_peers d,
     ru_ports = [\<lparr>po_port = Some 53, po_proto = Some UDP\<rparr>, \<lparr>po_port = Some 53, po_proto = Some TCP\<rparr>]\<rparr>"

definition loopbackEgressRule :: np_rule where
  "loopbackEgressRule = \<lparr>ru_peers = [block_peer ''127.0.0.0/8''], ru_ports = []\<rparr>"

definition mapProtocol :: "string \<Rightarrow> proto option" where
  "mapProtocol p = (if to_lower p \<in> {''https'', ''http'', ''grpc'', ''tcp''} then Some TCP else None)"

definition translateEgressRule :: "egress_rule_spec \<Rightarrow> np_rule option" where
  "translateEgressRule rule =
     (if er_cidr rule = [] then None
      else Some \<lparr>ru_peers = [block_peer (er_cidr rule)],
        ru_ports = (if er_port rule > 0
          then [\<lparr>po_port = Some (er_port rule), po_proto = mapProtocol (er_protocol rule)\<rparr>] else [])\<rparr>)"

definition buildEgressRules :: "dns_config \<Rightarrow> network_caps \<Rightarrow> np_rule list" where
  "buildEgressRules d caps =
     (if nc_dns caps = None \<or> nc_dns caps = Some True then [dnsEgressRule d] else [])
     @ (if nc_loopback caps = Some True then [loopbackEgressRule] else [])
     @ List.map_filter translateEgressRule (nc_egress caps)"

definition hostWarnings :: "network_caps \<Rightarrow> string" where
  "hostWarnings caps = join '',''
     (map er_host (filter (\<lambda>r. er_cidr r = [] \<and> er_host r \<noteq> []) (nc_egress caps)))"

definition np_buildLabels :: "mcp_server \<Rightarrow> labels" where
  "np_buildLabels s = [(LabelManagedBy, DefaultManagerName), (LabelProvider, s_name s),
     (LabelComponent, componentNetworkPolicy)]"

definition egress_spec :: "label_selector \<Rightarrow> np_rule list \<Rightarrow> np_spec" where
  "egress_spec sel rules = \<lparr>nps_pods = sel, nps_types = [TypeEgress], nps_egress = rules, nps_ingress = []\<rparr>"

definition BuildNetworkPolicy :: "dns_config \<Rightarrow> mcp_server \<Rightarrow> network_policy option" where
  "BuildNetworkPolicy d s = (case sp_caps (s_spec s) of
     None \<Rightarrow> None
   | Some c \<Rightarrow> (case cap_network c of
        None \<Rightarrow> None
      | Some caps \<Rightarrow> Some \<lparr>
          np_meta = mk_meta (NetworkPolicyName (s_name s)) (s_ns s) (np_buildLabels s)
            (if hostWarnings caps \<noteq> [] then [(AnnotationHostWarnings, hostWarnings caps)] else []),
          np_spec = egress_spec (match_labels [(LabelProvider, s_name s)]) (buildEgressRules d caps)\<rparr>))"

definition BuildNamespaceDefaultDenyEgress :: "dns_config \<Rightarrow> string \<Rightarrow> network_policy" where
  "BuildNamespaceDefaultDenyEgress d ns = \<lparr>
     np_meta = mk_meta DefaultDenyEgressName ns
       [(LabelManagedBy, DefaultManagerName), (LabelComponent, componentNetworkPolicy)] [],
     np_spec = egress_spec (match_labels []) [dnsEgressRule d]\<rparr>"

section \<open>The backstop of an MCPEgressPolicy\<close>

definition FQDNUpstreams :: "egress_policy \<Rightarrow> string list" where
  "FQDNUpstreams p = map (um_host \<circ> u_match)
     (filter (\<lambda>u. asCIDR (um_host (u_match u)) = None) (ps_upstreams (p_spec p)))"

definition backstop_labels :: "egress_policy \<Rightarrow> labels" where
  "backstop_labels p = [(LabelManagedBy, DefaultManagerName), (LabelComponent, componentNetworkPolicy),
     (LabelEgressPolicy, p_name p)]"

text \<open>The loop over the upstreams: the rules and the hosts that have none.\<close>
fun upstream_rules :: "upstream_rule list \<Rightarrow> np_rule list \<times> string list" where
  "upstream_rules [] = ([], [])"
| "upstream_rules (u # us) = (let (rs, hs) = upstream_rules us in
     case asCIDR (um_host (u_match u)) of
       Some c \<Rightarrow> (\<lparr>ru_peers = [block_peer c], ru_ports = []\<rparr> # rs, hs)
     | None \<Rightarrow> (rs, um_host (u_match u) # hs))"

definition BuildEgressPolicyBackstop ::
  "dns_config \<Rightarrow> egress_policy \<Rightarrow> label_selector \<Rightarrow> network_policy \<times> string list" where
  "BuildEgressPolicyBackstop d p target =
     (let (rules, hosts) = upstream_rules (ps_upstreams (p_spec p)) in
      (\<lparr>np_meta = mk_meta (EgressPolicyBackstopName (p_name p)) (p_ns p) (backstop_labels p) [],
        np_spec = egress_spec target (dnsEgressRule d # rules)\<rparr>, hosts))"

text \<open>The Cilium backstop is an unstructured object; a Go map is a \<open>JObj\<close>.\<close>

definition jlabels :: "labels \<Rightarrow> json" where
  "jlabels ls = JObj (map (\<lambda>(k, v). (k, JStr v)) ls)"

definition labelSelectorToUnstructured :: "label_selector \<Rightarrow> json" where
  "labelSelectorToUnstructured sel = JObj (
     (if ls_labels sel \<noteq> [] then [(''matchLabels'', jlabels (ls_labels sel))] else [])
     @ (if ls_exprs sel \<noteq> [] then [(''matchExpressions'', JArr (map (\<lambda>e. JObj
          [(''key'', JStr (lr_key e)), (''operator'', JStr (lr_op e)),
           (''values'', JArr (map JStr (lr_values e)))]) (ls_exprs sel)))] else []))"

definition dns_port :: "string \<Rightarrow> json" where
  "dns_port p = JObj [(''port'', JStr ''53''), (''protocol'', JStr p)]"

definition dnsToWorldDeny :: json where
  "dnsToWorldDeny = JArr [JObj [(''toEntities'', JArr [JStr ''world'']),
     (''toPorts'', JArr [JObj [(''ports'', JArr [dns_port ''UDP'', dns_port ''TCP''])]])]]"

definition dns_endpoints :: "dns_config \<Rightarrow> json list" where
  "dns_endpoints d = JObj [(''matchLabels'', jlabels
       [(''k8s:io.kubernetes.pod.namespace'', ''kube-system''), (''k8s-app'', ''kube-dns'')])]
     # map (\<lambda>s. JObj [(''matchLabels'', jlabels
         (fold (\<lambda>(k, v) m. amap_put k v m) (ds_labels s)
            [(''k8s:io.kubernetes.pod.namespace'', ds_namespace s)]))]) (dc_selectors d)"

definition cilium_fqdns :: "egress_policy \<Rightarrow> string list" where
  "cilium_fqdns p = map (um_host \<circ> u_match)
     (filter (\<lambda>u. asCIDR (um_host (u_match u)) = None) (ps_upstreams (p_spec p)))"

definition cilium_cidrs :: "egress_policy \<Rightarrow> string list" where
  "cilium_cidrs p = List.map_filter (asCIDR \<circ> um_host \<circ> u_match) (ps_upstreams (p_spec p))"

definition cilium_egress :: "dns_config \<Rightarrow> egress_policy \<Rightarrow> json list" where
  "cilium_egress d p =
     [JObj [(''toEndpoints'', JArr (dns_endpoints d)),
        (''toPorts'', JArr [JObj [(''ports'', JArr [dns_port ''ANY'']),
           (''rules'', JObj [(''dns'', JArr [JObj [(''matchPattern'', JStr ''*'')]])])]])]]
     @ (if cilium_fqdns p \<noteq> [] then [JObj [(''toFQDNs'', JArr (map (\<lambda>h. JObj [(''matchName'', JStr h)])
          (cilium_fqdns p)))]] else [])
     @ (if cilium_cidrs p \<noteq> [] then [JObj [(''toCIDR'', JArr (map JStr (cilium_cidrs p)))]] else [])"

definition CiliumNetworkPolicyKind :: string where
  "CiliumNetworkPolicyKind = ''CiliumNetworkPolicy''"

definition BuildEgressPolicyCiliumNetworkPolicy ::
  "dns_config \<Rightarrow> egress_policy \<Rightarrow> label_selector \<Rightarrow> unstructured" where
  "BuildEgressPolicyCiliumNetworkPolicy d p target = \<lparr>
     un_kind = CiliumNetworkPolicyKind,
     un_meta = mk_meta (EgressPolicyBackstopName (p_name p)) (p_ns p) (backstop_labels p) [],
     un_spec = JObj [(''endpointSelector'', labelSelectorToUnstructured target),
       (''egress'', JArr (cilium_egress d p)), (''egressDeny'', dnsToWorldDeny)]\<rparr>"

section \<open>Provider ingress\<close>

definition AnnotationProviderIngress :: string where
  "AnnotationProviderIngress = ''mcp-hangar.io/provider-ingress''"

record ingress_config =
  ic_enabled :: bool
  ic_namespace :: string
  ic_selector :: "label_selector option"

definition selector_empty :: "label_selector \<Rightarrow> bool" where
  "selector_empty s = (length (ls_labels s) + length (ls_exprs s) = 0)"

definition ParseProviderIngressConfig :: "klib \<Rightarrow> bool \<Rightarrow> string \<Rightarrow> string \<Rightarrow> gerr + ingress_config" where
  "ParseProviderIngressConfig L enabled ns selector =
     (let c = \<lparr>ic_enabled = enabled, ic_namespace = ns, ic_selector = None\<rparr> in
      if \<not> enabled \<and> ns = [] then Inr c
      else if dns1123_errors L ns \<noteq> [] then
        Inl (Plain (''provider ingress gateway namespace: ['' @ join '' '' (dns1123_errors L ns) @ '']''))
      else if selector = [] then
        Inl (Plain ''provider ingress requires a non-empty gateway pod selector'')
      else (case parse_label_selector L selector of
          Inl e \<Rightarrow> Inl (Wrap ''provider ingress gateway selector: '' e)
        | Inr sel \<Rightarrow>
           (if selector_empty sel then
              Inl (Plain ''provider ingress requires a non-empty gateway pod selector'')
            else Inr (c\<lparr>ic_selector := Some sel\<rparr>))))"

definition ProviderIngressPolicyName :: "string \<Rightarrow> string" where
  "ProviderIngressPolicyName n = n @ ''-ingress''"

definition DefaultDiscoveryPort :: int where "DefaultDiscoveryPort = 8080"

definition BuildProviderIngress :: "mcp_server \<Rightarrow> ingress_config \<Rightarrow> gerr + network_policy" where
  "BuildProviderIngress s c = (case ic_selector c of
     None \<Rightarrow> Inl (Plain ''provider ingress requires an explicit gateway namespace and non-empty pod selector'')
   | Some sel \<Rightarrow>
      (if ic_namespace c = [] \<or> selector_empty sel then
         Inl (Plain ''provider ingress requires an explicit gateway namespace and non-empty pod selector'')
       else Inr \<lparr>
         np_meta = mk_meta (ProviderIngressPolicyName (s_name s)) (s_ns s)
           [(LabelManagedBy, DefaultManagerName), (LabelProvider, s_name s)] [],
         np_spec = \<lparr>nps_pods = match_labels [(LabelProvider, s_name s)], nps_types = [TypeIngress],
           nps_egress = [],
           nps_ingress = [\<lparr>ru_peers = [pod_peer (ic_namespace c) sel],
             ru_ports = [\<lparr>po_port = Some DefaultDiscoveryPort, po_proto = Some TCP\<rparr>]\<rparr>]\<rparr>\<rparr>))"

section \<open>What a policy permits\<close>

text \<open>
  A destination of a packet: its address, port and protocol, and, when a pod of
  the cluster has the address, the labels of its namespace and its own.
\<close>
record destination =
  de_addr :: ip_addr
  de_port :: int
  de_proto :: proto
  de_pod :: "(labels \<times> labels) option"

text \<open>
  The documented meaning of NetworkPolicy egress.  How a CNI reads a CIDR text
  (\<open>has\<close>) and a label selector (\<open>sel\<close>) is left open.  A rule without peers admits
  every peer, one without ports every port, and a port without a protocol means
  TCP.
\<close>
definition peer_admits ::
  "(string \<Rightarrow> ip_addr \<Rightarrow> bool) \<Rightarrow> (label_selector \<Rightarrow> labels \<Rightarrow> bool) \<Rightarrow> destination \<Rightarrow> np_peer \<Rightarrow> bool" where
  "peer_admits has sel d p = (case pe_block p of
     Some c \<Rightarrow> has c (de_addr d)
   | None \<Rightarrow> (case de_pod d of
        None \<Rightarrow> False
      | Some (nsl, pl) \<Rightarrow>
          (case pe_ns_sel p of None \<Rightarrow> True | Some s \<Rightarrow> sel s nsl)
          \<and> (case pe_pod_sel p of None \<Rightarrow> True | Some s \<Rightarrow> sel s pl)))"

definition port_admits :: "destination \<Rightarrow> np_port \<Rightarrow> bool" where
  "port_admits d q = ((case po_port q of None \<Rightarrow> True | Some n \<Rightarrow> de_port d = n)
     \<and> (case po_proto q of None \<Rightarrow> TCP | Some t \<Rightarrow> t) = de_proto d)"

definition rule_admits ::
  "(string \<Rightarrow> ip_addr \<Rightarrow> bool) \<Rightarrow> (label_selector \<Rightarrow> labels \<Rightarrow> bool) \<Rightarrow> destination \<Rightarrow> np_rule \<Rightarrow> bool" where
  "rule_admits has sel d r =
     ((ru_peers r = [] \<or> list_ex (peer_admits has sel d) (ru_peers r))
      \<and> (ru_ports r = [] \<or> list_ex (port_admits d) (ru_ports r)))"

definition egress_permits ::
  "(string \<Rightarrow> ip_addr \<Rightarrow> bool) \<Rightarrow> (label_selector \<Rightarrow> labels \<Rightarrow> bool) \<Rightarrow> network_policy \<Rightarrow> destination \<Rightarrow> bool" where
  "egress_permits has sel np d = list_ex (rule_admits has sel d) (nps_egress (np_spec np))"

text \<open>What the spec declares: DNS, loopback and the CIDR rules, nothing else.  DNS is port 53
  of the resolver pods, which are those of kube-dns and those the selector flag names, and
  of the addresses the CIDR flag names.  A rule is for a port, or for all when it gives
  none; a protocol hint that runs on TCP narrows it to TCP, any other leaves the protocol
  open.\<close>
definition resolver_pods :: "dns_config \<Rightarrow> (string \<times> labels) list" where
  "resolver_pods cfg = (''kube-system'', [(''k8s-app'', ''kube-dns'')])
     # map (\<lambda>s. (ds_namespace s, ds_labels s)) (dc_selectors cfg)"

definition dns_dest ::
  "(string \<Rightarrow> ip_addr \<Rightarrow> bool) \<Rightarrow> (label_selector \<Rightarrow> labels \<Rightarrow> bool) \<Rightarrow> dns_config \<Rightarrow> destination \<Rightarrow> bool" where
  "dns_dest has sel cfg d = (de_port d = 53 \<and>
     ((case de_pod d of None \<Rightarrow> False
       | Some (nsl, pl) \<Rightarrow> list_ex (\<lambda>(ns, ls). sel (match_labels [(''kubernetes.io/metadata.name'', ns)]) nsl
           \<and> sel (match_labels ls) pl) (resolver_pods cfg))
      \<or> list_ex (peer_admits has sel d) (dc_peers cfg)))"

definition runs_on_tcp :: "string \<Rightarrow> bool" where
  "runs_on_tcp p = (to_lower p \<in> {''tcp'', ''http'', ''https'', ''grpc''})"

definition declared_dest :: "(string \<Rightarrow> ip_addr \<Rightarrow> bool) \<Rightarrow> egress_rule_spec \<Rightarrow> destination \<Rightarrow> bool" where
  "declared_dest has r d = (er_cidr r \<noteq> [] \<and> has (er_cidr r) (de_addr d)
     \<and> (er_port r \<le> 0
        \<or> (de_port d = er_port r \<and> (runs_on_tcp (er_protocol r) \<longrightarrow> de_proto d = TCP))))"

definition caps_permit ::
  "(string \<Rightarrow> ip_addr \<Rightarrow> bool) \<Rightarrow> (label_selector \<Rightarrow> labels \<Rightarrow> bool) \<Rightarrow> dns_config \<Rightarrow> network_caps \<Rightarrow> destination \<Rightarrow> bool" where
  "caps_permit has sel cfg caps d =
     ((nc_dns caps \<noteq> Some False \<and> dns_dest has sel cfg d)
      \<or> (nc_loopback caps = Some True \<and> has ''127.0.0.0/8'' (de_addr d))
      \<or> list_ex (\<lambda>r. declared_dest has r d) (nc_egress caps))"

text \<open>The capabilities without the rules that give a port.\<close>
definition portless :: "network_caps \<Rightarrow> network_caps" where
  "portless caps = caps\<lparr>nc_egress := filter (\<lambda>r. er_port r \<le> 0) (nc_egress caps)\<rparr>"

subsection \<open>Well-formed policies\<close>

text \<open>What the API server asks of a NetworkPolicy: a peer is a CIDR or selectors, not both
  and not neither, a CIDR parses, a port is a port number, and the rules are of the
  direction the policy types name.  A rule without a peer would be accepted but opens
  every destination, so it does not count as well formed here.\<close>
definition peer_ok :: "np_peer \<Rightarrow> bool" where
  "peer_ok p = (case pe_block p of
     Some c \<Rightarrow> net_parse_cidr c \<noteq> None \<and> pe_ns_sel p = None \<and> pe_pod_sel p = None
   | None \<Rightarrow> pe_ns_sel p \<noteq> None \<or> pe_pod_sel p \<noteq> None)"

definition rule_ok :: "np_rule \<Rightarrow> bool" where
  "rule_ok r = (ru_peers r \<noteq> [] \<and> list_all peer_ok (ru_peers r)
     \<and> list_all (\<lambda>q. case po_port q of None \<Rightarrow> False | Some n \<Rightarrow> 1 \<le> n \<and> n \<le> 65535) (ru_ports r))"

definition policy_ok :: "network_policy \<Rightarrow> bool" where
  "policy_ok np = (let s = np_spec np in
     nps_types s \<noteq> [] \<and> distinct (nps_types s)
     \<and> (nps_egress s \<noteq> [] \<longrightarrow> TypeEgress \<in> set (nps_types s))
     \<and> (nps_ingress s \<noteq> [] \<longrightarrow> TypeIngress \<in> set (nps_types s))
     \<and> list_all rule_ok (nps_egress s @ nps_ingress s))"

definition dns_ok :: "dns_config \<Rightarrow> bool" where
  "dns_ok d = (list_all peer_ok (dc_peers d) \<and> list_all (\<lambda>s. ds_namespace s \<noteq> [] \<and> ds_labels s \<noteq> []) (dc_selectors d))"

text \<open>What the schema of the custom resource asks of an egress rule: a port number, or 0, and
  a CIDR of one of the two forms of its pattern, the IPv4 form octet by octet, the IPv6 form
  for the characters of its address and its prefix length.\<close>
definition decimal_upto :: "nat \<Rightarrow> string \<Rightarrow> bool" where
  "decimal_upto n s = (s \<in> set (map nat_dec [0..<Suc n]))"

definition v4_form :: "string \<Rightarrow> bool" where
  "v4_form s = (case cut_on CHR ''/'' s of None \<Rightarrow> False
   | Some (a, m) \<Rightarrow> (let ps = split_on CHR ''.'' a in
       length ps = 4 \<and> list_all (decimal_upto 255) ps \<and> decimal_upto 32 m))"

definition v6_form :: "string \<Rightarrow> bool" where
  "v6_form s = (case cut_on CHR ''/'' s of None \<Rightarrow> False
   | Some (a, m) \<Rightarrow> list_all (\<lambda>c. hex_val c \<noteq> None \<or> c = CHR '':'' \<or> c = CHR ''.'') a \<and> CHR '':'' \<in> set a
       \<and> decimal_upto 128 m)"

definition rule_admitted :: "egress_rule_spec \<Rightarrow> bool" where
  "rule_admitted r = (0 \<le> er_port r \<and> er_port r \<le> 65535
     \<and> (er_cidr r = [] \<or> length (er_cidr r) \<le> 43 \<and> (v4_form (er_cidr r) \<or> v6_form (er_cidr r))))"

definition egress_of :: "mcp_server \<Rightarrow> egress_rule_spec list" where
  "egress_of s = (case Option.bind (sp_caps (s_spec s)) cap_network of None \<Rightarrow> [] | Some c \<Rightarrow> nc_egress c)"

definition caps_ok :: "mcp_server \<Rightarrow> bool" where
  "caps_ok s = list_all rule_admitted (egress_of s)"

text \<open>The texts of the IPv6 form that name an address.\<close>
definition v6_addresses_exist :: "mcp_server \<Rightarrow> bool" where
  "v6_addresses_exist s = list_all (\<lambda>r. v6_form (er_cidr r) \<longrightarrow> net_parse_cidr (er_cidr r) \<noteq> None) (egress_of s)"

subsection \<open>What a text names\<close>

text \<open>The addresses of a CIDR text, and of the host of an upstream: those of the CIDR, or the
  one address it is.\<close>
definition in_cidr :: "string \<Rightarrow> ip_addr \<Rightarrow> bool" where
  "in_cidr c a = (case net_parse_cidr c of None \<Rightarrow> False | Some p \<Rightarrow> in_prefix a p)"

definition is_hostname :: "string \<Rightarrow> bool" where
  "is_hostname h = (net_parse_cidr h = None \<and> net_parse_ip h = None)"

definition host_names :: "string \<Rightarrow> ip_addr \<Rightarrow> bool" where
  "host_names h a = (in_cidr h a \<or> net_parse_cidr h = None \<and> net_parse_ip h = Some a)"

text \<open>An IPv6 literal that maps an IPv4 address, \<open>::ffff:a.b.c.d\<close>.\<close>
definition mapped_literal :: "string \<Rightarrow> bool" where
  "mapped_literal h = (net_parse_cidr h = None
     \<and> (case net_parse_ip h of Some (IP6 w) \<Rightarrow> drop_bit 32 w = 0xffff | _ \<Rightarrow> False))"

subsection \<open>Facts\<close>

lemma block_peer_admits [simp]: "peer_admits has sel d (block_peer c) = has c (de_addr d)"
  by (simp add: peer_admits_def block_peer_def)

lemma dns_rule_peers [simp]: "ru_peers (dnsEgressRule cfg) \<noteq> []"
  by (simp add: dnsEgressRule_def)

lemma pod_peer_admits: "peer_admits has sel d (pod_peer ns s) = (case de_pod d of None \<Rightarrow> False
   | Some (nsl, pl) \<Rightarrow> sel (match_labels [(''kubernetes.io/metadata.name'', ns)]) nsl \<and> sel s pl)"
  by (simp add: peer_admits_def pod_peer_def split: option.split)

lemma list_ex_map: "list_ex P (map f xs) = list_ex (\<lambda>x. P (f x)) xs"
  by (induction xs) simp_all

lemma list_ex_False: "\<not> list_ex (\<lambda>x. False) xs"
  by (induction xs) simp_all

lemma dns_peers_admit: "list_ex (peer_admits has sel d) (ru_peers (dnsEgressRule cfg))
  = ((case de_pod d of None \<Rightarrow> False
       | Some (nsl, pl) \<Rightarrow> list_ex (\<lambda>(ns, ls). sel (match_labels [(''kubernetes.io/metadata.name'', ns)]) nsl
           \<and> sel (match_labels ls) pl) (resolver_pods cfg))
      \<or> list_ex (peer_admits has sel d) (dc_peers cfg))"
  by (cases "de_pod d") (auto simp: dnsEgressRule_def kubeDNSPeer_def pod_peer_admits resolver_pods_def list_ex_map
      list_ex_append list_ex_False)

lemma dns_rule_admits: "rule_admits has sel d (dnsEgressRule cfg) = dns_dest has sel cfg d"
proof -
  have "list_ex (port_admits d) (ru_ports (dnsEgressRule cfg)) = (de_port d = 53)"
    by (cases "de_proto d") (auto simp: dnsEgressRule_def port_admits_def)
  moreover have "ru_ports (dnsEgressRule cfg) \<noteq> []" by (simp add: dnsEgressRule_def)
  ultimately show ?thesis by (auto simp: rule_admits_def dns_dest_def dns_peers_admit)
qed

lemma loopback_admits: "rule_admits has sel d loopbackEgressRule = has ''127.0.0.0/8'' (de_addr d)"
  by (simp add: rule_admits_def loopbackEgressRule_def)

lemma translate_admits:
  "(case translateEgressRule r of None \<Rightarrow> False | Some x \<Rightarrow> rule_admits has sel d x)
     = (declared_dest has r d \<and> (de_proto d = TCP \<or> er_port r \<le> 0))"
  by (auto simp: translateEgressRule_def rule_admits_def declared_dest_def port_admits_def mapProtocol_def
      runs_on_tcp_def)

lemma list_ex_map_filter:
  "list_ex P (List.map_filter f xs) = list_ex (\<lambda>x. case f x of None \<Rightarrow> False | Some y \<Rightarrow> P y) xs"
  by (induction xs) (auto simp: List.map_filter_simps split: option.splits)

lemma cidr_rules_admit:
  "list_ex (rule_admits has sel d) (List.map_filter translateEgressRule rs)
     = list_ex (\<lambda>r. declared_dest has r d \<and> (de_proto d = TCP \<or> er_port r \<le> 0)) rs"
  by (simp add: list_ex_map_filter translate_admits)

lemma build_rules_admit:
  "list_ex (rule_admits has sel d) (buildEgressRules cfg caps)
     \<longleftrightarrow> caps_permit has sel cfg caps d \<and> (de_proto d = TCP \<or> caps_permit has sel cfg (portless caps) d)"
proof -
  have "(nc_dns caps = None \<or> nc_dns caps = Some True) = (nc_dns caps \<noteq> Some False)"
    by (cases "nc_dns caps") auto
  moreover have "list_ex (\<lambda>r. declared_dest has r d) (nc_egress (portless caps))
      = list_ex (\<lambda>r. declared_dest has r d \<and> er_port r \<le> 0) (nc_egress caps)"
    by (auto simp: portless_def list_ex_iff)
  moreover have "list_ex (\<lambda>r. declared_dest has r d \<and> er_port r \<le> 0) (nc_egress caps)
      \<Longrightarrow> list_ex (\<lambda>r. declared_dest has r d) (nc_egress caps)"
    by (auto simp: list_ex_iff)
  ultimately show ?thesis
    by (cases "de_proto d") (auto simp: buildEgressRules_def caps_permit_def dns_rule_admits loopback_admits
        cidr_rules_admit list_ex_append portless_def)
qed

lemma upstream_rules_hosts: "snd (upstream_rules us)
    = map (um_host \<circ> u_match) (filter (\<lambda>u. asCIDR (um_host (u_match u)) = None) us)"
  by (induction us) (auto simp: case_prod_unfold Let_def split: option.splits)

lemma upstream_rules_admit: "list_ex (rule_admits has sel d) (fst (upstream_rules us))
    = list_ex (\<lambda>u. case asCIDR (um_host (u_match u)) of None \<Rightarrow> False | Some c \<Rightarrow> has c (de_addr d)) us"
  by (induction us) (auto simp: case_prod_unfold Let_def rule_admits_def split: option.splits)

lemma dns_selectors_nonempty:
  "dns_selectors_of L specs = Inr ss \<Longrightarrow> s \<in> set ss \<Longrightarrow> ds_namespace s \<noteq> [] \<and> ds_labels s \<noteq> []"
proof (induction specs arbitrary: ss)
  case (Cons x xs)
  have one: "dns_selector_of L y = Inr t \<Longrightarrow> ds_namespace t \<noteq> [] \<and> ds_labels t \<noteq> []" for y t
    by (auto simp: dns_selector_of_def split: option.split_asm prod.split_asm if_split_asm sum.split_asm)
  show ?case using Cons
    by (auto simp: Let_def dest: one split: if_split_asm sum.split_asm)
qed simp

lemma no_bits_iff:
  "(case parse_prefix s of None \<Rightarrow> False | Some p \<Rightarrow> snd p = 0)
    = (\<exists>p. parse_prefix s = Some p \<and> (\<forall>x. is4 x = is4 (fst p) \<longrightarrow> in_prefix x p))"
proof (cases "parse_prefix s")
  case (Some p)
  then show ?thesis using full_prefix_iff [OF parse_prefix_valid [OF Some]] by simp
qed simp

subsubsection \<open>The CIDR of a host\<close>

lemma one_address:
  "in_prefix a (IP4 w, 32) \<longleftrightarrow> a = IP4 w" "in_prefix a (IP6 v, 128) \<longleftrightarrow> a = IP6 v"
  by (cases a; simp add: in_prefix_def is4_def mask_addr_def)+

text \<open>The first 32 bits of a mapped address are zero.\<close>
lemma mapped_prefix:
  fixes w :: "128 word"
  assumes "drop_bit 32 w = 0xffff"
  shows "in_prefix a (IP6 w, 32) \<longleftrightarrow> in_prefix a (IP6 0, 32)" "in_prefix (IP6 w) (IP6 0, 32)"
proof -
  have "drop_bit 96 w = drop_bit 64 (drop_bit 32 w)" by simp
  also have "\<dots> = 0" unfolding assms by simp
  finally have z: "drop_bit 96 w = 0" .
  then show "in_prefix a (IP6 w, 32) \<longleftrightarrow> in_prefix a (IP6 0, 32)" "in_prefix (IP6 w) (IP6 0, 32)"
    by (simp_all add: in_prefix_def is4_def mask_addr_def)
qed

lemma asCIDR_hostname: "asCIDR h = None \<longleftrightarrow> is_hostname h"
  by (auto simp: asCIDR_def is_hostname_def split: option.splits)

lemma whole_bits: "dtoi ''32'' = Some 32" "dtoi ''128'' = Some 128"
  by (simp_all add: dtoi_def is_digit_def digit_val_def)

lemma asCIDR_names: "(case asCIDR h of None \<Rightarrow> False | Some c \<Rightarrow> in_cidr c a)
  = (host_names h a \<or> mapped_literal h \<and> in_prefix a (IP6 0, 32))"
proof (cases "net_parse_cidr h")
  case None
  show ?thesis
  proof (cases "net_parse_ip h")
    case (Some ip)
    note reads = host_cidr_reads [OF Some whole_bits(1)] host_cidr_reads [OF Some whole_bits(2)]
    show ?thesis
    proof (cases ip)
      case (IP4 w)
      then show ?thesis using None Some reads(1)
        by (auto simp: asCIDR_def has_to4_def host_names_def mapped_literal_def in_cidr_def bit_len_def one_address)
    next
      case (IP6 w)
      then show ?thesis using None Some reads
        by (auto simp: asCIDR_def has_to4_def host_names_def mapped_literal_def in_cidr_def bit_len_def one_address
            mapped_prefix)
    qed
  qed (use None in \<open>auto simp: asCIDR_def host_names_def mapped_literal_def in_cidr_def\<close>)
qed (auto simp: asCIDR_def host_names_def mapped_literal_def in_cidr_def)

lemma asCIDR_valid: "asCIDR h = Some c \<Longrightarrow> net_parse_cidr c \<noteq> None"
  using host_cidr_reads [OF _ whole_bits(1), of h] host_cidr_reads [OF _ whole_bits(2), of h]
  by (cases "net_parse_cidr h"; cases "net_parse_ip h"; cases "the (net_parse_ip h)")
    (auto simp: asCIDR_def bit_len_def has_to4_def split: if_split_asm)

subsubsection \<open>The IPv4 form of the schema parses\<close>

text \<open>An octet: the value of the digits and how many they are, as \<open>v4_loop\<close> reads them.\<close>
fun octet_digits :: "string \<Rightarrow> nat \<Rightarrow> nat \<Rightarrow> (nat \<times> nat) option" where
  "octet_digits [] v k = Some (v, k)"
| "octet_digits (c # s) v k =
     (if is_digit c \<and> \<not> (k = 1 \<and> v = 0) \<and> v * 10 + digit_val c \<le> 255
      then octet_digits s (v * 10 + digit_val c) (Suc k) else None)"

lemma v4_loop_octet:
  "octet_digits w v k = Some (v', k') \<Longrightarrow> v4_loop (w @ r) v k acc = v4_loop r v' k' acc"
  by (induction w arbitrary: v k) (auto simp: is_digit_def split: if_splits)

lemma digit_char_facts [simp]: "n < 10 \<Longrightarrow> is_digit (digit_char n)" "n < 10 \<Longrightarrow> digit_val (digit_char n) = n"
  by (simp_all add: is_digit_def digit_val_def digit_char_def)

text \<open>The digits of a number below 1000.\<close>
lemma nat_dec_digits:
  "n < 10 \<Longrightarrow> nat_dec n = [digit_char n]"
  "10 \<le> n \<Longrightarrow> n < 100 \<Longrightarrow> nat_dec n = [digit_char (n div 10), digit_char (n mod 10)]"
  "100 \<le> n \<Longrightarrow> n < 1000 \<Longrightarrow> nat_dec n = [digit_char (n div 100), digit_char (n div 10 mod 10), digit_char (n mod 10)]"
proof -
  show one: "n < 10 \<Longrightarrow> nat_dec n = [digit_char n]" for n by (simp add: nat_dec.simps)
  show two: "10 \<le> n \<Longrightarrow> n < 100 \<Longrightarrow> nat_dec n = [digit_char (n div 10), digit_char (n mod 10)]" for n
    by (subst nat_dec.simps) (simp add: one)
  show "100 \<le> n \<Longrightarrow> n < 1000 \<Longrightarrow> nat_dec n = [digit_char (n div 100), digit_char (n div 10 mod 10), digit_char (n mod 10)]"
    by (subst nat_dec.simps) (simp add: two div_mult2_eq [symmetric] del: One_nat_def)
qed

lemma octets_read:
  assumes "n < 256"
  shows "octet_digits (nat_dec n) 0 0 = Some (n, length (nat_dec n))" "nat_dec n \<noteq> []"
proof -
  consider "n < 10" | "10 \<le> n" "n < 100" | "100 \<le> n" by linarith
  then have "octet_digits (nat_dec n) 0 0 = Some (n, length (nat_dec n)) \<and> nat_dec n \<noteq> []"
  proof cases
    case 2
    then have "n div 10 * 10 + n mod 10 = n" "n div 10 < 10" "n div 10 \<noteq> 0" by presburger+
    then show ?thesis using 2 assms by (simp add: nat_dec_digits)
  next
    case 3
    have h: "n div 100 = n div 10 div 10" by (simp add: div_mult2_eq [symmetric])
    have "n div 100 * 10 + n div 10 mod 10 = n div 10" unfolding h by (rule div_mult_mod_eq)
    moreover have "n div 10 * 10 + n mod 10 = n" by (rule div_mult_mod_eq)
    moreover have "n div 100 < 10" "n div 100 \<noteq> 0" "n div 10 \<le> 25" "n div 10 mod 10 < 10" "n mod 10 < 10"
      using 3 assms by auto
    ultimately have "n div 100 * 10 + n div 10 mod 10 = n div 10" "n div 10 * 10 + n mod 10 = n" "n div 100 < 10"
      "n div 100 \<noteq> 0" "n div 10 \<le> 25" "n div 10 mod 10 < 10" "n mod 10 < 10" by auto
    then show ?thesis using 3 assms by (simp add: nat_dec_digits)
  qed (simp add: nat_dec_digits)
  then show "octet_digits (nat_dec n) 0 0 = Some (n, length (nat_dec n))" "nat_dec n \<noteq> []" by auto
qed

lemma decimal_uptoI: "n \<le> k \<Longrightarrow> decimal_upto k (nat_dec n)"
  unfolding decimal_upto_def set_map set_upt by (rule imageI) simp

lemma octet_read:
  assumes "decimal_upto 255 w"
  obtains v where "octet_digits w 0 0 = Some (v, length w)" "w \<noteq> []"
proof -
  obtain n where n: "n < 256" "w = nat_dec n" using assms by (auto simp: decimal_upto_def)
  then show thesis using octets_read [of n] that by simp
qed

lemma octet_digits_only: "octet_digits w v k = Some x \<Longrightarrow> list_all is_digit w"
  by (induction w arbitrary: v k) (auto split: if_splits)

lemma v4_kind: "list_all is_digit w \<Longrightarrow> addr_kind (w @ CHR ''.'' # r) = Some CHR ''.''"
  by (induction w) (auto simp: is_digit_def)

lemma prefix_bits_read: "n < 100 \<Longrightarrow> dtoi (nat_dec n) = Some n"
proof (cases "n < 10")
  case False
  moreover assume "n < 100"
  moreover from this have "n div 10 * 10 + n mod 10 = n" "n div 10 < 10" by presburger+
  ultimately show ?thesis by (simp add: nat_dec_digits dtoi_def)
qed (simp add: nat_dec_digits dtoi_def)

lemma four_parts: "length ps = 4 \<Longrightarrow> \<exists>w x y z. ps = [w, x, y, z]"
  by (auto simp: length_Suc_conv eval_nat_numeral)

lemma v4_form_parses: "v4_form s \<Longrightarrow> net_parse_cidr s \<noteq> None"
proof -
  assume "v4_form s"
  then obtain a m w x y z where c: "cut_on CHR ''/'' s = Some (a, m)" and ps: "split_on CHR ''.'' a = [w, x, y, z]"
    and oct: "list_all (decimal_upto 255) [w, x, y, z]" and m: "decimal_upto 32 m"
    by (auto simp: v4_form_def Let_def split: option.splits dest!: four_parts)
  have a: "a = w @ CHR ''.'' # x @ CHR ''.'' # y @ CHR ''.'' # z"
    using join_split_on [of "CHR ''.''" a] by (simp add: ps)
  obtain p q r t where v: "octet_digits w 0 0 = Some (p, length w)" "octet_digits x 0 0 = Some (q, length x)"
      "octet_digits y 0 0 = Some (r, length y)" "octet_digits z 0 0 = Some (t, length z)"
    and ne: "w \<noteq> []" "x \<noteq> []" "y \<noteq> []" "z \<noteq> []"
    using oct by (auto elim!: octet_read)
  note read = v [THEN v4_loop_octet]
  have "parse_v4 a = Some [p, q, r, t]"
    unfolding parse_v4_def a using read(4) [of "[]"] ne by (simp add: read is_digit_def)
  moreover have "addr_kind a = Some CHR ''.''" unfolding a by (rule v4_kind [OF octet_digits_only [OF v(1)]])
  moreover obtain n where "dtoi m = Some n" "n \<le> 32"
    using m prefix_bits_read by (auto simp: decimal_upto_def)
  ultimately show ?thesis using c by (simp add: net_parse_cidr_def parse_addr_def bit_len_def)
qed

subsubsection \<open>Well-formed rules\<close>

lemma block_ok [simp]: "peer_ok (block_peer c) = (net_parse_cidr c \<noteq> None)"
  by (simp add: peer_ok_def block_peer_def)

lemma pod_ok [simp]: "peer_ok (pod_peer ns sel)"
  by (simp add: peer_ok_def pod_peer_def)

lemma dns_rule_ok: "dns_ok d \<Longrightarrow> rule_ok (dnsEgressRule d)"
  by (simp add: rule_ok_def dnsEgressRule_def dns_ok_def kubeDNSPeer_def list_all_append list.pred_map comp_def list.pred_True)

lemma loopback_ok: "rule_ok loopbackEgressRule"
proof -
  have "net_parse_cidr ''127.0.0.0/8'' \<noteq> None" by (simp add: cidr_evals)
  then show ?thesis by (simp add: rule_ok_def loopbackEgressRule_def)
qed

lemma cidr_peers_ok: "dns_cidr_peers cs = Inr ps \<Longrightarrow> list_all peer_ok ps"
  by (induction cs arbitrary: ps) (auto simp: Let_def split: if_splits option.splits sum.splits)

lemma dns_flags_keep_ok:
  assumes "dns_ok d"
  shows "dns_ok (snd (SetExtraDNSCIDRs d cs))" "dns_ok (snd (SetExtraDNSSelectors L d specs))"
proof -
  show "dns_ok (snd (SetExtraDNSCIDRs d cs))"
    using assms by (auto simp: SetExtraDNSCIDRs_def dns_ok_def dest: cidr_peers_ok split: sum.splits)
  show "dns_ok (snd (SetExtraDNSSelectors L d specs))"
    using assms by (auto simp: SetExtraDNSSelectors_def dns_ok_def list_all_iff dest: dns_selectors_nonempty split: sum.splits)
qed

lemma translated_ok:
  assumes "rule_admitted r"
  shows "(case translateEgressRule r of None \<Rightarrow> True | Some x \<Rightarrow> rule_ok x)
    = (v6_form (er_cidr r) \<longrightarrow> net_parse_cidr (er_cidr r) \<noteq> None)"
proof (cases "er_cidr r = []")
  case True
  then show ?thesis by (simp add: translateEgressRule_def v6_form_def)
next
  case False
  then show ?thesis using assms v4_form_parses [of "er_cidr r"]
    by (auto simp: rule_admitted_def translateEgressRule_def rule_ok_def)
qed

lemma build_rules_ok:
  assumes "dns_ok d" and "list_all rule_admitted (nc_egress c)"
  shows "list_all rule_ok (buildEgressRules d c)
    = list_all (\<lambda>r. v6_form (er_cidr r) \<longrightarrow> net_parse_cidr (er_cidr r) \<noteq> None) (nc_egress c)"
proof -
  have "list_all rule_ok (List.map_filter translateEgressRule rs)
      = list_all (\<lambda>r. v6_form (er_cidr r) \<longrightarrow> net_parse_cidr (er_cidr r) \<noteq> None) rs"
    if "list_all rule_admitted rs" for rs
    using that
  proof (induction rs)
    case (Cons r rs)
    then show ?case using translated_ok [of r] by (cases "translateEgressRule r") (simp_all add: List.map_filter_simps)
  qed (simp add: List.map_filter_simps)
  then show ?thesis using assms by (simp add: buildEgressRules_def dns_rule_ok loopback_ok)
qed

lemma upstream_rules_ok: "list_all rule_ok (fst (upstream_rules us))"
  by (induction us) (auto simp: case_prod_unfold Let_def rule_ok_def dest: asCIDR_valid split: option.splits)

lemma egress_policy_ok:
  "policy_ok \<lparr>np_meta = m, np_spec = egress_spec sel rs\<rparr> = list_all rule_ok rs"
  by (simp add: policy_ok_def egress_spec_def)

section \<open>Properties\<close>

text \<open>C14 A NetworkPolicy is built exactly for an MCPServer that declares network
  capabilities; it selects that server's pods for egress and permits nothing the spec does
  not declare: DNS unless switched off, loopback if switched on, and each egress rule that
  carries a CIDR; a host-only rule opens nothing.  Over TCP it permits all that is declared.
  Over UDP it does so for DNS, loopback and the rules without a port, but not for a rule with
  a port: without a protocol, which stands for any in the code, Kubernetes takes the port to
  be a TCP port.\<close>
theorem network_policy_refines_caps:
  "case (case sp_caps (s_spec s) of None \<Rightarrow> None | Some c \<Rightarrow> cap_network c) of
     None \<Rightarrow> BuildNetworkPolicy cfg s = None
   | Some caps \<Rightarrow> (\<exists>np. BuildNetworkPolicy cfg s = Some np
       \<and> nps_pods (np_spec np) = match_labels [(LabelProvider, s_name s)]
       \<and> nps_types (np_spec np) = [TypeEgress]
       \<and> (egress_permits has sel np d
            \<longleftrightarrow> caps_permit has sel cfg caps d \<and> (de_proto d = TCP \<or> caps_permit has sel cfg (portless caps) d)))"
  by (auto simp: BuildNetworkPolicy_def egress_permits_def egress_spec_def build_rules_admit split: option.splits)

text \<open>C32 The DNS configuration stays well formed whatever the two flags hold, and with a
  well-formed one the namespace default-deny, the Vanilla backstop of any policy and the
  provider ingress are well formed.  The policy of a server whose spec the schema admits is
  well formed exactly when the texts of the IPv6 form in it name an address: the schema is
  exact about ports and about the IPv4 form, and the builder copies what it is given.\<close>
theorem generated_policies_well_formed:
  assumes "dns_ok d" and "caps_ok s"
  shows "dns_ok (snd (SetExtraDNSCIDRs d cs)) \<and> dns_ok (snd (SetExtraDNSSelectors L d specs))
    \<and> (case BuildNetworkPolicy d s of None \<Rightarrow> True | Some np \<Rightarrow> policy_ok np = v6_addresses_exist s)
    \<and> policy_ok (BuildNamespaceDefaultDenyEgress d ns)
    \<and> policy_ok (fst (BuildEgressPolicyBackstop d p target))
    \<and> (case BuildProviderIngress s c of Inl e \<Rightarrow> True | Inr np \<Rightarrow> policy_ok np)"
proof (intro conjI)
  show "dns_ok (snd (SetExtraDNSCIDRs d cs))" "dns_ok (snd (SetExtraDNSSelectors L d specs))"
    using assms(1) by (rule dns_flags_keep_ok)+
  show "case BuildNetworkPolicy d s of None \<Rightarrow> True | Some np \<Rightarrow> policy_ok np = v6_addresses_exist s"
    using assms by (auto simp: BuildNetworkPolicy_def egress_policy_ok caps_ok_def v6_addresses_exist_def egress_of_def
        build_rules_ok split: option.splits)
  show "policy_ok (BuildNamespaceDefaultDenyEgress d ns)"
    using assms by (simp add: BuildNamespaceDefaultDenyEgress_def egress_policy_ok dns_rule_ok)
  show "policy_ok (fst (BuildEgressPolicyBackstop d p target))"
    using assms upstream_rules_ok
    by (simp add: BuildEgressPolicyBackstop_def egress_policy_ok dns_rule_ok case_prod_unfold Let_def)
  show "case BuildProviderIngress s c of Inl e \<Rightarrow> True | Inr np \<Rightarrow> policy_ok np"
    by (simp add: BuildProviderIngress_def policy_ok_def rule_ok_def DefaultDiscoveryPort_def split: option.split)
qed

text \<open>C39 The Vanilla backstop permits DNS and, on every port and protocol, the addresses its
  upstreams name: those of a CIDR, and the one address of a literal; a hostname opens nothing,
  and the hosts reported as unenforceable are exactly the hostnames.  One literal names more
  than its address: for an IPv4-mapped IPv6 literal the first 32 bits decide, and all of
  \<open>::/32\<close> is permitted.\<close>
theorem vanilla_backstop_meaning:
  "(egress_permits in_cidr sel (fst (BuildEgressPolicyBackstop cfg p t)) d \<longleftrightarrow>
      dns_dest in_cidr sel cfg d
      \<or> list_ex (\<lambda>u. host_names (um_host (u_match u)) (de_addr d)
            \<or> mapped_literal (um_host (u_match u)) \<and> in_prefix (de_addr d) (IP6 0, 32)) (ps_upstreams (p_spec p)))
   \<and> snd (BuildEgressPolicyBackstop cfg p t) = filter is_hostname (map (um_host \<circ> u_match) (ps_upstreams (p_spec p)))
   \<and> FQDNUpstreams p = filter is_hostname (map (um_host \<circ> u_match) (ps_upstreams (p_spec p)))
   \<and> nps_pods (np_spec (fst (BuildEgressPolicyBackstop cfg p t))) = t"
  by (simp add: BuildEgressPolicyBackstop_def egress_permits_def egress_spec_def case_prod_unfold
      dns_rule_admits upstream_rules_admit upstream_rules_hosts FQDNUpstreams_def asCIDR_names asCIDR_hostname
      filter_map comp_def)

text \<open>\<open>LooksClusterInternal\<close> is true exactly for a literal address or CIDR
  whose prefix shares an address with one of the private ranges.\<close>
theorem looks_cluster_internal_iff:
  "LooksClusterInternal host \<longleftrightarrow>
     (\<exists>cidr p. asCIDR host = Some cidr \<and> parse_prefix cidr = Some p \<and>
        (\<exists>r \<in> set clusterInternalRanges. \<exists>x. in_prefix x r \<and> in_prefix x p))"
  by (auto simp: LooksClusterInternal_def list_ex_iff overlaps_iff split: option.splits)

text \<open>An egress rule counts as unrestricted exactly when its host is \<open>*\<close> or its
  CIDR or host is a prefix that holds every address of its family.\<close>
theorem unrestricted_egress_iff:
  "IsUnrestrictedEgress rule \<longleftrightarrow> er_host rule = ''*'' \<or>
     (\<exists>s \<in> {er_cidr rule, er_host rule}. \<exists>p. parse_prefix (trim_space s) = Some p \<and>
        (\<forall>x. is4 x = is4 (fst p) \<longrightarrow> in_prefix x p))"
  by (simp add: IsUnrestrictedEgress_def no_bits_iff)

text \<open>A DNS selector list that is accepted names a namespace and at least one
  label in every selector, and one that is refused leaves the configuration as
  it was.\<close>
theorem dns_selectors_accepted:
  "case SetExtraDNSSelectors L cfg specs of
     (None, cfg') \<Rightarrow> list_all (\<lambda>s. ds_namespace s \<noteq> [] \<and> ds_labels s \<noteq> []) (dc_selectors cfg')
        \<and> dc_peers cfg' = dc_peers cfg
   | (Some e, cfg') \<Rightarrow> cfg' = cfg"
  by (auto simp: SetExtraDNSSelectors_def list_all_iff dest: dns_selectors_nonempty split: sum.splits)

text \<open>A provider ingress configuration that parses as enabled always builds, and
  the policy admits TCP 8080 from the selected pods of the gateway's namespace
  and from nothing else.\<close>
theorem provider_ingress_builds:
  assumes "dns1123_errors L [] \<noteq> []"
    and "ParseProviderIngressConfig L True ns selector = Inr c"
  shows "\<exists>np gw. BuildProviderIngress s c = Inr np \<and> parse_label_selector L selector = Inr gw
     \<and> nps_ingress (np_spec np) = [\<lparr>ru_peers = [pod_peer ns gw],
          ru_ports = [\<lparr>po_port = Some 8080, po_proto = Some TCP\<rparr>]\<rparr>]
     \<and> nps_types (np_spec np) = [TypeIngress]
     \<and> nps_pods (np_spec np) = match_labels [(LabelProvider, s_name s)]"
  using assms
  by (auto simp: ParseProviderIngressConfig_def BuildProviderIngress_def DefaultDiscoveryPort_def Let_def
      split: if_split_asm sum.split_asm)

section \<open>Concrete inputs\<close>

definition capped_server :: mcp_server where
  "capped_server = zero_server\<lparr>s_spec := zero_server_spec\<lparr>sp_caps := Some
     \<lparr>cap_network = Some \<lparr>nc_egress = [\<lparr>er_host = ''h'', er_port = 443, er_protocol = ''tcp'', er_cidr = ''10.0.0.0/8''\<rparr>],
      nc_dns = None, nc_loopback = None\<rparr>, cap_tools = None, cap_enforcement = []\<rparr>\<rparr>\<rparr>"

text \<open>The empty configuration and a server with one CIDR rule.\<close>
theorem generated_policies_well_formed_witness:
  "\<exists>np. BuildNetworkPolicy \<lparr>dc_peers = [], dc_selectors = []\<rparr> capped_server = Some np \<and> policy_ok np
     \<and> length (nps_egress (np_spec np)) = 2"
proof -
  have "nat_dec 10 = ''10''" "nat_dec 0 = ''0''" "nat_dec 8 = ''8''" by code_simp+
  then have "decimal_upto 255 ''10''" "decimal_upto 255 ''0''" "decimal_upto 32 ''8''"
    using decimal_uptoI [of 10 255] decimal_uptoI [of 0 255] decimal_uptoI [of 8 32]
    by simp_all
  then have "caps_ok capped_server" "v6_addresses_exist capped_server"
    by (simp_all add: caps_ok_def v6_addresses_exist_def egress_of_def capped_server_def rule_admitted_def v4_form_def
        v6_form_def)
  then show ?thesis
    using generated_policies_well_formed [of "\<lparr>dc_peers = [], dc_selectors = []\<rparr>" capped_server]
    by (simp add: dns_ok_def BuildNetworkPolicy_def capped_server_def egress_spec_def buildEgressRules_def
      translateEgressRule_def List.map_filter_simps)
qed

text \<open>A rule whose CIDR holds every IPv4 address holds this one.\<close>
theorem unrestricted_egress_iff_witness:
  "\<exists>p. parse_prefix (trim_space ''0.0.0.0/0'') = Some p \<and> in_prefix (IP4 0x01020304) p"
proof -
  let ?r = "\<lparr>er_host = ''0.0.0.0/0'', er_port = 0, er_protocol = [], er_cidr = ''0.0.0.0/0''\<rparr>"
  have unres: "IsUnrestrictedEgress ?r" and par: "parse_prefix (trim_space ''0.0.0.0/0'') = Some (IP4 0, 0)" by code_simp+
  from unrestricted_egress_iff [of ?r] unres have "\<forall>x. is4 x = is4 (IP4 0) \<longrightarrow> in_prefix x (IP4 0, 0)"
    by (auto simp: par)
  then show ?thesis using par by (simp add: is4_def)
qed

text \<open>The provider ingress of the gateway \<open>app=gw\<close> in namespace \<open>g\<close>.\<close>
theorem provider_ingress_builds_witness:
  "\<exists>np. BuildProviderIngress zero_server
       \<lparr>ic_enabled = True, ic_namespace = ''g'', ic_selector = Some (match_labels [(''app'', ''gw'')])\<rparr> = Inr np
     \<and> nps_types (np_spec np) = [TypeIngress]"
proof -
  have "dns1123_errors std_lib [] \<noteq> []" by (simp add: std_lib_def)
  moreover have "ParseProviderIngressConfig std_lib True ''g'' ''app=gw''
      = Inr \<lparr>ic_enabled = True, ic_namespace = ''g'', ic_selector = Some (match_labels [(''app'', ''gw'')])\<rparr>"
    by (simp add: ParseProviderIngressConfig_def std_lib_def selector_empty_def match_labels_def)
  ultimately show ?thesis using provider_ingress_builds [of std_lib "''g''" "''app=gw''"] by fast
qed

end
