(* ===== verification/Enforcement.thy ===== *)
theory Enforcement
  imports NetPolicy Cluster
begin

text \<open>
  \<open>pkg/networkpolicy/enforcement.go\<close>: the probe that looks for something in this
  API server that enforces NetworkPolicy.  Its state (the last signal and when it
  expires) is part of what a reconciler keeps, \<open>kept\<close>.  Times are nanoseconds
  since Go's zero time, so an unset time is 0.
\<close>

datatype verdict = VerdictUnset | Observed | NotObserved | Unknown

record node_local_dns_pod =
  nl_namespace :: string
  nl_name :: string
  nl_labels :: labels

record signal =
  sg_verdict :: verdict
  sg_source :: string
  sg_cilium :: bool
  sg_dns_host :: string
  sg_dns_pod :: "node_local_dns_pod option"

text \<open>What a reconciler keeps between reconciles: the probe's cache, and for the
  egress-policy reconciler the CRD lookup and the time of the last gateway check.\<close>
record kept =
  kp_signal :: signal
  kp_expires :: int
  kp_cilium :: bool
  kp_cilium_expires :: int
  kp_gateway_last :: int

text \<open>Nothing kept yet: the Go zero values.\<close>
definition nothing_kept :: kept where
  "nothing_kept = \<lparr>kp_signal = \<lparr>sg_verdict = VerdictUnset, sg_source = [], sg_cilium = False,
     sg_dns_host = [], sg_dns_pod = None\<rparr>, kp_expires = 0, kp_cilium = False, kp_cilium_expires = 0,
     kp_gateway_last = 0\<rparr>"

type_synonym ('o, 's, 'a) prog = "(('o, 's, kept) st, 'a) state"

text \<open>The fields of \<open>EnforcementProbe\<close>: whether a mapper and a reader are set,
  the override and the TTL.\<close>
record probe_config =
  pb_mapper :: bool
  pb_reader :: bool
  pb_override :: verdict
  pb_ttl :: int

definition SelectedByExtraDNSSelectors :: "dns_config \<Rightarrow> node_local_dns_pod \<Rightarrow> bool" where
  "SelectedByExtraDNSSelectors cfg c = list_ex
     (\<lambda>s. ds_namespace s = nl_namespace c \<and> labelsContain (nl_labels c) (ds_labels s)) (dc_selectors cfg)"

definition nodeLocalDNSDaemonSets :: "string list" where
  "nodeLocalDNSDaemonSets = [''node-local-dns'', ''nodelocaldns'']"

definition defaultEnforcementProbeTTL :: int where
  "defaultEnforcementProbeTTL = 5 * 60 * 1000000000"

definition enforcerAPIs :: "(string \<times> string \<times> string) list" where
  "enforcerAPIs = [
     (''crd.projectcalico.org'', ''GlobalNetworkPolicy'', ''Calico''),
     (''crd.antrea.io'', ''AntreaAgentInfo'', ''Antrea''),
     (''networking.k8s.aws'', ''PolicyEndpoint'', ''AWS VPC CNI''),
     (''kubeovn.io'', ''Subnet'', ''Kube-OVN''),
     (''k8s.ovn.org'', ''EgressFirewall'', ''OVN-Kubernetes'')]"

definition enforcerDaemonSets :: "(string \<times> string) list" where
  "enforcerDaemonSets = [
     (''azure-npm'', ''Azure NPM''), (''calico-node'', ''Calico''), (''canal'', ''Canal''),
     (''cilium'', ''Cilium''), (''kube-ovn-cni'', ''Kube-OVN''), (''kube-router'', ''kube-router''),
     (''ovnkube-node'', ''OVN-Kubernetes''), (''weave-net'', ''Weave Net'')]"

definition CiliumGroup :: string where "CiliumGroup = ''cilium.io''"

text \<open>\<open>CiliumAvailable\<close> of \<open>builder.go\<close>: the CRD is served.\<close>
definition CiliumAvailable :: "'e env_scheme \<Rightarrow> history \<Rightarrow> bool" where
  "CiliumAvailable E l = serves_kind E l CiliumGroup CiliumNetworkPolicyKind"

text \<open>What the loop over the DaemonSets collects.\<close>
record agent_facts =
  af_agents :: "string list"
  af_cilium :: bool
  af_host :: string
  af_pod :: "node_local_dns_pod option"

definition no_facts :: agent_facts where
  "no_facts = \<lparr>af_agents = [], af_cilium = False, af_host = [], af_pod = None\<rparr>"

definition agent_step :: "agent_facts \<Rightarrow> daemon_set \<Rightarrow> agent_facts" where
  "agent_step f ds = (let n = m_name (dms_meta ds); ns = m_namespace (dms_meta ds);
       f1 = (if n \<in> set nodeLocalDNSDaemonSets then
               (if dms_host_network ds then f\<lparr>af_host := ns @ ''/'' @ n\<rparr>
                else f\<lparr>af_pod := Some \<lparr>nl_namespace = ns, nl_name = n,
                       nl_labels = dms_template_labels ds\<rparr>\<rparr>)
             else f) in
     case map_of enforcerDaemonSets n of
       None \<Rightarrow> f1
     | Some name \<Rightarrow> f1\<lparr>af_cilium := (af_cilium f1 \<or> n = ''cilium''),
          af_agents := af_agents f1 @ [name @ '' ('' @ ns @ ''/'' @ n @ '')'']\<rparr>)"

definition agents_of :: "daemon_set list \<Rightarrow> agent_facts" where
  "agents_of dss = foldl agent_step no_facts dss"

text \<open>\<open>sort.Strings\<close>: byte order.\<close>
fun str_le :: "string \<Rightarrow> string \<Rightarrow> bool" where
  "str_le [] t = True"
| "str_le (c # s) [] = False"
| "str_le (c # s) (d # t) = ((of_char c :: nat) < of_char d \<or> (c = d \<and> str_le s t))"

fun str_insert :: "string \<Rightarrow> string list \<Rightarrow> string list" where
  "str_insert x [] = [x]"
| "str_insert x (y # ys) = (if str_le x y then x # y # ys else y # str_insert x ys)"

definition sort_strings :: "string list \<Rightarrow> string list" where
  "sort_strings xs = foldr str_insert xs []"

definition crd_note :: string where
  "crd_note = ''the CiliumNetworkPolicy CRD is served but that alone is not Cilium (it outlives an uninstall); ''"

definition unlisted_note :: string where
  "unlisted_note = ''no other policy-enforcing API is served here and DaemonSets could not be listed: ''"

definition nothing_note :: string where
  "nothing_note = ''this API server serves no policy-enforcing API and runs no recognized CNI agent, so a NetworkPolicy written here has no reader''"

definition override_note :: string where
  "override_note = ''asserted by the operator's --networkpolicy-enforcement flag, not by a look at this cluster''"

definition served_api :: "'e env_scheme \<Rightarrow> history \<Rightarrow> (string \<times> string \<times> string) option" where
  "served_api E l = List.find (\<lambda>(g, k, n). serves_kind E l g k) enforcerAPIs"

text \<open>The signal of one look, from the answers it gets: the DaemonSet list (or why
  there is none), the first served policy API, and whether the Cilium CRD is
  served.\<close>
definition probe_signal ::
  "gerr + daemon_set list \<Rightarrow> (string \<times> string \<times> string) option \<Rightarrow> bool \<Rightarrow> signal" where
  "probe_signal dss api crd =
     (let f = (case dss of Inl _ \<Rightarrow> no_facts | Inr l \<Rightarrow> agents_of l);
          crdText = (if crd then crd_note else []) in
      case api of
        Some (g, k, n) \<Rightarrow> \<lparr>sg_verdict = Observed,
          sg_source = n @ '': this API server serves '' @ to_lower k @ ''.'' @ g,
          sg_cilium = af_cilium f, sg_dns_host = af_host f, sg_dns_pod = af_pod f\<rparr>
      | None \<Rightarrow> (case dss of
          Inl e \<Rightarrow> \<lparr>sg_verdict = Unknown, sg_source = crdText @ unlisted_note @ err_text e,
            sg_cilium = False, sg_dns_host = [], sg_dns_pod = None\<rparr>
        | Inr _ \<Rightarrow>
           (if af_agents f \<noteq> [] then \<lparr>sg_verdict = Observed,
              sg_source = ''agent running in this cluster: '' @ join '', '' (sort_strings (af_agents f)),
              sg_cilium = af_cilium f, sg_dns_host = af_host f, sg_dns_pod = af_pod f\<rparr>
            else \<lparr>sg_verdict = NotObserved, sg_source = crdText @ nothing_note,
              sg_cilium = False, sg_dns_host = [], sg_dns_pod = None\<rparr>)))"

definition probe :: "'e env_scheme \<Rightarrow> probe_config \<Rightarrow> ('o, 's, signal) prog" where
  "probe E p = do {
     dss \<leftarrow> (if pb_reader p then fetch_list DaemonSetKind (list_daemonsets E) [] None
            else ret (Inl (Plain ''no reader is configured'')));
     api \<leftarrow> (if pb_mapper p then ask (served_api E) else ret None);
     crd \<leftarrow> (if pb_mapper p then ask (CiliumAvailable E) else ret False);
     ret (probe_signal dss api crd) }"

definition observe :: "'e env_scheme \<Rightarrow> probe_config \<Rightarrow> ('o, 's, signal) prog" where
  "observe E p = do {
     at \<leftarrow> now E;
     k \<leftarrow> the_kept;
     (if at < kp_expires k then ret (kp_signal k)
      else do {
        s \<leftarrow> probe E p;
        set_kept (k\<lparr>kp_signal := s,
          kp_expires := at + (if pb_ttl p \<le> 0 then defaultEnforcementProbeTTL else pb_ttl p)\<rparr>);
        ret s }) }"

definition Signal :: "'e env_scheme \<Rightarrow> probe_config option \<Rightarrow> ('o, 's, signal) prog" where
  "Signal E pc = (case pc of
     None \<Rightarrow> ret \<lparr>sg_verdict = Unknown, sg_source = ''no enforcement probe is configured'',
        sg_cilium = False, sg_dns_host = [], sg_dns_pod = None\<rparr>
   | Some p \<Rightarrow> do {
        s \<leftarrow> observe E p;
        (if pb_override p \<noteq> VerdictUnset
         then ret (s\<lparr>sg_verdict := pb_override p, sg_source := override_note\<rparr>)
         else ret s) })"

section \<open>Facts\<close>

lemma emits_Signal [emits_intro]:
  "A (ListObjs DaemonSetKind [] None) \<Longrightarrow> emits A (Signal E pc)"
  unfolding Signal_def observe_def probe_def by (intro emits_intro)

text \<open>The verdict the probe last gave is Observed, or the override says so.\<close>
definition probe_observed :: "probe_config option \<Rightarrow> kept \<Rightarrow> bool" where
  "probe_observed pc k = (case pc of
     None \<Rightarrow> False
   | Some p \<Rightarrow> (if pb_override p \<noteq> VerdictUnset then pb_override p = Observed
               else sg_verdict (kp_signal k) = Observed))"

lemma Signal_observed:
  "triple (\<lambda>l e. True) (\<lambda>t. True) (Signal E pc)
     (\<lambda>sg t. sg_verdict sg = Observed \<longrightarrow> probe_observed pc (st_kept t))"
proof (cases pc)
  case None
  then show ?thesis by (simp add: Signal_def triple_return)
next
  case (Some p)
  have obs: "triple (\<lambda>l e. True) (\<lambda>t. True) (observe E p) (\<lambda>sg t. sg = kp_signal (st_kept t))"
    by (rule triple_run) (auto simp: observe_def probe_def run_bind split: prod.split intro!: emits_intro)
  show ?thesis unfolding Some Signal_def option.case
    by (intro triple_bind [OF obs] triple_if triple_return) (auto simp: probe_observed_def Some)
qed

lemma agents_step_cilium: "af_cilium (agent_step f ds) \<longleftrightarrow> af_cilium f \<or> m_name (dms_meta ds) = ''cilium''"
  by (auto simp: agent_step_def Let_def enforcerDaemonSets_def)

lemma agents_of_cilium: "af_cilium (agents_of dss) \<longleftrightarrow> (\<exists>ds \<in> set dss. m_name (dms_meta ds) = ''cilium'')"
proof -
  have "af_cilium (foldl agent_step f dss) \<longleftrightarrow> af_cilium f \<or> (\<exists>ds \<in> set dss. m_name (dms_meta ds) = ''cilium'')" for f
    by (induction dss arbitrary: f) (auto simp: agents_step_cilium)
  then show ?thesis by (simp add: agents_of_def no_facts_def)
qed

lemma agents_step_agents: "af_agents (agent_step f ds) = [] \<longleftrightarrow>
    af_agents f = [] \<and> m_name (dms_meta ds) \<notin> fst ` set enforcerDaemonSets"
proof -
  let ?n = "m_name (dms_meta ds)"
  have "?n \<in> fst ` set enforcerDaemonSets \<longleftrightarrow> map_of enforcerDaemonSets ?n \<noteq> None"
    by (simp only: map_of_eq_None_iff not_not)
  then show ?thesis by (cases "map_of enforcerDaemonSets ?n") (simp_all add: agent_step_def Let_def)
qed

lemma agents_of_agents: "af_agents (agents_of dss) = [] \<longleftrightarrow>
    (\<forall>ds \<in> set dss. m_name (dms_meta ds) \<notin> fst ` set enforcerDaemonSets)"
proof -
  have "af_agents (foldl agent_step f dss) = [] \<longleftrightarrow>
     af_agents f = [] \<and> (\<forall>ds \<in> set dss. m_name (dms_meta ds) \<notin> fst ` set enforcerDaemonSets)" for f
    by (induction dss arbitrary: f) (auto simp: agents_step_agents)
  then show ?thesis by (simp add: agents_of_def no_facts_def)
qed

text \<open>The Cilium agent is seen exactly when its DaemonSet is listed.\<close>
lemma signal_cilium:
  "sg_cilium (probe_signal (Inr dss) api crd) = list_ex (\<lambda>ds. m_name (dms_meta ds) = ''cilium'') dss"
proof -
  have "''cilium'' \<in> fst ` set enforcerDaemonSets" by (simp add: enforcerDaemonSets_def)
  then have "af_agents (agents_of dss) = [] \<Longrightarrow> \<not> (\<exists>ds \<in> set dss. m_name (dms_meta ds) = ''cilium'')"
    using agents_of_agents [of dss] by metis
  then show ?thesis using agents_of_cilium [of dss]
    by (auto simp: probe_signal_def Let_def list_ex_iff split: option.split)
qed

section \<open>Properties\<close>

text \<open>The verdict of one look: Observed exactly when a policy API is served or a
  recognised agent is listed, Unknown when no API answers and the agents could
  not be listed, NotObserved when both were asked and neither is there.\<close>
theorem probe_verdict_table:
  "sg_verdict (probe_signal dss api crd) =
     (case api of
        Some _ \<Rightarrow> Observed
      | None \<Rightarrow> (case dss of
          Inl _ \<Rightarrow> Unknown
        | Inr l \<Rightarrow> (if list_ex (\<lambda>ds. m_name (dms_meta ds) \<in> fst ` set enforcerDaemonSets) l
                  then Observed else NotObserved)))"
  using agents_of_agents
  by (auto simp: probe_signal_def Let_def list_ex_iff split: option.splits sum.splits)

text \<open>An asserted verdict changes the verdict and its source only: the Cilium
  agent is reported exactly when a DaemonSet named cilium was listed, never
  because the CRD is served.\<close>
theorem override_keeps_agent_facts:
  assumes "kp_expires (st_kept s) \<le> clock E (st_log s)" and "pb_reader p"
    and "list_daemonsets E (st_log s) [] None = Inr dss"
    and "pb_override p \<noteq> VerdictUnset"
  shows "sg_verdict (fst (run_state (Signal E (Some p)) s)) = pb_override p
    \<and> (sg_cilium (fst (run_state (Signal E (Some p)) s)) \<longleftrightarrow>
         list_ex (\<lambda>ds. m_name (dms_meta ds) = ''cilium'') dss)"
  using assms
  by (auto simp: Signal_def observe_def probe_def run_bind signal_cilium)

text \<open>One look per TTL: while the cached signal has not expired, asking again
  reads nothing and returns the same signal, for as long as the clock says.\<close>
theorem one_probe_per_ttl:
  assumes "run_state (Signal E (Some p)) s = (g, s1)"
    and "st_kept s2 = st_kept s1" and "clock E (st_log s2) < kp_expires (st_kept s1)"
  shows "run_state (Signal E (Some p)) s2 = (g, s2)"
  using assms
  by (cases "clock E (st_log s) < kp_expires (st_kept s)")
    (auto simp: Signal_def observe_def probe_def run_bind split: if_splits)

section \<open>Concrete looks\<close>

text \<open>A cluster that runs Cilium, a probe told that nothing enforces, asked twice.\<close>
definition cilium_env :: env where
  "cilium_env = std_env\<lparr>list_daemonsets := (\<lambda>l ns sel. Inr [\<lparr>dms_meta = mk_meta ''cilium'' ''kube-system'' [] [],
     dms_host_network = True, dms_template_labels = []\<rparr>])\<rparr>"

definition denied_probe :: probe_config where
  "denied_probe = \<lparr>pb_mapper = True, pb_reader = True, pb_override = NotObserved, pb_ttl = 0\<rparr>"

definition first_look :: "signal \<times> (nat, nat, kept) st" where
  "first_look = run_state (Signal cilium_env (Some denied_probe))
     \<lparr>st_obj = 0, st_base = None, st_kept = nothing_kept, st_log = []\<rparr>"

theorem override_keeps_agent_facts_witness:
  "sg_verdict (fst first_look) = NotObserved \<and> sg_cilium (fst first_look)"
  using override_keeps_agent_facts [of "\<lparr>st_obj = 0 :: nat, st_base = None :: nat option, st_kept = nothing_kept,
      st_log = []\<rparr>" cilium_env denied_probe]
  by (simp add: first_look_def cilium_env_def denied_probe_def nothing_kept_def mk_meta_def)

lemma first_look_kept: "clock cilium_env (st_log (snd first_look)) < kp_expires (st_kept (snd first_look))"
  by (simp add: first_look_def Signal_def observe_def probe_def run_bind cilium_env_def denied_probe_def
      nothing_kept_def defaultEnforcementProbeTTL_def)

theorem one_probe_per_ttl_witness:
  "run_state (Signal cilium_env (Some denied_probe)) (snd first_look) = (fst first_look, snd first_look)"
proof -
  have "run_state (Signal cilium_env (Some denied_probe))
      \<lparr>st_obj = 0, st_base = None, st_kept = nothing_kept, st_log = []\<rparr> = (fst first_look, snd first_look)"
    by (simp add: first_look_def)
  then show ?thesis by (rule one_probe_per_ttl [OF _ refl first_look_kept])
qed

end
