(* ===== verification/InitData.thy ===== *)
theory InitData
  imports KubeLib "HOL-Library.Word"
begin

text \<open>
  \<open>pkg/provider/initdata.go\<close>: the init-data annotation, a gzip stream of stored
  blocks in base64, written byte by byte, and the digests in the status.  A byte
  is a natural number below 256.  A reader of the two formats (RFC 4648,
  RFC 1951 stored blocks, RFC 1952 with the CRC of ISO 3309) is given as the
  reference, and what the program writes reads back as the document.
\<close>

definition AnnotationKataInitData :: string where
  "AnnotationKataInitData = ''io.katacontainers.config.hypervisor.cc_init_data''"

section \<open>The encoder\<close>

definition le16 :: "nat \<Rightarrow> nat list" where
  "le16 n = [n mod 256, n div 256 mod 256]"

definition le32 :: "nat \<Rightarrow> nat list" where
  "le32 n = [n mod 256, n div 256 mod 256, n div 65536 mod 256, n div 16777216 mod 256]"

text \<open>\<open>crc32.ChecksumIEEE\<close>: the reflected polynomial, bit by bit.\<close>
fun crc_bits :: "nat \<Rightarrow> 32 word \<Rightarrow> 32 word" where
  "crc_bits 0 c = c"
| "crc_bits (Suc k) c =
     crc_bits k (if bit c 0 then xor (drop_bit 1 c) 0xedb88320 else drop_bit 1 c)"

definition crc32 :: "nat list \<Rightarrow> 32 word" where
  "crc32 bs = not (foldl (\<lambda>c b. crc_bits 8 (xor c (of_nat b))) (not 0) bs)"

text \<open>The loop over the document: stored blocks of at most 65535 bytes, the last
  one marked final; an empty document is one empty block.\<close>
function stored_blocks :: "nat list \<Rightarrow> nat list" where
  "stored_blocks data =
     (let n = min (length data) 65535;
          block = (if n = length data then 1 else 0) # le16 n @ le16 (65535 - n) @ take n data
      in if drop n data = [] then block else block @ stored_blocks (drop n data))"
  by auto
termination by (relation "measure length") auto

declare stored_blocks.simps [simp del]

definition gzip_header :: "nat list" where
  "gzip_header = [0x1f, 0x8b, 8, 0, 0, 0, 0, 0, 0, 0xff]"

definition gzip_stored :: "nat list \<Rightarrow> nat list" where
  "gzip_stored data = gzip_header @ stored_blocks data @ le32 (unat (crc32 data)) @ le32 (length data)"

definition b64_alphabet :: string where
  "b64_alphabet = ''ABCDEFGHIJKLMNOPQRSTUVWXYZabcdefghijklmnopqrstuvwxyz0123456789+/''"

definition b64_char :: "nat \<Rightarrow> char" where
  "b64_char n = b64_alphabet ! n"

text \<open>\<open>base64.StdEncoding.EncodeToString\<close>.\<close>
fun b64 :: "nat list \<Rightarrow> string" where
  "b64 [] = []"
| "b64 [a] = [b64_char (a div 4), b64_char (a mod 4 * 16), CHR ''='', CHR ''='']"
| "b64 [a, b] = [b64_char (a div 4), b64_char (a mod 4 * 16 + b div 16),
     b64_char (b mod 16 * 4), CHR ''='']"
| "b64 (a # b # c # r) = b64_char (a div 4) # b64_char (a mod 4 * 16 + b div 16)
     # b64_char (b mod 16 * 4 + c div 64) # b64_char (c mod 64) # b64 r"

definition bytes_of :: "string \<Rightarrow> nat list" where
  "bytes_of s = map of_char s"

definition EncodeInitData :: "string \<Rightarrow> string" where
  "EncodeInitData document = b64 (gzip_stored (bytes_of document))"

definition InitDataDigests :: "'e klib_scheme \<Rightarrow> string \<Rightarrow> initdata_digests option" where
  "InitDataDigests L document = (if document = [] then None else Some (sha_hex L document))"

section \<open>The reader\<close>

text \<open>
  The reference, written from the formats and sharing nothing with the encoder: the base64
  values by the ranges of the alphabet (RFC 4648), stored blocks (RFC 1951), the gzip member
  (RFC 1952) without optional fields, its numbers least significant byte first, and the CRC
  as the remainder of a polynomial division (ISO 3309): the message enters a shift register
  bit by bit, least significant bit of each byte first, the register is divided by the
  generator \<open>0x04c11db7\<close>, and the stored number is its complement read backwards.
\<close>

definition b64_val :: "char \<Rightarrow> nat option" where
  "b64_val c = (let n = of_char c in
     if 65 \<le> n \<and> n \<le> 90 then Some (n - 65)
     else if 97 \<le> n \<and> n \<le> 122 then Some (n - 71)
     else if 48 \<le> n \<and> n \<le> 57 then Some (n + 4)
     else if n = 43 then Some 62
     else if n = 47 then Some 63
     else None)"

fun unb64 :: "string \<Rightarrow> nat list option" where
  "unb64 [] = Some []"
| "unb64 (w # x # y # z # r) = (case (b64_val w, b64_val x) of
     (Some p, Some q) \<Rightarrow>
       (if y = CHR ''='' then (if z = CHR ''='' \<and> r = [] then Some [p * 4 + q div 16] else None)
        else (case b64_val y of
           None \<Rightarrow> None
         | Some s \<Rightarrow>
             (if z = CHR ''='' then
                (if r = [] then Some [p * 4 + q div 16, q mod 16 * 16 + s div 4] else None)
              else (case b64_val z of
                 None \<Rightarrow> None
               | Some t \<Rightarrow> map_option (\<lambda>u. (p * 4 + q div 16) # (q mod 16 * 16 + s div 4) # (s mod 4 * 64 + t) # u)
                   (unb64 r)))))
   | _ \<Rightarrow> None)"
| "unb64 _ = None"

fun le_val :: "nat list \<Rightarrow> nat" where
  "le_val [] = 0"
| "le_val (b # bs) = b + 256 * le_val bs"

text \<open>Stored blocks up to the final one: the data and what follows.  Of the first byte the
  lowest bit is the final flag and the next two are the type, 0 for stored.\<close>
function unstore :: "nat list \<Rightarrow> (nat list \<times> nat list) option" where
  "unstore bs = (if length bs < 5 then None
     else (let f = hd bs; n = le_val (take 2 (drop 1 bs)); m = le_val (take 2 (drop 3 bs));
               r = drop 5 bs in
       if n + m \<noteq> 65535 \<or> length r < n \<or> f div 2 mod 4 \<noteq> 0 then None
       else if f mod 2 = 1 then Some (take n r, drop n r)
       else map_option (\<lambda>(d, t). (take n r @ d, t)) (unstore (drop n r))))"
  by auto
termination by (relation "measure length") auto

declare unstore.simps [simp del]

definition crc_shift :: "32 word \<Rightarrow> bool \<Rightarrow> 32 word" where
  "crc_shift r b = (if bit r 31 \<noteq> b then xor (push_bit 1 r) 0x04c11db7 else push_bit 1 r)"

definition message_bits :: "nat list \<Rightarrow> bool list" where
  "message_bits bs = concat (map (\<lambda>b. map (bit b) [0..<8]) bs)"

definition crc_register :: "nat list \<Rightarrow> 32 word" where
  "crc_register bs = foldl crc_shift (not 0) (message_bits bs)"

definition crc_matches :: "32 word \<Rightarrow> 32 word \<Rightarrow> bool" where
  "crc_matches stored r = list_all (\<lambda>i. bit stored i \<noteq> bit r (31 - i)) [0..<32]"

definition gunzip :: "nat list \<Rightarrow> nat list option" where
  "gunzip bs = (if length bs < 10 \<or> take 4 bs \<noteq> [31, 139, 8, 0] then None
     else (case unstore (drop 10 bs) of
        None \<Rightarrow> None
      | Some (d, t) \<Rightarrow>
          (if length t = 8 \<and> crc_matches (of_nat (le_val (take 4 t))) (crc_register d)
              \<and> le_val (drop 4 t) = length d mod 4294967296 then Some d else None)))"

section \<open>Facts\<close>

lemma b64_table: "map b64_val b64_alphabet = map Some [0..<64]" "length b64_alphabet = 64" "CHR ''='' \<notin> set b64_alphabet"
  by (simp_all add: b64_alphabet_def b64_val_def upt_rec)

lemma b64_val_char [simp]: "n < 64 \<Longrightarrow> b64_val (b64_char n) = Some n"
  using nth_map [of n b64_alphabet b64_val] by (simp add: b64_char_def b64_table)

lemma b64_char_pad [simp]: "n < 64 \<Longrightarrow> b64_char n \<noteq> CHR ''=''"
  using b64_table(3) nth_mem [of n b64_alphabet] unfolding b64_char_def b64_table(2) by metis

lemma b64_roundtrip: "list_all (\<lambda>b. b < 256) bs \<Longrightarrow> unb64 (b64 bs) = Some bs"
proof (induction bs rule: b64.induct)
  case (2 a)
  then have "a div 4 < 64" "a mod 4 * 16 < 64" by auto
  then show ?case by simp
next
  case (3 a b)
  then have "a div 4 < 64" "a mod 4 * 16 + b div 16 < 64" "b mod 16 * 4 < 64" "b div 16 < 16" by auto
  then show ?case by simp
next
  case (4 a b c r)
  then have "a div 4 < 64" "a mod 4 * 16 + b div 16 < 64" "b mod 16 * 4 + c div 64 < 64"
    "c mod 64 < 64" "b div 16 < 16" "c div 64 < 4" by auto
  then show ?case using 4 by simp
qed simp

lemma le16_val: "n < 65536 \<Longrightarrow> le_val (le16 n) = n"
  by (simp add: le16_def)

lemma le16_bytes: "list_all (\<lambda>b. b < 256) (le16 n)" "length (le16 n) = 2"
  by (simp_all add: le16_def)

lemma le16_set: "b \<in> set (le16 n) \<Longrightarrow> b < 256"
  by (auto simp: le16_def)

lemma le32_bytes: "list_all (\<lambda>b. b < 256) (le32 n)" "length (le32 n) = 4"
  by (simp_all add: le32_def)

lemma le32_val: "le_val (le32 n) = n mod 4294967296"
proof -
  have "n mod 4294967296 = n mod (256 * (256 * (256 * 256)))" by simp
  also have "\<dots> = n mod 256 + 256 * (n div 256 mod 256 + 256 * (n div 65536 mod 256 + 256 * (n div 16777216 mod 256)))"
    unfolding mod_mult2_eq by (simp add: div_mult2_eq [symmetric])
  finally show ?thesis by (simp add: le32_def)
qed

subsection \<open>The checksum\<close>

text \<open>One step of the encoder's register, with the bit of the message as an argument.\<close>
definition reflected_shift :: "32 word \<Rightarrow> bool \<Rightarrow> 32 word" where
  "reflected_shift c b = (if bit c 0 \<noteq> b then xor (drop_bit 1 c) 0xedb88320 else drop_bit 1 c)"

lemma crc_bits_shift:
  assumes "\<And>i. k \<le> i \<Longrightarrow> \<not> bit w i"
  shows "crc_bits k (xor c w) = foldl reflected_shift c (map (bit w) [0..<k])"
  using assms
proof (induction k arbitrary: c w)
  case 0
  then have "w = 0" by (intro bit_word_eqI) simp
  then show ?case by simp
next
  case (Suc k)
  have d: "drop_bit 1 (xor c w) = xor (drop_bit 1 c) (drop_bit 1 w)" by (rule drop_bit_xor)
  have "crc_bits (Suc k) (xor c w) = crc_bits k (xor (reflected_shift c (bit w 0)) (drop_bit 1 w))"
    by (simp add: reflected_shift_def d bit_xor_iff ac_simps)
  also have "\<dots> = foldl reflected_shift (reflected_shift c (bit w 0)) (map (bit (drop_bit 1 w)) [0..<k])"
    by (rule Suc.IH) (simp add: bit_drop_bit_eq Suc.prems)
  also have "map (bit (drop_bit 1 w)) [0..<k] = map (bit w) [Suc 0..<Suc k]"
    by (simp add: map_Suc_upt [symmetric] bit_drop_bit_eq comp_def del: upt_Suc)
  finally show ?case by (simp add: upt_conv_Cons del: upt_Suc)
qed

lemma byte_bits:
  assumes "b < 256"
  shows "crc_bits 8 (xor c (of_nat b)) = foldl reflected_shift c (map (bit b) [0..<8])"
proof -
  have "\<not> bit b i" if "8 \<le> i" for i
  proof -
    have "b < 2 ^ i" using assms power_increasing [OF that, of "2 :: nat"] by simp
    then show ?thesis by (simp add: bit_iff_odd)
  qed
  then have "\<not> bit (of_nat b :: 32 word) i" if "8 \<le> i" for i using that by (simp add: bit_of_nat_iff)
  then have "crc_bits 8 (xor c (of_nat b)) = foldl reflected_shift c (map (bit (of_nat b :: 32 word)) [0..<8])"
    by (rule crc_bits_shift)
  also have "map (bit (of_nat b :: 32 word)) [0..<8] = map (bit b) [0..<8]"
    by (rule map_cong) (auto simp: bit_of_nat_iff)
  finally show ?thesis .
qed

lemma crc32_shifts:
  "list_all (\<lambda>b. b < 256) bs \<Longrightarrow>
   foldl (\<lambda>c b. crc_bits 8 (xor c (of_nat b))) c bs = foldl reflected_shift c (message_bits bs)"
  by (induction bs arbitrary: c) (simp_all add: message_bits_def byte_bits)

text \<open>The two registers are mirror images.\<close>
definition mirrored :: "32 word \<Rightarrow> 32 word \<Rightarrow> bool" where
  "mirrored c r = (\<forall>i < 32. bit c i = bit r (31 - i))"

lemma generators: "list_all (\<lambda>i. bit (0xedb88320 :: 32 word) i = bit (0x04c11db7 :: 32 word) (31 - i)) [0..<32]"
  by code_simp

lemma mirrored_shift:
  assumes "mirrored c r"
  shows "mirrored (reflected_shift c b) (crc_shift r b)"
proof -
  have g: "bit (0xedb88320 :: 32 word) i = bit (0x04c11db7 :: 32 word) (31 - i)" if "i < 32" for i
    using generators that by (simp add: list_all_iff)
  have s: "bit (drop_bit 1 c) i = bit (push_bit 1 r) (31 - i)" if "i < 32" for i
  proof (cases "i = 31")
    case True
    have "\<not> bit c 32" using bit_imp_le_length [of c 32] by auto
    moreover have "\<not> bit (push_bit 1 r) 0" unfolding bit_push_bit_iff by simp
    ultimately show ?thesis using True unfolding bit_drop_bit_eq by simp
  next
    case False
    then have "bit c (Suc i) = bit r (31 - Suc i)" "31 - Suc i = 31 - i - 1" "31 - i \<noteq> 0"
      using assms that by (simp_all add: mirrored_def)
    moreover have "Suc 0 \<le> 31 - i" "31 - i < 32" using that False by auto
    ultimately show ?thesis using that unfolding bit_push_bit_iff bit_drop_bit_eq by simp
  qed
  have "bit c 0 = bit r 31" using assms by (simp add: mirrored_def)
  then show ?thesis using g s by (simp add: mirrored_def reflected_shift_def crc_shift_def bit_xor_iff)
qed

lemma mirrored_shifts: "mirrored c r \<Longrightarrow> mirrored (foldl reflected_shift c bs) (foldl crc_shift r bs)"
  by (induction bs arbitrary: c r) (simp_all add: mirrored_shift)

lemma crc32_matches:
  assumes "list_all (\<lambda>b. b < 256) bs"
  shows "crc_matches (crc32 bs) (crc_register bs)"
proof -
  have "mirrored (not 0) (not 0)" by (auto simp: mirrored_def bit_not_iff)
  then have "mirrored (foldl reflected_shift (not 0) (message_bits bs)) (crc_register bs)"
    unfolding crc_register_def by (rule mirrored_shifts)
  then show ?thesis using assms
    by (simp add: crc_matches_def crc32_def crc32_shifts mirrored_def list_all_iff bit_not_iff)
qed

text \<open>A published value.\<close>
lemma crc32_of_a: "crc32 (bytes_of ''a'') = 0xe8b7be43"
proof -
  have "crc_bits (numeral k) c = crc_bits (pred_numeral k) (if bit c 0 then xor (drop_bit 1 c) 0xedb88320 else drop_bit 1 c)"
    for k c by (simp add: numeral_eq_Suc)
  then show ?thesis by (simp add: crc32_def bytes_of_def)
qed

subsection \<open>The stream\<close>

lemma unstore_block:
  assumes "n = length d" "n < 65536" "f \<le> (1 :: nat)"
  shows "unstore (f # le16 n @ le16 (65535 - n) @ d @ t) =
    (if f = 1 then Some (d, t) else map_option (\<lambda>(e, u). (d @ e, u)) (unstore t))"
proof -
  have "drop 2 (le16 n @ x) = x" "take 2 (le16 n @ x) = le16 n" for n x by (simp_all add: le16_def)
  moreover have "drop 4 (le16 n @ le16 m @ x) = x" for m x by (simp add: le16_def)
  ultimately show ?thesis using assms
    by (subst unstore.simps) (simp add: Let_def le16_bytes le16_val le_imp_diff_is_add)
qed

lemma unstore_stored: "unstore (stored_blocks d @ t) = Some (d, t)"
proof (induction d rule: stored_blocks.induct)
  case (1 d)
  let ?n = "min (length d) 65535"
  show ?case
  proof (cases "drop ?n d = []")
    case True
    then have "?n = length d" by simp
    then show ?thesis using unstore_block [of "length d" d 1 t]
      by (subst stored_blocks.simps) (simp add: Let_def)
  next
    case False
    then have n: "?n = 65535" "?n \<noteq> length d" by auto
    have "unstore (stored_blocks (drop ?n d) @ t) = Some (drop ?n d, t)"
      using 1 [OF refl refl False] .
    then show ?thesis using False n unstore_block [of 65535 "take 65535 d" 0 "stored_blocks (drop ?n d) @ t"]
      by (subst stored_blocks.simps) (simp add: Let_def)
  qed
qed

lemma stored_bytes: "list_all (\<lambda>b. b < 256) d \<Longrightarrow> list_all (\<lambda>b. b < 256) (stored_blocks d)"
proof (induction d rule: stored_blocks.induct)
  case (1 d)
  then show ?case
    by (subst stored_blocks.simps)
      (auto simp: Let_def list_all_iff dest: in_set_takeD in_set_dropD le16_set)
qed

lemma bytes_of_bound [simp]: "list_all (\<lambda>b. b < 256) (bytes_of s)"
  by (auto simp: bytes_of_def list_all_iff)

lemma bytes_of_inverse [simp]: "map char_of (bytes_of s) = s"
  by (induction s) (simp_all add: bytes_of_def)

lemma gzip_bytes: "list_all (\<lambda>b. b < 256) (gzip_stored (bytes_of s))"
  by (simp add: gzip_stored_def gzip_header_def le32_bytes stored_bytes)

lemma gunzip_gzip:
  assumes "list_all (\<lambda>b. b < 256) d"
  shows "gunzip (gzip_stored d) = Some d"
proof -
  have "unat (crc32 d) < 4294967296" using unsigned_less [of "crc32 d"] by simp
  then have "of_nat (le_val (le32 (unat (crc32 d)))) = crc32 d" by (simp add: le32_val)
  moreover have "take 4 (le32 n @ x) = le32 n" "drop 4 (le32 n @ x) = x" for n x by (simp_all add: le32_def)
  ultimately show ?thesis using crc32_matches [OF assms]
    by (simp add: gunzip_def gzip_stored_def gzip_header_def unstore_stored le32_bytes le32_val)
qed

section \<open>Properties\<close>

text \<open>C40 What the operator writes into the pod's init-data annotation decodes, as base64
  and then as a gzip member with its checksum and length, to the document byte for byte, by a
  reader written from the formats.\<close>
theorem init_data_roundtrip:
  "\<exists>z. unb64 (EncodeInitData document) = Some z \<and> gunzip z = Some (bytes_of document)
     \<and> map char_of (bytes_of document) = document"
  by (simp add: EncodeInitData_def b64_roundtrip gzip_bytes gunzip_gzip)

end
