(* ===== verification/ProviderBuild.thy ===== *)
theory ProviderBuild
  imports InitData NetPolicy Cluster
begin

text \<open>
  \<open>pkg/provider\<close>, files \<open>builder.go\<close> and \<open>deployment.go\<close>: the pod and the
  Deployment built for a container-mode MCPServer.  A security context is the
  list of its set fields, as \<open>overlaySet\<close> sees it by reflection.
\<close>

definition LabelName :: string where "LabelName = ''app.kubernetes.io/name''"
definition LabelInstance :: string where "LabelInstance = ''app.kubernetes.io/instance''"
definition LabelAppComponent :: string where "LabelAppComponent = ''app.kubernetes.io/component''"
definition LabelPartOf :: string where "LabelPartOf = ''app.kubernetes.io/part-of''"
definition LabelProviderUID :: string where "LabelProviderUID = ''mcp-hangar.io/provider-uid''"
definition AnnotationGeneration :: string where "AnnotationGeneration = ''mcp-hangar.io/generation''"
definition AnnotationDiscoveryEnabled :: string where
  "AnnotationDiscoveryEnabled = ''mcp-hangar.io/enabled''"
definition AnnotationDiscoveryName :: string where "AnnotationDiscoveryName = ''mcp-hangar.io/name''"

section \<open>Parts\<close>

text \<open>\<open>overlaySet\<close>: every field the user set replaces the default.\<close>
definition overlaySet :: "fields \<Rightarrow> fields option \<Rightarrow> fields" where
  "overlaySet dst src = (case src of
     None \<Rightarrow> dst | Some fs \<Rightarrow> fold (\<lambda>(k, v) m. amap_put k v m) fs dst)"

definition runtime_default :: json where
  "runtime_default = JObj [(''type'', JStr ''RuntimeDefault'')]"

definition defaultPodSecurityContext :: fields where
  "defaultPodSecurityContext = [(''runAsNonRoot'', JBool True), (''runAsUser'', JInt 65534),
     (''fsGroup'', JInt 65534), (''seccompProfile'', runtime_default)]"

definition drop_all :: json where
  "drop_all = JArr [JStr ''ALL'']"

definition defaultContainerSecurityContext :: fields where
  "defaultContainerSecurityContext = [(''runAsNonRoot'', JBool True),
     (''readOnlyRootFilesystem'', JBool True), (''allowPrivilegeEscalation'', JBool False),
     (''capabilities'', JObj [(''drop'', drop_all)]), (''seccompProfile'', runtime_default)]"

text \<open>\<open>user.Capabilities\<close> with an empty drop list, and the fix-up of it.\<close>
definition drops_nothing :: "json \<Rightarrow> bool" where
  "drops_nothing c = (case c of
     JObj m \<Rightarrow> (case map_of m ''drop'' of None \<Rightarrow> True | Some d \<Rightarrow> d = JArr [])
   | _ \<Rightarrow> True)"

definition with_drop_all :: "json \<Rightarrow> json" where
  "with_drop_all c = (case c of JObj m \<Rightarrow> JObj (amap_put ''drop'' drop_all m)
     | _ \<Rightarrow> JObj [(''drop'', drop_all)])"

definition containerSecurityContext :: "fields option \<Rightarrow> fields" where
  "containerSecurityContext user =
     (let sc = overlaySet defaultContainerSecurityContext user in
      case user of
        None \<Rightarrow> sc
      | Some fs \<Rightarrow> (case map_of fs ''capabilities'' of
           None \<Rightarrow> sc
         | Some c \<Rightarrow> (if drops_nothing c then amap_put ''capabilities'' (with_drop_all c) sc else sc)))"

definition pullPolicy :: "string \<Rightarrow> pull_policy" where
  "pullPolicy img = (if str_contains img ''@sha256:'' then PullIfNotPresent else PullAlways)"

definition default_resources :: json where
  "default_resources = JObj [(''requests'', JObj [(''cpu'', JStr ''50m''), (''memory'', JStr ''64Mi'')])]"

definition field_ref :: "string \<Rightarrow> json" where
  "field_ref p = JObj [(''fieldRef'', JObj [(''fieldPath'', JStr p)])]"

definition buildEnvVars :: "mcp_server \<Rightarrow> env_var list" where
  "buildEnvVars s =
     [\<lparr>ev_name = ''MCP_PROVIDER_NAME'', ev_value = s_name s, ev_from = None\<rparr>,
      \<lparr>ev_name = ''MCP_PROVIDER_NAMESPACE'', ev_value = s_ns s, ev_from = None\<rparr>,
      \<lparr>ev_name = ''MCP_POD_NAME'', ev_value = [], ev_from = Some (field_ref ''metadata.name'')\<rparr>,
      \<lparr>ev_name = ''MCP_POD_IP'', ev_value = [], ev_from = Some (field_ref ''status.podIP'')\<rparr>]
     @ sp_env (s_spec s)"

definition buildContainer :: "mcp_server \<Rightarrow> container" where
  "buildContainer s = (let sp = s_spec s in \<lparr>
     ct_name = ''provider'', ct_image = sp_image sp, ct_pull = pullPolicy (sp_image sp),
     ct_command = sp_command sp, ct_args = sp_args sp, ct_workdir = sp_workdir sp,
     ct_env = buildEnvVars s,
     ct_resources = (case sp_resources sp of Some r \<Rightarrow> r | None \<Rightarrow> default_resources),
     ct_mounts = [], ct_sc = containerSecurityContext (sp_ctr_sc sp)\<rparr>)"

definition buildAnnotations :: "mcp_server \<Rightarrow> labels" where
  "buildAnnotations s = [(AnnotationGeneration, itoa (m_generation (s_meta s)))]
     @ (if sp_initdata (s_spec s) \<noteq> []
        then [(AnnotationKataInitData, EncodeInitData (sp_initdata (s_spec s)))] else [])"

definition pb_buildLabels :: "mcp_server \<Rightarrow> labels" where
  "pb_buildLabels s =
     [(LabelManagedBy, DefaultManagerName), (LabelName, s_name s), (LabelInstance, s_name s),
      (LabelAppComponent, ''provider''), (LabelPartOf, ''mcp-hangar''), (LabelProvider, s_name s)]
     @ (if m_uid (s_meta s) \<noteq> [] then [(LabelProviderUID, m_uid (s_meta s))] else [])"

definition automountServiceAccountToken :: "mcp_server \<Rightarrow> bool option" where
  "automountServiceAccountToken s = (case sp_automount (s_spec s) of
     Some b \<Rightarrow> Some b | None \<Rightarrow> Some False)"

text \<open>\<open>int64(Duration.Seconds())\<close> is the whole seconds; the float it goes through
  is exact for durations below 2 ^ 22 seconds.\<close>
definition getTerminationGracePeriod :: "mcp_server \<Rightarrow> int option" where
  "getTerminationGracePeriod s = (case sp_grace (s_spec s) of
     None \<Rightarrow> Some 30
   | Some d \<Rightarrow> (let secs = go_div d 1000000000 in if secs \<le> 0 then Some 30 else Some secs))"

section \<open>Pod and Deployment\<close>

definition BuildPodForMCPServer :: "mcp_server \<Rightarrow> gerr + pod" where
  "BuildPodForMCPServer s =
     (if sp_image (s_spec s) = [] then Inl (Plain ''container mode requires image'')
      else (let sp = s_spec s; c = (buildContainer s)\<lparr>ct_mounts := sp_mounts sp\<rparr> in
        Inr \<lparr>pod_meta = mk_meta (GetPodName s) (s_ns s) (pb_buildLabels s) (buildAnnotations s),
          pod_spec = \<lparr>psp_containers = [c], psp_volumes = sp_volumes sp, psp_restart = RestartNever,
            psp_service_account = sp_service_account sp,
            psp_automount = automountServiceAccountToken s,
            psp_node_selector = sp_node_selector sp, psp_pull_secrets = sp_pull_secrets sp,
            psp_priority_class = sp_priority_class sp, psp_runtime_class = sp_runtime_class sp,
            psp_grace = getTerminationGracePeriod s,
            psp_tolerations = sp_tolerations sp, psp_affinity = sp_affinity sp,
            psp_sc = overlaySet defaultPodSecurityContext (sp_pod_sc sp)\<rparr>,
          pod_phase = PhaseOther [], pod_reason = [], pod_message = [], pod_ip = [],
          pod_containers = [], pod_conditions = []\<rparr>))"

definition deploymentRevisionHistory :: int where "deploymentRevisionHistory = 2"

definition DeploymentName :: "mcp_server \<Rightarrow> string" where
  "DeploymentName s = GetPodName s"

definition DeploymentSelector :: "mcp_server \<Rightarrow> labels" where
  "DeploymentSelector s = [(LabelProvider, s_name s), (LabelManagedBy, DefaultManagerName)]"

definition BuildDeploymentForMCPServer :: "mcp_server \<Rightarrow> gerr + deployment" where
  "BuildDeploymentForMCPServer s = (case BuildPodForMCPServer s of
     Inl e \<Rightarrow> Inl e
   | Inr p \<Rightarrow> Inr \<lparr>
       dep_meta = mk_meta (DeploymentName s) (s_ns s) (pb_buildLabels s)
         [(AnnotationGeneration, label_of (m_annotations (pod_meta p)) AnnotationGeneration)],
       dep_spec = \<lparr>dep_replicas = GetReplicas s, dep_selector = DeploymentSelector s,
         dep_strategy = Recreate, dep_history = deploymentRevisionHistory,
         dep_labels = m_labels (pod_meta p), dep_annotations = m_annotations (pod_meta p),
         dep_pod = (pod_spec p)\<lparr>psp_restart := RestartAlways\<rparr>\<rparr>\<rparr>)"

section \<open>Facts\<close>

lemma fold_put_lookup: "map_of (fold (\<lambda>(k, v) m. amap_put k v m) fs m) k =
    (case map_of (rev fs) k of None \<Rightarrow> map_of m k | Some v \<Rightarrow> Some v)"
  by (induction fs arbitrary: m) (auto simp: map_add_def split: option.splits)

lemma overlay_lookup:
  assumes "distinct (map fst fs)"
  shows "map_of (overlaySet d (Some fs)) k = (case map_of fs k of None \<Rightarrow> map_of d k | Some v \<Rightarrow> Some v)"
proof -
  have "map_of (rev fs) = map_of fs" using assms by (metis map_of_inject_set distinct_rev rev_map set_rev)
  then show ?thesis by (simp add: overlaySet_def fold_put_lookup)
qed

lemmas label_defs = LabelManagedBy_def LabelName_def LabelInstance_def LabelAppComponent_def
  LabelPartOf_def LabelProvider_def LabelProviderUID_def

lemma provider_labels:
  "label_of (pb_buildLabels s) LabelProvider = s_name s"
  "label_of (pb_buildLabels s) LabelManagedBy = DefaultManagerName"
  by (simp_all add: label_of_def pb_buildLabels_def label_defs)

lemma with_drop_all_drops: "\<not> drops_nothing (with_drop_all c)"
  by (cases c) (simp_all add: drops_nothing_def with_drop_all_def drop_all_def)

lemma default_drops: "\<not> drops_nothing (JObj [(''drop'', drop_all)])"
  by (simp add: drops_nothing_def drop_all_def)

lemma selector_satisfied: "labelsContain (pb_buildLabels s) (DeploymentSelector s)"
  by (simp add: labelsContain_iff DeploymentSelector_def provider_labels)

lemma no_discovery_annotation:
  "label_of (buildAnnotations s) AnnotationDiscoveryName = []"
  "label_of (buildAnnotations s) AnnotationDiscoveryEnabled = []"
  by (simp_all add: buildAnnotations_def label_of_def AnnotationDiscoveryName_def
      AnnotationDiscoveryEnabled_def AnnotationGeneration_def AnnotationKataInitData_def)

section \<open>Properties\<close>

text \<open>The container's security context is the secure default with exactly the
  fields the spec sets replaced, except that its capabilities never have an empty
  drop list: a spec that names capabilities without one still drops ALL.\<close>
theorem container_security_overlay:
  assumes "distinct (map fst fs)"
  shows "map_of (containerSecurityContext (Some fs)) k =
     (case map_of fs k of
        None \<Rightarrow> map_of defaultContainerSecurityContext k
      | Some v \<Rightarrow> Some (if k = ''capabilities'' \<and> drops_nothing v then with_drop_all v else v))
   \<and> (\<exists>c. map_of (containerSecurityContext (Some fs)) ''capabilities'' = Some c \<and> \<not> drops_nothing c)
   \<and> map_of (containerSecurityContext None) = map_of defaultContainerSecurityContext"
proof (intro conjI)
  let ?sc = "overlaySet defaultContainerSecurityContext (Some fs)"
  note ov = overlay_lookup [OF assms, of defaultContainerSecurityContext]
  show look: "map_of (containerSecurityContext (Some fs)) k =
     (case map_of fs k of
        None \<Rightarrow> map_of defaultContainerSecurityContext k
      | Some v \<Rightarrow> Some (if k = ''capabilities'' \<and> drops_nothing v then with_drop_all v else v))" for k
    by (cases "map_of fs ''capabilities''"; cases "map_of fs k")
      (auto simp: containerSecurityContext_def Let_def ov)
  show "\<exists>c. map_of (containerSecurityContext (Some fs)) ''capabilities'' = Some c \<and> \<not> drops_nothing c"
    by (cases "map_of fs ''capabilities''")
      (auto simp: look with_drop_all_drops default_drops defaultContainerSecurityContext_def)
  show "map_of (containerSecurityContext None) = map_of defaultContainerSecurityContext"
    by (simp add: containerSecurityContext_def overlaySet_def)
qed

text \<open>A Deployment is built exactly for a server with an image: one container of
  that image, replicas as the spec says, Recreate and restart Always, no
  service-account token unless asked for, a selector its own template's labels
  satisfy, and no annotation that core's discovery reads.\<close>
theorem deployment_shape:
  "case BuildDeploymentForMCPServer s of
     Inl e \<Rightarrow> sp_image (s_spec s) = []
   | Inr d \<Rightarrow> sp_image (s_spec s) \<noteq> []
       \<and> dep_replicas (dep_spec d) = GetReplicas s
       \<and> dep_strategy (dep_spec d) = Recreate
       \<and> psp_restart (dep_pod (dep_spec d)) = RestartAlways
       \<and> map ct_image (psp_containers (dep_pod (dep_spec d))) = [sp_image (s_spec s)]
       \<and> psp_automount (dep_pod (dep_spec d)) = Some (sp_automount (s_spec s) = Some True)
       \<and> labelsContain (dep_labels (dep_spec d)) (dep_selector (dep_spec d))
       \<and> label_of (dep_annotations (dep_spec d)) AnnotationDiscoveryName = []
       \<and> label_of (dep_annotations (dep_spec d)) AnnotationDiscoveryEnabled = []
       \<and> m_name (dep_meta d) = ''mcp-provider-'' @ s_name s \<and> m_namespace (dep_meta d) = s_ns s"
proof (cases "sp_image (s_spec s) = []")
  case False
  then show ?thesis
    by (cases "sp_automount (s_spec s)")
      (auto simp: BuildDeploymentForMCPServer_def BuildPodForMCPServer_def Let_def buildContainer_def
        automountServiceAccountToken_def selector_satisfied no_discovery_annotation
        DeploymentName_def GetPodName_def mk_meta_def empty_meta_def)
qed (simp add: BuildDeploymentForMCPServer_def BuildPodForMCPServer_def)

text \<open>A spec that adds one capability still drops all others.\<close>
theorem container_security_overlay_witness:
  "map_of (containerSecurityContext (Some [(''capabilities'', JObj [(''add'', JArr [JStr ''NET_BIND_SERVICE''])])]))
     ''capabilities'' = Some (JObj [(''add'', JArr [JStr ''NET_BIND_SERVICE'']), (''drop'', drop_all)])"
  using container_security_overlay [of "[(''capabilities'', JObj [(''add'', JArr [JStr ''NET_BIND_SERVICE''])])]"
      "''capabilities''"]
  by (simp add: drops_nothing_def with_drop_all_def)

end
