(* ===== verification/Registration.thy ===== *)
theory Registration
  imports HangarClient Enforcement ProviderBuild
begin

text \<open>
  \<open>internal/controller/mcpserver_registration.go\<close> and
  \<open>mcpserver_peer_identity.go\<close>: the Leases that claim server names in core, and
  the registration of an MCPServer with core under its claim.  The functions take
  the MCPServer \<open>s\<close> they read metadata and spec from; its status is the state.
  The properties are about the order of effects: nothing in core changes before
  this MCPServer holds the claim on the name, and a key list crosses only a
  protected channel to a core that checks it.
\<close>

section \<open>The reconciler and its vocabulary\<close>

text \<open>\<open>MCPServerReconciler\<close>: the client and the claims may be nil; the DNS
  configuration is the package state of networkpolicy.\<close>
record server_reconciler =
  sr_client :: "client option"
  sr_claims :: "string option"
  sr_probe :: "probe_config option"
  sr_ingress :: ingress_config
  sr_dns :: dns_config

type_synonym 'a srv = "(mcp_server, server_status, 'a) prog"

definition ConditionReady :: string where "ConditionReady = ''Ready''"
definition ConditionProgressing :: string where "ConditionProgressing = ''Progressing''"
definition ConditionDegraded :: string where "ConditionDegraded = ''Degraded''"
definition ConditionAvailable :: string where "ConditionAvailable = ''Available''"
definition ConditionNetworkPolicyApplied :: string where
  "ConditionNetworkPolicyApplied = ''NetworkPolicyApplied''"
definition ConditionViolationDetected :: string where
  "ConditionViolationDetected = ''ViolationDetected''"
definition ConditionProviderIngressApplied :: string where
  "ConditionProviderIngressApplied = ''ProviderIngressApplied''"

lemmas condition_names = ConditionReady_def ConditionProgressing_def ConditionDegraded_def
  ConditionAvailable_def ConditionNetworkPolicyApplied_def ConditionViolationDetected_def
  ConditionProviderIngressApplied_def

definition defaultRequeueAfter :: int where "defaultRequeueAfter = seconds 30"
definition finalizerName :: string where "finalizerName = ''mcp-hangar.io/finalizer''"
definition errorRequeueAfter :: int where "errorRequeueAfter = seconds 10"
definition readyRequeueAfter :: int where "readyRequeueAfter = seconds 300"
definition coldRequeueAfter :: int where "coldRequeueAfter = seconds 600"

lemmas requeue_defs = defaultRequeueAfter_def errorRequeueAfter_def readyRequeueAfter_def
  coldRequeueAfter_def seconds_def

definition ReasonUpdated :: string where "ReasonUpdated = ''Updated''"
definition ReasonFailed :: string where "ReasonFailed = ''Failed''"
definition ReasonDeregistrationSkipped :: string where
  "ReasonDeregistrationSkipped = ''DeregistrationSkipped''"
definition ReasonRegistered :: string where "ReasonRegistered = ''Registered''"
definition ReasonEndpointNotTrusted :: string where "ReasonEndpointNotTrusted = ''EndpointNotTrusted''"
definition ReasonPeerIdentityNotCarried :: string where
  "ReasonPeerIdentityNotCarried = ''PeerIdentityNotCarried''"
definition ReasonRegistrationForbidden :: string where
  "ReasonRegistrationForbidden = ''RegistrationForbidden''"
definition ReasonNameTaken :: string where "ReasonNameTaken = ''NameTaken''"
definition ReasonStartFailed :: string where "ReasonStartFailed = ''StartFailed''"
definition ReasonRegistrationFailed :: string where "ReasonRegistrationFailed = ''RegistrationFailed''"

definition upd_status :: "(server_status \<Rightarrow> server_status) \<Rightarrow> unit srv" where
  "upd_status f = upd_obj (\<lambda>s. s\<lparr>s_status := f (s_status s)\<rparr>)"

definition the_conditions :: "condition list srv" where
  "the_conditions = do { s \<leftarrow> the_obj; ret (ss_conditions (s_status s)) }"

definition setServerCondition :: "'e env_scheme \<Rightarrow> string \<Rightarrow> cond_status \<Rightarrow> string \<Rightarrow> string \<Rightarrow> unit srv" where
  "setServerCondition E ty status reason msg = do {
     t \<leftarrow> now E;
     upd_obj (\<lambda>s. s\<lparr>s_status := (s_status s)\<lparr>ss_conditions :=
       upsertCondition E t (ss_conditions (s_status s)) (m_generation (s_meta s)) ty status reason msg\<rparr>\<rparr>) }"

text \<open>The label values of the state metric.\<close>
definition state_name :: "server_state \<Rightarrow> string" where
  "state_name x = (case x of StateUnset \<Rightarrow> [] | Cold \<Rightarrow> ''Cold'' | Initializing \<Rightarrow> ''Initializing''
     | Ready \<Rightarrow> ''Ready'' | Degraded \<Rightarrow> ''Degraded'' | Dead \<Rightarrow> ''Dead'')"

text \<open>\<open>metrics.SetMCPServerState\<close>.\<close>
definition SetMCPServerState :: "mcp_server \<Rightarrow> server_state \<Rightarrow> unit srv" where
  "SetMCPServerState s x = emit (Metric ''provider_state'' [s_ns s, s_name s, state_name x])"

section \<open>Claims\<close>

definition claimPrefix :: string where "claimPrefix = ''mcp-server-''"
definition claimEndpointAnnotation :: string where
  "claimEndpointAnnotation = ''mcp-hangar.io/registered-endpoint''"
definition claimStartedAnnotation :: string where "claimStartedAnnotation = ''mcp-hangar.io/started''"
definition claimTLSAnnotation :: string where "claimTLSAnnotation = ''mcp-hangar.io/registered-tls''"
definition claimEndpointDiscovered :: string where "claimEndpointDiscovered = ''discovered''"

definition claimHolder :: "mcp_server \<Rightarrow> string" where
  "claimHolder s = s_ns s @ ''/'' @ s_name s @ ''/'' @ m_uid (s_meta s)"

definition holds :: "lease option \<Rightarrow> mcp_server \<Rightarrow> bool" where
  "holds l s = (case l of None \<Rightarrow> False | Some le \<Rightarrow> le_holder le = Some (claimHolder s))"

definition claim_get :: "'e env_scheme \<Rightarrow> string \<Rightarrow> string \<Rightarrow> (gerr + lease option) srv" where
  "claim_get E cns n = do {
     r \<leftarrow> fetch LeaseKind (get_lease E) cns (claimPrefix @ n);
     ret (case r of Inl e \<Rightarrow> (if is_not_found e then Inr None else Inl e) | Inr l \<Rightarrow> Inr (Some l)) }"

definition new_claim :: "string \<Rightarrow> mcp_server \<Rightarrow> string \<Rightarrow> lease" where
  "new_claim cns s endpoint = \<lparr>
     le_meta = mk_meta (claimPrefix @ s_name s) cns [(LabelManagedBy, DefaultManagerName)]
       [(claimEndpointAnnotation, endpoint)],
     le_holder = Some (claimHolder s)\<rparr>"

definition claim_take :: "'e env_scheme \<Rightarrow> string \<Rightarrow> mcp_server \<Rightarrow> string \<Rightarrow> (gerr + lease option) srv" where
  "claim_take E cns s endpoint = do {
     err \<leftarrow> perform E (Create (KLease (new_claim cns s endpoint)));
     (case err of
        None \<Rightarrow> ret (Inr (Some (new_claim cns s endpoint)))
      | Some e \<Rightarrow>
         (if is_already_exists e then do {
            g \<leftarrow> claim_get E cns (s_name s);
            ret (case g of Inl e2 \<Rightarrow> Inl e2
                 | Inr ex \<Rightarrow> (if holds ex s then Inr ex else Inr None)) }
          else ret (Inl e))) }"

text \<open>\<open>annotate\<close> changes the lease the caller holds, whether or not the update is
  accepted.\<close>
definition annotated :: "lease \<Rightarrow> labels \<Rightarrow> lease" where
  "annotated l kv = l\<lparr>le_meta := (le_meta l)\<lparr>m_annotations :=
     fold (\<lambda>(k, v) m. amap_put k v m) kv (m_annotations (le_meta l))\<rparr>\<rparr>"

definition claim_annotate :: "'e env_scheme \<Rightarrow> lease \<Rightarrow> labels \<Rightarrow> (lease \<times> gerr option) srv" where
  "claim_annotate E l kv = do {
     err \<leftarrow> perform E (Update (KLease (annotated l kv)));
     ret (annotated l kv, err) }"

definition claim_release :: "'e env_scheme \<Rightarrow> lease \<Rightarrow> (gerr option) srv" where
  "claim_release E l = do {
     err \<leftarrow> perform E (Delete LeaseKind (m_namespace (le_meta l)) (m_name (le_meta l)));
     ret (case err of None \<Rightarrow> None | Some e \<Rightarrow> ignore_not_found e) }"

definition claim_ann :: "lease \<Rightarrow> string \<Rightarrow> string" where
  "claim_ann l k = label_of (m_annotations (le_meta l)) k"

definition holderName :: "lease \<Rightarrow> string" where
  "holderName l = (case le_holder l of
     None \<Rightarrow> ''(unknown)''
   | Some h \<Rightarrow> (case cut_last CHR ''/'' h of
        None \<Rightarrow> h | Some (a, b) \<Rightarrow> (if a = [] then h else a)))"

section \<open>Peer identity\<close>

definition keyPinned :: "mcp_server \<Rightarrow> bool" where
  "keyPinned s = (case sp_tls (s_spec s) of None \<Rightarrow> False | Some t \<Rightarrow> tls_peer t \<noteq> None)"

text \<open>A duration in seconds as a JSON number.\<close>
definition seconds_json :: "int \<Rightarrow> json" where
  "seconds_json d = (if d mod 1000000000 = 0 then JInt (d div 1000000000) else JNum (itoa d @ ''e-9''))"

definition coreTLS :: "mcp_server \<Rightarrow> json option" where
  "coreTLS s = (case sp_tls (s_spec s) of
     None \<Rightarrow> None
   | Some t \<Rightarrow> (case tls_peer t of
        None \<Rightarrow> None
      | Some p \<Rightarrow> Some (JObj (
          [(''peer_identity'', JObj ([(''key_ref'', JStr (pi_key_ref p)),
              (''spki_sha256'', JArr (map JStr (pi_spki p)))]
             @ (if pi_issuance p \<noteq> [] then [(''issuance'', JStr (pi_issuance p))] else [])))]
          @ (case tls_max_age t of None \<Rightarrow> [] | Some d \<Rightarrow> [(''max_connection_age'', seconds_json d)])))))"

definition tlsDigest :: "'e klib_scheme \<Rightarrow> json option \<Rightarrow> string" where
  "tlsDigest L tls = (case tls of None \<Rightarrow> [] | Some j \<Rightarrow> json_digest L j)"

definition declares_issuance :: "mcp_server \<Rightarrow> bool" where
  "declares_issuance s = (case sp_tls (s_spec s) of None \<Rightarrow> False
     | Some t \<Rightarrow> (case tls_peer t of None \<Rightarrow> False | Some p \<Rightarrow> pi_issuance p \<noteq> []))"

definition msg_https :: string where
  "msg_https = ''a key list is delivered to core only over https; set hangar.url to an https:// address with hangar.tls.ca''"
definition msg_no_capability :: string where
  "msg_no_capability = ''core does not advertise the peer_identity capability, so it would ignore the key list and serve the server unchecked; upgrade core''"
definition msg_no_issuance :: string where
  "msg_no_issuance = ''spec.tls.peerIdentity.issuance is declared, and core does not advertise the declared_key_issuance capability, so it would refuse the key list; upgrade core or remove issuance''"

text \<open>\<open>peerIdentityRefusal\<close>: the reason and message, an empty reason when the
  server may be registered, or the error of asking core.\<close>
definition peerIdentityRefusal ::
  "'e env_scheme \<Rightarrow> client \<Rightarrow> mcp_server \<Rightarrow> (gerr + string \<times> string) srv" where
  "peerIdentityRefusal E c s =
     (if \<not> OverHTTPS c then ret (Inr (ReasonPeerIdentityNotCarried, msg_https))
      else do {
        r \<leftarrow> Capabilities E c;
        ret (case r of
           Inl e \<Rightarrow> Inl e
         | Inr caps \<Rightarrow> Inr
            (if PeerIdentityCapability \<notin> set caps then (ReasonPeerIdentityNotCarried, msg_no_capability)
             else if declares_issuance s \<and> DeclaredKeyIssuanceCapability \<notin> set caps
               then (ReasonPeerIdentityNotCarried, msg_no_issuance)
             else ([], []))) })"

definition annotationDiscoveredAs :: string where
  "annotationDiscoveredAs = ''mcp-hangar.io/discovered-as''"

definition discoveredAs :: "deployment \<Rightarrow> string" where
  "discoveredAs d = (let n = label_of (dep_annotations (dep_spec d)) AnnotationDiscoveryName in
     if n \<noteq> [] then n else label_of (m_annotations (dep_meta d)) annotationDiscoveredAs)"

definition discoveredFromItsOwnPod :: "'e env_scheme \<Rightarrow> client \<Rightarrow> mcp_server \<Rightarrow> bool srv" where
  "discoveredFromItsOwnPod E c s = do {
     r \<leftarrow> fetch DeployKind (get_deploy E) (s_ns s) (DeploymentName s);
     (case r of
        Inl e \<Rightarrow> ret False
      | Inr d \<Rightarrow>
         (if \<not> is_controlled_by E (dep_meta d) (s_meta s) then ret False
          else if discoveredAs d \<noteq> s_name s then ret False
          else do {
            p \<leftarrow> GetMCPServerProvenance E c (s_name s);
            ret (case p of Inl e \<Rightarrow> False | Inr v \<Rightarrow> v = [] \<or> v = ''discovery'') })) }"

section \<open>Registration\<close>

text \<open>\<open>done\<close>, the requeue interval and the error.\<close>
type_synonym reg_result = "bool \<times> outcome"

definition done_with :: "gerr option \<Rightarrow> reg_result" where
  "done_with e = (True, 0, e)"

definition not_done :: reg_result where
  "not_done = (False, 0, None)"

definition writeRegistrationStatus :: "'e env_scheme \<Rightarrow> string \<Rightarrow> string \<Rightarrow> (gerr option) srv" where
  "writeRegistrationStatus E reason msg = do {
     upd_obj (\<lambda>s. s\<lparr>s_status := (s_status s)\<lparr>ss_state := Degraded,
        ss_endpoint := sp_endpoint (s_spec s)\<rparr>\<rparr>);
     cs \<leftarrow> the_conditions;
     (if conditionChanges E cs ConditionDegraded CondTrue reason then event Warning reason msg else ret ());
     setServerCondition E ConditionDegraded CondTrue reason msg;
     s \<leftarrow> the_obj;
     SetMCPServerState s (ss_state (s_status s));
     server_write E }"

definition report :: "'e env_scheme \<Rightarrow> string \<Rightarrow> string \<Rightarrow> reg_result srv" where
  "report E reason msg = do { e \<leftarrow> writeRegistrationStatus E reason msg; ret (done_with e) }"

definition forbiddenMessage :: string where
  "forbiddenMessage = ''core refused the operator's API key: registering a server needs mcp_servers:write, starting and deregistering it mcp_servers:lifecycle, which provider-admin does not have''"
definition msg_key_forbidden :: string where
  "msg_key_forbidden = ''core refused the operator's API key: changing a key-pinned server needs mcp_servers:peer_identity''"
definition msg_not_trusted :: "string \<Rightarrow> string \<Rightarrow> string" where
  "msg_not_trusted endpoint tail = ''core refused '' @ endpoint
     @ '' as a private address it does not trust; add its network to ssrf.trusted_networks in core's config'' @ tail"
definition msg_name_claimed :: "mcp_server \<Rightarrow> lease \<Rightarrow> string" where
  "msg_name_claimed s l = ''core's server name '' @ quote (s_name s) @ '' is registered for MCPServer ''
     @ holderName l @ ''; core keys servers by name across the cluster, so rename this one''"
definition msg_why_key :: string where
  "msg_why_key = ''; its key list is not this MCPServer's''"
definition msg_why_pod :: string where
  "msg_why_pod = ''; it does not reach this MCPServer's pod''"
definition msg_moving :: "mcp_server \<Rightarrow> string" where
  "msg_moving s = ''Moving '' @ quote (s_name s)
     @ '', which core discovered from this MCPServer's pod, to the operator's registration''"
definition msg_delivered :: "mcp_server \<Rightarrow> string" where
  "msg_delivered s = ''Delivered '' @ quote (s_name s) @ '''s endpoint and key list to core''"
definition msg_registered :: "mcp_server \<Rightarrow> string \<Rightarrow> string" where
  "msg_registered s endpoint = ''Registered '' @ quote (s_name s) @ '' with core at '' @ endpoint"
definition msg_moved :: "mcp_server \<Rightarrow> string \<Rightarrow> string \<Rightarrow> string" where
  "msg_moved s was endpoint = ''Removed '' @ quote (s_name s)
     @ '' from core to register it again: its endpoint changed from '' @ was @ '' to '' @ endpoint"
definition msg_removed :: "mcp_server \<Rightarrow> string" where
  "msg_removed s = ''Removed '' @ quote (s_name s) @ '' from core while its pod has no address''"
definition msg_left :: "mcp_server \<Rightarrow> string" where
  "msg_left s = ''Left '' @ quote (s_name s)
     @ '' in core: this MCPServer did not register it, so it only mirrored a server declared elsewhere''"
definition msg_stays :: "mcp_server \<Rightarrow> gerr \<Rightarrow> string" where
  "msg_stays s e = ''Could not remove '' @ quote (s_name s)
     @ '' from core; it stays there until removed by hand: '' @ err_text e"
definition msg_unreleased :: "mcp_server \<Rightarrow> lease \<Rightarrow> gerr \<Rightarrow> string" where
  "msg_unreleased s l e = ''Could not release the claim '' @ m_namespace (le_meta l) @ ''/''
     @ m_name (le_meta l) @ '' on '' @ quote (s_name s)
     @ ''; delete it by hand to reuse the name: '' @ err_text e"
definition msg_start_failed :: "lease \<Rightarrow> gerr \<Rightarrow> string" where
  "msg_start_failed l e = ''registered with core, which could not start it at ''
     @ claim_ann l claimEndpointAnnotation @ '': '' @ err_text e"
definition msg_name_held :: "mcp_server \<Rightarrow> string \<Rightarrow> string" where
  "msg_name_held s why = ''core already holds a server named '' @ quote (s_name s)
     @ '' that this operator did not register'' @ why"

definition start :: "'e env_scheme \<Rightarrow> client \<Rightarrow> mcp_server \<Rightarrow> lease \<Rightarrow> reg_result srv" where
  "start E c s claim = do {
     r \<leftarrow> StartMCPServer E c (s_name s);
     (case r of
        Inr _ \<Rightarrow> do {
          (l, e) \<leftarrow> claim_annotate E claim [(claimStartedAnnotation, str_true)];
          ret (case e of Some x \<Rightarrow> done_with (Some x) | None \<Rightarrow> not_done) }
      | Inl e \<Rightarrow>
         (if IsForbidden e then report E ReasonRegistrationForbidden forbiddenMessage
          else report E ReasonStartFailed (msg_start_failed claim e))) }"

definition register_claimed ::
  "'e env_scheme \<Rightarrow> client \<Rightarrow> mcp_server \<Rightarrow> lease \<Rightarrow> string \<Rightarrow> reg_result srv" where
  "register_claimed E c s claim endpoint =
     (if coreTLS s = None \<and> endpoint = [] then ret not_done
      else do {
        r \<leftarrow> (case coreTLS s of
               Some tls \<Rightarrow> RegisterKeyPinnedMCPServer E c (s_name s) endpoint tls
             | None \<Rightarrow> RegisterRemoteMCPServer E c (s_name s) endpoint);
        (case r of
           Inr _ \<Rightarrow> do {
             event Normal ReasonRegistered (msg_registered s endpoint);
             (l, e) \<leftarrow> claim_annotate E claim [(claimTLSAnnotation, tlsDigest E (coreTLS s))];
             (case e of
                Some x \<Rightarrow> ret (done_with (Some x))
              | None \<Rightarrow> (if endpoint = [] then ret not_done else start E c s l)) }
         | Inl e \<Rightarrow>
            (if IsAlreadyRegistered e then do {
               x \<leftarrow> claim_release E claim;
               (case x of
                  Some y \<Rightarrow> ret (done_with (Some y))
                | None \<Rightarrow> report E ReasonNameTaken (msg_name_held s [])) }
             else if IsEndpointNotTrusted e then
               report E ReasonEndpointNotTrusted (msg_not_trusted endpoint '' (core 2.27.0 or newer)'')
             else if IsForbidden e then report E ReasonRegistrationForbidden forbiddenMessage
             else report E ReasonRegistrationFailed (err_text e))) })"

definition register ::
  "'e env_scheme \<Rightarrow> client \<Rightarrow> string \<Rightarrow> mcp_server \<Rightarrow> lease option \<Rightarrow> string \<Rightarrow> reg_result srv" where
  "register E c cns s claim endpoint = (case claim of
     Some l \<Rightarrow> register_claimed E c s l endpoint
   | None \<Rightarrow> do {
       t \<leftarrow> claim_take E cns s endpoint;
       (case t of
          Inl e \<Rightarrow> ret (done_with (Some e))
        | Inr None \<Rightarrow> ret (True, errorRequeueAfter, None)
        | Inr (Some l) \<Rightarrow> register_claimed E c s l endpoint) })"

text \<open>\<open>deliverConnection\<close>: also the claim as its annotations now are.\<close>
definition deliverConnection ::
  "'e env_scheme \<Rightarrow> client \<Rightarrow> mcp_server \<Rightarrow> lease \<Rightarrow> json option \<Rightarrow> string \<Rightarrow> (reg_result \<times> lease) srv" where
  "deliverConnection E c s claim tls endpoint = do {
     r \<leftarrow> UpdateMCPServerConnection E c (s_name s) endpoint tls;
     (if (case r of Inr _ \<Rightarrow> True | Inl e \<Rightarrow> IsNotRegistered e) then do {
        (l, e) \<leftarrow> claim_annotate E claim
          [(claimEndpointAnnotation, endpoint), (claimTLSAnnotation, tlsDigest E (coreTLS s))];
        (case e of
           Some x \<Rightarrow> ret (done_with (Some x), l)
         | None \<Rightarrow> do {
             (case r of
                Inr _ \<Rightarrow> event Normal ReasonUpdated (msg_delivered s)
              | Inl _ \<Rightarrow> ret ());
             ret (not_done, l) }) }
      else (case r of
        Inr _ \<Rightarrow> ret (not_done, claim)
      | Inl e \<Rightarrow>
         (if IsEndpointNotTrusted e then do {
            x \<leftarrow> report E ReasonEndpointNotTrusted (msg_not_trusted endpoint []); ret (x, claim) }
          else if IsForbidden e \<and> tls = None then do {
            x \<leftarrow> report E ReasonRegistrationForbidden forbiddenMessage; ret (x, claim) }
          else if IsForbidden e then do {
            x \<leftarrow> report E ReasonRegistrationForbidden msg_key_forbidden; ret (x, claim) }
          else do {
            x \<leftarrow> writeRegistrationStatus E ReasonRegistrationFailed (err_text e);
            ret ((True, errorRequeueAfter, x), claim) }))) }"

definition moveDiscovered ::
  "'e env_scheme \<Rightarrow> client \<Rightarrow> string \<Rightarrow> mcp_server \<Rightarrow> string \<Rightarrow> reg_result srv" where
  "moveDiscovered E c cns s endpoint = do {
     t \<leftarrow> claim_take E cns s claimEndpointDiscovered;
     (case t of
        Inl e \<Rightarrow> ret (True, errorRequeueAfter, Some e)
      | Inr None \<Rightarrow> ret (True, errorRequeueAfter, None)
      | Inr (Some l) \<Rightarrow> do {
          event Normal ReasonRegistered (msg_moving s);
          (x, l2) \<leftarrow> deliverConnection E c s l (coreTLS s) endpoint;
          ret x }) }"

text \<open>The steps of \<open>registration\<close>.  Each returns the result the function returns
  with, or the claim with which it goes on.\<close>

definition reg_refuse ::
  "'e env_scheme \<Rightarrow> client \<Rightarrow> mcp_server \<Rightarrow> lease option \<Rightarrow> (reg_result + unit) srv" where
  "reg_refuse E c s claim =
     (if \<not> keyPinned s then ret (Inr ())
      else do {
        r \<leftarrow> peerIdentityRefusal E c s;
        (case r of
           Inl e \<Rightarrow> ret (Inl (done_with (Some e)))
         | Inr (reason, msg) \<Rightarrow>
            (if reason = [] then ret (Inr ())
             else (case claim of
                None \<Rightarrow> do { x \<leftarrow> report E reason msg; ret (Inl x) }
              | Some l \<Rightarrow> do {
                  d \<leftarrow> DeregisterMCPServer E c (s_name s);
                  (case d of
                     Inl e \<Rightarrow> ret (Inl (done_with (Some e)))
                   | Inr _ \<Rightarrow> do {
                       x \<leftarrow> claim_release E l;
                       (case x of
                          Some e \<Rightarrow> ret (Inl (done_with (Some e)))
                        | None \<Rightarrow> do { y \<leftarrow> report E reason msg; ret (Inl y) }) }) }))) })"

text \<open>The key-pinned change in place; the \<open>tls\<close> it goes on with is not nil.\<close>
definition reg_deliver ::
  "'e env_scheme \<Rightarrow> client \<Rightarrow> mcp_server \<Rightarrow> lease option \<Rightarrow> string
     \<Rightarrow> (reg_result + lease option \<times> json option) srv" where
  "reg_deliver E c s claim endpoint = (let tls = coreTLS s in case claim of
     None \<Rightarrow> ret (Inr (None, tls))
   | Some l \<Rightarrow>
      (if (tls \<noteq> None \<or> claim_ann l claimTLSAnnotation \<noteq> [])
          \<and> (claim_ann l claimEndpointAnnotation \<noteq> endpoint
             \<or> claim_ann l claimTLSAnnotation \<noteq> tlsDigest E tls)
       then do {
         (x, l2) \<leftarrow> deliverConnection E c s l (case tls of None \<Rightarrow> Some (JObj []) | Some t \<Rightarrow> Some t) endpoint;
         (if fst x \<or> snd (snd x) \<noteq> None then ret (Inl x)
          else ret (Inr (Some l2, case tls of None \<Rightarrow> Some (JObj []) | Some t \<Rightarrow> Some t))) }
       else ret (Inr (claim, tls))))"

definition reg_endpoint ::
  "'e env_scheme \<Rightarrow> client \<Rightarrow> mcp_server \<Rightarrow> lease option \<Rightarrow> json option \<Rightarrow> string
     \<Rightarrow> (reg_result + lease option) srv" where
  "reg_endpoint E c s claim tls endpoint = (case claim of
     None \<Rightarrow> ret (Inr None)
   | Some l \<Rightarrow>
      (if claim_ann l claimTLSAnnotation = [] \<and> tls = None
          \<and> claim_ann l claimEndpointAnnotation \<noteq> endpoint
       then (let was = claim_ann l claimEndpointAnnotation in do {
         d \<leftarrow> (if was \<noteq> [] then DeregisterMCPServer E c (s_name s) else ret (Inr ()));
         (case d of
            Inl e \<Rightarrow> ret (Inl (done_with (Some e)))
          | Inr _ \<Rightarrow> do {
              (if was \<noteq> [] \<and> endpoint \<noteq> [] then
                 event Normal ReasonUpdated (msg_moved s was endpoint)
               else if was \<noteq> [] then
                 event Normal ReasonUpdated (msg_removed s)
               else ret ());
              (l2, e) \<leftarrow> claim_annotate E l
                [(claimEndpointAnnotation, endpoint), (claimStartedAnnotation, ''false'')];
              (case e of Some x \<Rightarrow> ret (Inl (done_with (Some x))) | None \<Rightarrow> ret (Inr (Some l2))) }) })
       else ret (Inr claim)))"

definition reg_core ::
  "'e env_scheme \<Rightarrow> client \<Rightarrow> string \<Rightarrow> mcp_server \<Rightarrow> lease option \<Rightarrow> string \<Rightarrow> reg_result srv" where
  "reg_core E c cns s claim endpoint = do {
     h \<leftarrow> GetMCPServerHealth E c (s_name s) (s_ns s);
     (case h of
        Inl e \<Rightarrow> (if IsNotRegistered e then register E c cns s claim endpoint else ret not_done)
      | Inr _ \<Rightarrow>
         (case claim of
            None \<Rightarrow> do {
              own \<leftarrow> (if IsContainerMode s then discoveredFromItsOwnPod E c s else ret False);
              (if own then moveDiscovered E c cns s endpoint
               else if keyPinned s \<or> IsContainerMode s then
                 report E ReasonNameTaken (msg_name_held s
                   (if keyPinned s then msg_why_key else msg_why_pod))
               else ret not_done) }
          | Some l \<Rightarrow>
             (if claim_ann l claimStartedAnnotation \<noteq> str_true \<and> endpoint \<noteq> [] then start E c s l
              else ret not_done))) }"

definition registration ::
  "'e env_scheme \<Rightarrow> server_reconciler \<Rightarrow> client \<Rightarrow> mcp_server \<Rightarrow> string \<Rightarrow> reg_result srv" where
  "registration E R c s endpoint = (case sr_claims R of
     None \<Rightarrow> ret not_done
   | Some cns \<Rightarrow> do {
       g \<leftarrow> claim_get E cns (s_name s);
       (case g of
          Inl e \<Rightarrow> ret (done_with (Some e))
        | Inr claim \<Rightarrow>
           (if claim \<noteq> None \<and> \<not> holds claim s then
              report E ReasonNameTaken (msg_name_claimed s (the claim))
            else do {
              a \<leftarrow> reg_refuse E c s claim;
              (case a of
                 Inl x \<Rightarrow> ret x
               | Inr _ \<Rightarrow> do {
                   b \<leftarrow> reg_deliver E c s claim endpoint;
                   (case b of
                      Inl x \<Rightarrow> ret x
                    | Inr (claim2, tls) \<Rightarrow> do {
                        d \<leftarrow> reg_endpoint E c s claim2 tls endpoint;
                        (case d of
                           Inl x \<Rightarrow> ret x
                         | Inr claim3 \<Rightarrow> reg_core E c cns s claim3 endpoint) }) }) })) })"

definition registrationRequeue :: "'e klib_scheme \<Rightarrow> condition list \<Rightarrow> int" where
  "registrationRequeue L cs = (case find_condition L cs ConditionDegraded of
     Some k \<Rightarrow> (if c_reason k = ReasonStartFailed then errorRequeueAfter else readyRequeueAfter)
   | None \<Rightarrow> readyRequeueAfter)"

definition reconcileRegistration ::
  "'e env_scheme \<Rightarrow> server_reconciler \<Rightarrow> client \<Rightarrow> mcp_server \<Rightarrow> reg_result srv" where
  "reconcileRegistration E R c s = do {
     (finished, after, err) \<leftarrow> registration E R c s (sp_endpoint (s_spec s));
     (if finished \<and> err = None \<and> after = 0 then do {
        cs \<leftarrow> the_conditions;
        ret (finished, registrationRequeue E cs, err) }
      else ret (finished, after, err)) }"

definition deregisterOwned ::
  "'e env_scheme \<Rightarrow> server_reconciler \<Rightarrow> client \<Rightarrow> mcp_server \<Rightarrow> (gerr option) srv" where
  "deregisterOwned E R c s = do {
     g \<leftarrow> (case sr_claims R of None \<Rightarrow> ret (Inr None) | Some cns \<Rightarrow> claim_get E cns (s_name s));
     (case g of
        Inl e \<Rightarrow> ret (Some e)
      | Inr claim \<Rightarrow>
         (if \<not> holds claim s then do {
            event Normal ReasonDeregistrationSkipped (msg_left s);
            ret None }
          else do {
            d \<leftarrow> DeregisterMCPServer E c (s_name s);
            (case d of
               Inl e \<Rightarrow> event Warning ReasonFailed (msg_stays s e)
             | Inr _ \<Rightarrow> ret ());
            x \<leftarrow> claim_release E (the claim);
            (case x of
               Some e \<Rightarrow> event Warning ReasonFailed (msg_unreleased s (the claim) e)
             | None \<Rightarrow> ret ());
            ret None })) }"

section \<open>Which effects the steps have\<close>

text \<open>A request that can change core, and what shows that this MCPServer holds the
  claim: a read of the Lease that names it, or a create of the Lease that the API
  server accepted, at or after position \<open>n\<close> of the history.\<close>
definition core_change :: "effect \<Rightarrow> bool" where
  "core_change e = (case e of Http rq \<Rightarrow> hq_method rq \<noteq> ''GET'' | _ \<Rightarrow> False)"

definition not_http :: "effect \<Rightarrow> bool" where
  "not_http e = (case e of Http _ \<Rightarrow> False | _ \<Rightarrow> True)"

definition claim_held :: "'e env_scheme \<Rightarrow> string \<Rightarrow> mcp_server \<Rightarrow> nat \<Rightarrow> history \<Rightarrow> bool" where
  "claim_held E cns s n l = (\<exists>i \<ge> n. i < length l \<and>
     ((l ! i = ReadObj LeaseKind cns (claimPrefix @ s_name s)
        \<and> (\<exists>le. get_lease E (take i l) cns (claimPrefix @ s_name s) = Inr le \<and> holds (Some le) s))
      \<or> (\<exists>le. l ! i = Create (KLease le) \<and> write_result E (take i l) (Create (KLease le)) = None
        \<and> holds (Some le) s \<and> m_name (le_meta le) = claimPrefix @ s_name s
        \<and> m_namespace (le_meta le) = cns)))"

lemma claim_held_append: "claim_held E cns s n l \<Longrightarrow> claim_held E cns s n (l @ l')"
  unfolding claim_held_def by (elim exE conjE, rule_tac x = i in exI) (auto simp: nth_append)

lemma claim_held_read:
  "n \<le> length l \<Longrightarrow> get_lease E l cns (claimPrefix @ s_name s) = Inr le \<Longrightarrow> holds (Some le) s \<Longrightarrow>
   claim_held E cns s n (l @ [ReadObj LeaseKind cns (claimPrefix @ s_name s)])"
  unfolding claim_held_def by (rule exI [of _ "length l"]) simp

lemma claim_held_create:
  "n \<le> length l \<Longrightarrow> write_result E l (Create (KLease (new_claim cns s ep))) = None \<Longrightarrow>
   claim_held E cns s n (l @ [Create (KLease (new_claim cns s ep))])"
  unfolding claim_held_def
  by (rule exI [of _ "length l"]) (simp add: new_claim_def holds_def mk_meta_def)

text \<open>Everything here only appends to the log; the reads of core change nothing.\<close>

lemma emits_srv [emits_intro]:
  "emits A (upd_status f)" "emits A the_conditions" "emits A (setServerCondition E ty st r m)"
  unfolding upd_status_def the_conditions_def setServerCondition_def by (intro emits_intro)+

lemma emits_state_metric [emits_intro]:
  "(\<And>n l. A (Metric n l)) \<Longrightarrow> emits A (SetMCPServerState s x)"
  unfolding SetMCPServerState_def by (intro emits_intro)

lemma emits_report [emits_intro]:
  assumes "\<And>t r m. A (Event t r m)" "\<And>n l. A (Metric n l)" "\<And>k. A (StatusPatch k)" "\<And>k. A (StatusUpdate k)"
  shows "emits A (writeRegistrationStatus E reason msg)" "emits A (report E reason msg)"
  unfolding report_def writeRegistrationStatus_def by (intro emits_intro assms)+

lemma emits_claims [emits_intro]:
  "(\<And>n. A (ReadObj LeaseKind cns n)) \<Longrightarrow> emits A (claim_get E cns m)"
  "(\<And>k. A (Update k)) \<Longrightarrow> emits A (claim_annotate E l kv)"
  "(\<And>ns n. A (Delete LeaseKind ns n)) \<Longrightarrow> emits A (claim_release E l)"
  "(\<And>k. A (Create k)) \<Longrightarrow> (\<And>n. A (ReadObj LeaseKind cns n)) \<Longrightarrow> emits A (claim_take E cns s ep)"
  unfolding claim_get_def claim_annotate_def claim_release_def claim_take_def
  by (intro emits_intro; assumption)+

abbreviation "grows m \<equiv> emits (\<lambda>e. True) m"

lemma grows_call [emits_intro]: "grows (call E c op meth url body answer)"
  by (rule emits_call) simp_all

lemma grows_registration [emits_intro]:
  "grows (start E c s l)" "grows (register_claimed E c s l ep)" "grows (register E c cns s cl ep)"
  "grows (deliverConnection E c s l tls ep)" "grows (moveDiscovered E c cns s ep)"
  "grows (peerIdentityRefusal E c s)" "grows (discoveredFromItsOwnPod E c s)"
  "grows (reg_refuse E c s cl)" "grows (reg_deliver E c s cl ep)" "grows (reg_endpoint E c s cl tls ep)"
  "grows (reg_core E c cns s cl ep)"
  unfolding reg_core_def reg_endpoint_def reg_deliver_def reg_refuse_def moveDiscovered_def
    deliverConnection_def register_def register_claimed_def start_def peerIdentityRefusal_def
    discoveredFromItsOwnPod_def client_defs Let_def
  by (intro emits_intro TrueI)+

abbreviation "quiet m \<equiv> emits (\<lambda>e. \<not> core_change e) m"

lemma quiet_get [emits_intro]: "quiet (call E c op ''GET'' url body answer)"
  by (rule emits_call) (simp_all add: core_change_def)

lemma quiet_steps:
  "quiet (report E reason msg)" "quiet (peerIdentityRefusal E c s)" "quiet (discoveredFromItsOwnPod E c s)"
  "quiet (claim_get E cns n)" "quiet (claim_take E cns s ep)" "quiet (reg_refuse E c s None)"
  unfolding peerIdentityRefusal_def discoveredFromItsOwnPod_def reg_refuse_def client_defs
  by (intro emits_intro; simp add: core_change_def)+

text \<open>Before the claim a step must be quiet; after it a step may do anything.\<close>

definition claim_first :: "'e env_scheme \<Rightarrow> string \<Rightarrow> mcp_server \<Rightarrow> nat \<Rightarrow> history \<Rightarrow> effect \<Rightarrow> bool" where
  "claim_first E cns s n l e = (core_change e \<longrightarrow> claim_held E cns s n l)"

lemma after_claim:
  assumes "grows m"
  shows "triple (claim_first E cns s n) (\<lambda>t. claim_held E cns s n (st_log t)) m (\<lambda>a t. True)"
  by (rule triple_post, rule triple_invariant [OF assms, where I = "claim_held E cns s n"])
    (simp_all add: claim_first_def claim_held_append)

lemma before_claim:
  assumes "quiet m"
  shows "triple (claim_first E cns s n) (\<lambda>t. n \<le> length (st_log t)) m (\<lambda>a t. n \<le> length (st_log t))"
  by (rule triple_invariant [OF assms, where I = "\<lambda>l. n \<le> length l"]) (simp_all add: claim_first_def)

lemma claim_get_held:
  "triple (claim_first E cns s n) (\<lambda>t. n \<le> length (st_log t)) (claim_get E cns (s_name s))
     (\<lambda>r t. n \<le> length (st_log t) \<and> (\<forall>l. r = Inr (Some l) \<and> holds (Some l) s \<longrightarrow> claim_held E cns s n (st_log t)))"
  unfolding claim_get_def
  by (rule triple_pre, (rule wp)+)
    (auto simp: claim_first_def core_change_def claim_held_read split: sum.splits if_splits)

lemma claim_take_held:
  "triple (claim_first E cns s n) (\<lambda>t. n \<le> length (st_log t)) (claim_take E cns s ep)
     (\<lambda>r t. (\<exists>l. r = Inr (Some l)) \<longrightarrow> claim_held E cns s n (st_log t))"
proof -
  have get: "triple (claim_first E cns s n) (\<lambda>t. n \<le> length (st_log t))
      (do { g \<leftarrow> claim_get E cns (s_name s);
            ret (case g of Inl e2 \<Rightarrow> Inl e2 | Inr ex \<Rightarrow> (if holds ex s then Inr ex else Inr None)) })
      (\<lambda>r t. (\<exists>l. r = Inr (Some l)) \<longrightarrow> claim_held E cns s n (st_log t))"
    by (rule triple_bind, rule claim_get_held, rule triple_pre, rule wp)
      (auto split: sum.splits if_splits)
  have branch: "triple (claim_first E cns s n)
     (\<lambda>t. n \<le> length (st_log t) \<and> (err = None \<longrightarrow> claim_held E cns s n (st_log t)))
     (case err of None \<Rightarrow> ret (Inr (Some (new_claim cns s ep)))
      | Some e \<Rightarrow> (if is_already_exists e then do {
            g \<leftarrow> claim_get E cns (s_name s);
            ret (case g of Inl e2 \<Rightarrow> Inl e2 | Inr ex \<Rightarrow> (if holds ex s then Inr ex else Inr None)) }
          else ret (Inl e)))
     (\<lambda>r t. (\<exists>l. r = Inr (Some l)) \<longrightarrow> claim_held E cns s n (st_log t))" for err
    by (cases err) (auto intro: triple_pre [OF triple_ret] triple_pre [OF get])
  show ?thesis unfolding claim_take_def
    by (rule triple_bind [OF triple_pre [OF triple_perform] branch])
      (auto simp: claim_first_def core_change_def claim_held_create)
qed

lemma register_claim_first:
  "triple (claim_first E cns s n)
     (\<lambda>t. n \<le> length (st_log t) \<and> (cl \<noteq> None \<longrightarrow> claim_held E cns s n (st_log t)))
     (register E c cns s cl ep) (\<lambda>a t. True)"
proof (cases cl)
  case None
  have "triple (claim_first E cns s n) (\<lambda>t. (\<exists>l. r = Inr (Some l)) \<longrightarrow> claim_held E cns s n (st_log t))
     (case r of Inl e \<Rightarrow> ret (done_with (Some e)) | Inr None \<Rightarrow> ret (True, errorRequeueAfter, None)
      | Inr (Some l) \<Rightarrow> register_claimed E c s l ep) (\<lambda>a t. True)" for r
    by (auto split: sum.splits option.splits
        intro: triple_pre [OF triple_ret] triple_pre [OF after_claim [OF grows_registration(2)]])
  then show ?thesis unfolding None register_def
    by (simp, intro triple_bind [OF triple_pre [OF claim_take_held]]) auto
next
  case (Some l)
  then show ?thesis unfolding register_def
    by (auto intro: triple_pre [OF after_claim [OF grows_registration(2)]])
qed

lemma moveDiscovered_claim_first:
  "triple (claim_first E cns s n) (\<lambda>t. n \<le> length (st_log t)) (moveDiscovered E c cns s ep) (\<lambda>a t. True)"
proof -
  let ?go = "\<lambda>l. do { event Normal ReasonRegistered (msg_moving s);
          (x, l2) \<leftarrow> deliverConnection E c s l (coreTLS s) ep; ret x }"
  have g: "grows (?go l)" for l by (intro emits_intro TrueI)
  have "triple (claim_first E cns s n) (\<lambda>t. (\<exists>l. r = Inr (Some l)) \<longrightarrow> claim_held E cns s n (st_log t))
     (case r of Inl e \<Rightarrow> ret (True, errorRequeueAfter, Some e)
      | Inr None \<Rightarrow> ret (True, errorRequeueAfter, None) | Inr (Some l) \<Rightarrow> ?go l) (\<lambda>a t. True)" for r
    by (auto split: sum.splits option.splits intro: triple_pre [OF triple_ret] triple_pre [OF after_claim [OF g]])
  then show ?thesis unfolding moveDiscovered_def by (rule triple_bind [OF claim_take_held])
qed

lemma reg_core_claim_first:
  "triple (claim_first E cns s n)
     (\<lambda>t. n \<le> length (st_log t) \<and> (cl \<noteq> None \<longrightarrow> claim_held E cns s n (st_log t)))
     (reg_core E c cns s cl ep) (\<lambda>a t. True)"
proof (cases cl)
  case (Some l)
  then show ?thesis by (auto intro: triple_pre [OF after_claim [OF grows_registration(11)]])
next
  case None
  have own: "triple (claim_first E cns s n) (\<lambda>t. n \<le> length (st_log t))
     (if IsContainerMode s then discoveredFromItsOwnPod E c s else ret False) (\<lambda>a t. n \<le> length (st_log t))"
    by (rule before_claim) (intro emits_intro quiet_steps)
  have rep: "triple (claim_first E cns s n) (\<lambda>t. n \<le> length (st_log t)) (report E r m) (\<lambda>a t. True)" for r m
    by (rule triple_post, rule before_claim, rule quiet_steps) simp
  have tail: "triple (claim_first E cns s n) (\<lambda>t. n \<le> length (st_log t))
     (if own then moveDiscovered E c cns s ep
      else if keyPinned s \<or> IsContainerMode s then report E r m else ret not_done) (\<lambda>a t. True)" for own r m
    by (auto intro: moveDiscovered_claim_first rep triple_pre [OF triple_ret])
  have health: "triple (claim_first E cns s n) (\<lambda>t. n \<le> length (st_log t))
     (GetMCPServerHealth E c (s_name s) (s_ns s)) (\<lambda>a t. n \<le> length (st_log t))"
    by (rule before_claim) (unfold client_defs, intro emits_intro)
  have body: "triple (claim_first E cns s n) (\<lambda>t. n \<le> length (st_log t))
     (case h of
        Inl e \<Rightarrow> (if IsNotRegistered e then register E c cns s None ep else ret not_done)
      | Inr (_ :: server_health) \<Rightarrow> do {
              own \<leftarrow> (if IsContainerMode s then discoveredFromItsOwnPod E c s else ret False);
              (if own then moveDiscovered E c cns s ep
               else if keyPinned s \<or> IsContainerMode s then
                 report E ReasonNameTaken (msg_name_held s (if keyPinned s then msg_why_key else msg_why_pod))
               else ret not_done) }) (\<lambda>a t. True)" for h
  proof (cases h)
    case (Inl e)
    then show ?thesis by (auto intro: triple_pre [OF register_claim_first] triple_pre [OF triple_ret])
  next
    case (Inr v)
    show ?thesis unfolding Inr sum.case by (rule triple_bind [OF own tail])
  qed
  show ?thesis unfolding None reg_core_def option.case
    by (rule triple_pre [OF triple_bind [OF health body]]) simp
qed

lemma registration_claim_first:
  assumes "sr_claims R = Some cns"
  shows "triple (claim_first E cns s n) (\<lambda>t. n \<le> length (st_log t)) (registration E R c s ep) (\<lambda>a t. True)"
proof -
  have rep: "triple (claim_first E cns s n) (\<lambda>t. n \<le> length (st_log t)) (report E r m) (\<lambda>a t. True)" for r m
    by (rule triple_post, rule before_claim, rule quiet_steps) simp
  let ?rest = "\<lambda>claim. do {
      a \<leftarrow> reg_refuse E c s claim;
      (case a of
         Inl x \<Rightarrow> ret x
       | Inr _ \<Rightarrow> do {
           b \<leftarrow> reg_deliver E c s claim ep;
           (case b of
              Inl x \<Rightarrow> ret x
            | Inr (claim2, tls) \<Rightarrow> do {
                d \<leftarrow> reg_endpoint E c s claim2 tls ep;
                (case d of Inl x \<Rightarrow> ret x | Inr claim3 \<Rightarrow> reg_core E c cns s claim3 ep) }) }) }"
  have held: "triple (claim_first E cns s n) (\<lambda>t. claim_held E cns s n (st_log t)) (?rest cl) (\<lambda>a t. True)" for cl
    by (rule after_claim) (intro emits_intro TrueI)
  have none: "triple (claim_first E cns s n) (\<lambda>t. n \<le> length (st_log t)) (?rest None) (\<lambda>a t. True)"
  proof -
    have step: "triple (claim_first E cns s n) (\<lambda>t. n \<le> length (st_log t))
       (case a of Inl x \<Rightarrow> ret x | Inr _ \<Rightarrow> reg_core E c cns s None ep) (\<lambda>a t. True)" for a
      by (auto split: sum.splits intro: triple_pre [OF triple_ret] triple_pre [OF reg_core_claim_first])
    have eq: "?rest None = do { a \<leftarrow> reg_refuse E c s None;
        (case a of Inl x \<Rightarrow> ret x | Inr _ \<Rightarrow> reg_core E c cns s None ep) }"
      unfolding reg_deliver_def reg_endpoint_def Let_def option.case bind_ret sum.case prod.case ..
    show ?thesis unfolding eq by (rule triple_bind [OF before_claim [OF quiet_steps(6)] step])
  qed
  show ?thesis unfolding registration_def assms option.case
  proof (rule triple_bind [OF claim_get_held])
    fix g :: "gerr + lease option"
    show "triple (claim_first E cns s n) (\<lambda>t. n \<le> length (st_log t)
         \<and> (\<forall>l. g = Inr (Some l) \<and> holds (Some l) s \<longrightarrow> claim_held E cns s n (st_log t)))
       (case g of Inl e \<Rightarrow> ret (done_with (Some e))
        | Inr claim \<Rightarrow> (if claim \<noteq> None \<and> \<not> holds claim s then
              report E ReasonNameTaken (msg_name_claimed s (the claim)) else ?rest claim)) (\<lambda>a t. True)"
    proof (cases g)
      case (Inr claim)
      then show ?thesis
      proof (cases claim)
        case None then show ?thesis using Inr by (auto intro: triple_pre [OF none])
      next
        case (Some l)
        then show ?thesis using Inr by (auto intro: triple_pre [OF rep] triple_pre [OF held])
      qed
    qed (auto intro: triple_pre [OF triple_ret])
  qed
qed

subsection \<open>Key lists\<close>

text \<open>A request whose body has a \<open>tls\<close> block with a peer identity.\<close>
definition carries_keys :: "effect \<Rightarrow> bool" where
  "carries_keys e = (case e of
     Http rq \<Rightarrow> (case hq_body rq of
        Some (JObj m) \<Rightarrow> (case map_of m ''tls'' of
            Some (JObj t) \<Rightarrow> map_of t ''peer_identity'' \<noteq> None
          | _ \<Rightarrow> False)
      | _ \<Rightarrow> False)
   | _ \<Rightarrow> False)"

text \<open>The channel is https, and since position \<open>n\<close> core answered that it checks keys.\<close>
definition checked :: "'e env_scheme \<Rightarrow> client \<Rightarrow> nat \<Rightarrow> history \<Rightarrow> bool" where
  "checked E c n l = (OverHTTPS c \<and> (\<exists>resp caps.
     answered E n (mk_request c ''GET'' (cl_base c @ ''/api/system/'') None) l resp
     \<and> answer_capabilities resp = Inr caps \<and> PeerIdentityCapability \<in> set caps))"

lemma checked_append: "checked E c n l \<Longrightarrow> checked E c n (l @ l')"
  unfolding checked_def using answered_append by blast

abbreviation "keyless m \<equiv> emits (\<lambda>e. \<not> carries_keys e) m"

lemma keyless_other [simp]:
  "\<not> carries_keys (ReadObj k ns n)" "\<not> carries_keys (Event t r m)" "\<not> carries_keys (Metric a b)"
  "\<not> carries_keys (StatusPatch ob)" "\<not> carries_keys (StatusUpdate ob)" "\<not> carries_keys (Create ob)"
  "\<not> carries_keys (Update ob)" "\<not> carries_keys (Delete k ns n)" "\<not> carries_keys (Sleep d)"
  by (simp_all add: carries_keys_def)

lemma keyless_call:
  assumes "\<And>rq. hq_body rq = body \<Longrightarrow> \<not> carries_keys (Http rq)"
  shows "keyless (call E c op meth url body answer)"
  by (rule emits_call) (simp_all add: assms)

lemma keyless_read [emits_intro]: "keyless (call E c op meth url None answer)"
  by (rule keyless_call) (simp add: carries_keys_def)

lemma keyless_register: "keyless (RegisterRemoteMCPServer E c n ep)"
  unfolding RegisterRemoteMCPServer_def registerRemote_def
  by (rule keyless_call) (simp add: carries_keys_def registration_body_def)

lemma keyless_update:
  "tls = None \<or> tls = Some (JObj []) \<Longrightarrow> keyless (UpdateMCPServerConnection E c n ep tls)"
  unfolding UpdateMCPServerConnection_def
  by (rule keyless_call) (auto simp: carries_keys_def update_body_def)

lemma keyless_refuse: "keyless (reg_refuse E c s cl)"
  unfolding reg_refuse_def peerIdentityRefusal_def Capabilities_def DeregisterMCPServer_def
  by (intro emits_intro) simp_all

lemma keyless_deliver:
  "tls = None \<or> tls = Some (JObj []) \<Longrightarrow> keyless (deliverConnection E c s l tls ep)"
  unfolding deliverConnection_def by (intro emits_intro keyless_update) simp_all

lemma coreTLS_unpinned: "\<not> keyPinned s \<Longrightarrow> coreTLS s = None"
  by (auto simp: keyPinned_def coreTLS_def split: option.split)

lemma keyless_unpinned:
  assumes "\<not> keyPinned s"
  shows "keyless (register E c cns s cl ep)" "keyless (moveDiscovered E c cns s ep)"
    "keyless (reg_deliver E c s cl ep)" "keyless (reg_endpoint E c s cl tls ep)"
  unfolding register_def register_claimed_def moveDiscovered_def reg_deliver_def reg_endpoint_def start_def
    StartMCPServer_def DeregisterMCPServer_def Let_def coreTLS_unpinned [OF assms] option.case
  by (intro emits_intro keyless_register keyless_deliver; simp)+

lemma keyless_core:
  "\<not> keyPinned s \<Longrightarrow> keyless (reg_core E c cns s cl ep)"
  unfolding reg_core_def start_def StartMCPServer_def discoveredFromItsOwnPod_def
    GetMCPServerHealth_def GetMCPServerProvenance_def
  by (intro emits_intro keyless_unpinned; simp)

definition keys_checked :: "'e env_scheme \<Rightarrow> client \<Rightarrow> nat \<Rightarrow> history \<Rightarrow> effect \<Rightarrow> bool" where
  "keys_checked E c n l e = (carries_keys e \<longrightarrow> checked E c n l)"

lemma after_check:
  assumes "grows m"
  shows "triple (keys_checked E c n) (\<lambda>t. checked E c n (st_log t)) m (\<lambda>a t. True)"
  by (rule triple_post, rule triple_invariant [OF assms, where I = "checked E c n"])
    (simp_all add: keys_checked_def checked_append)

lemma refusal_checks:
  "triple (\<lambda>l e. True) (\<lambda>t. n \<le> length (st_log t)) (peerIdentityRefusal E c s)
     (\<lambda>r t. \<forall>m. r = Inr ([], m) \<longrightarrow> checked E c n (st_log t))"
  unfolding peerIdentityRefusal_def Capabilities_def
proof (intro triple_cases triple_return triple_bind [OF call_answered])
  show "\<forall>m. (Inr (ReasonPeerIdentityNotCarried, msg_https) :: gerr + _) = Inr ([], m) \<longrightarrow> checked E c n (st_log t)"
    for t :: "(mcp_server, server_status, kept) st"
    by (simp add: ReasonPeerIdentityNotCarried_def)
qed (simp_all add: checked_def ReasonPeerIdentityNotCarried_def split: sum.splits if_splits, blast)

lemma refuse_checks:
  assumes "keyPinned s"
  shows "triple (keys_checked E c n) (\<lambda>t. n \<le> length (st_log t)) (reg_refuse E c s cl)
     (\<lambda>r t. r = Inr () \<longrightarrow> checked E c n (st_log t))"
proof -
  have inl: "triple (\<lambda>l e. True) (\<lambda>t. True) (State_Monad.bind m (\<lambda>x. ret (Inl (f x))))
     (\<lambda>r t. r = Inr () \<longrightarrow> checked E c n (st_log t))" if "grows m"
    for m :: "'b srv" and f :: "'b \<Rightarrow> reg_result"
    by (rule triple_bind [OF that]) (simp add: triple_return)
  have "triple (\<lambda>l e. True) (\<lambda>t. n \<le> length (st_log t)) (reg_refuse E c s cl)
     (\<lambda>r t. r = Inr () \<longrightarrow> checked E c n (st_log t))"
    unfolding reg_refuse_def using assms
  proof (simp, intro triple_bind [OF refusal_checks], goal_cases)
    case (1 r)
    have dereg: "triple (\<lambda>l e. True) (\<lambda>t. True) (do { d \<leftarrow> DeregisterMCPServer E c (s_name s);
        (case d of Inl e \<Rightarrow> ret (Inl (done_with (Some e)))
         | Inr u \<Rightarrow> do { x \<leftarrow> claim_release E l;
            (case x of Some e \<Rightarrow> ret (Inl (done_with (Some e)))
             | None \<Rightarrow> do { y \<leftarrow> report E reason msg; ret (Inl y) }) }) })
        (\<lambda>r t. r = Inr () \<longrightarrow> checked E c n (st_log t))" for l reason msg
      unfolding DeregisterMCPServer_def
      by (intro triple_bind [where R = "\<lambda>a t. True"] triple_cases triple_return grows_call emits_intro TrueI) simp_all
    show ?case
      by (intro triple_cases triple_return; (rule triple_pre, rule inl dereg)?)
        (auto intro: emits_intro)
  qed
  then have "triple (\<lambda>l e. \<not> carries_keys e) (\<lambda>t. n \<le> length (st_log t)) (reg_refuse E c s cl)
     (\<lambda>r t. r = Inr () \<longrightarrow> checked E c n (st_log t))"
    by (rule triple_emits [OF keyless_refuse])
  then show ?thesis by (rule triple_weaken) (simp add: keys_checked_def)
qed

lemma registration_keys_checked:
  "triple (keys_checked E c n) (\<lambda>t. n \<le> length (st_log t)) (registration E R c s ep) (\<lambda>a t. True)"
proof (cases "keyPinned s")
  case False
  have "keyless (registration E R c s ep)"
    unfolding registration_def
    by (intro emits_intro keyless_refuse keyless_unpinned keyless_core False) simp_all
  then have "triple (keys_checked E c n) (\<lambda>t. True) (registration E R c s ep) (\<lambda>a t. True)"
    by (rule triple_weaken) (simp add: keys_checked_def)
  then show ?thesis by (rule triple_pre) simp
next
  case True
  have quiet_keys: "triple (keys_checked E c n) (\<lambda>t. n \<le> length (st_log t)) m (\<lambda>a t. n \<le> length (st_log t))"
    if "keyless m" for m :: "'b srv"
    by (rule triple_invariant [OF that, where I = "\<lambda>l. n \<le> length l"]) (simp_all add: keys_checked_def)
  have rest: "triple (keys_checked E c n) (\<lambda>t. a = Inr () \<longrightarrow> checked E c n (st_log t))
     (case a of
        Inl x \<Rightarrow> ret x
      | Inr _ \<Rightarrow> do {
          b \<leftarrow> reg_deliver E c s claim ep;
          (case b of
             Inl x \<Rightarrow> ret x
           | Inr (claim2, tls) \<Rightarrow> do {
               d \<leftarrow> reg_endpoint E c s claim2 tls ep;
               (case d of
                  Inl x \<Rightarrow> ret x
                | Inr claim3 \<Rightarrow> reg_core E c cns s claim3 ep) }) }) (\<lambda>a t. True)" for a claim cns
    by (rule triple_sum, rule triple_return, simp, rule triple_pre, rule after_check)
      (intro emits_intro TrueI, simp)
  show ?thesis unfolding registration_def
  proof (intro triple_cases triple_return TrueI, rule triple_bind [OF quiet_keys], goal_cases)
    case (1 cns)
    then show ?case by (intro emits_intro) simp
  next
    case (2 cns g)
    then show ?case
      by (intro triple_cases triple_return TrueI triple_post [OF quiet_keys] triple_bind [OF refuse_checks rest] True)
        (simp_all add: emits_report)
  qed
qed

subsection \<open>What the reports leave in the status\<close>

lemma condition_after_set:
  assumes "lib_conds E" "reason \<noteq> []"
  shows "\<exists>k. find_condition E (upsertCondition E at cs gen ty status reason msg) ty = Some k
     \<and> c_status k = status \<and> c_reason k = reason \<and> c_message k = msg"
  using condition_list.find_set_same [OF assms(1), of at cs
      "\<lparr>c_type = ty, c_status = status, c_reason = reason, c_message = msg, c_generation = gen, c_transition = 0\<rparr>"]
    assms(2) by (auto simp: upsertCondition_def)

lemma write_keeps_obj: "run_state (writeStatus E mk get) t = (x, t') \<Longrightarrow> st_obj t' = st_obj t"
  by (auto simp: writeStatus_def run_bind split: option.splits if_splits)

lemma report_status:
  assumes "lib_conds E" "run_state (report E reason msg) t = (x, t')" "reason \<noteq> []"
  shows "fst x \<and> fst (snd x) = 0 \<and> ss_state (s_status (st_obj t')) = Degraded
    \<and> (\<exists>k. find_condition E (ss_conditions (s_status (st_obj t'))) ConditionDegraded = Some k
          \<and> c_status k = CondTrue \<and> c_reason k = reason \<and> c_message k = msg)"
  using assms(2) condition_after_set [OF assms(1,3)]
  by (auto simp: report_def writeRegistrationStatus_def setServerCondition_def the_conditions_def
      SetMCPServerState_def done_with_def run_bind split: prod.splits if_splits dest!: write_keeps_obj)

subsection \<open>Pacing\<close>

text \<open>The requeue interval of a registration is never negative.\<close>

definition not_early :: "reg_result \<Rightarrow> bool" where
  "not_early x = (0 \<le> fst (snd x))"

lemma not_early_basic [simp]:
  "not_early (done_with e)" "not_early not_done" "not_early (b, errorRequeueAfter, e)"
  by (simp_all add: not_early_def done_with_def not_done_def requeue_defs)

lemma not_early_report [yields_intro]: "yields not_early (report E reason msg)"
  unfolding report_def by (intro yields_intro emits_intro) simp_all

lemma not_early_start [yields_intro]: "yields not_early (start E c s l)"
  unfolding start_def StartMCPServer_def
  by (intro yields_intro emits_intro TrueI) (simp_all split: option.split)

lemma not_early_register [yields_intro]: "yields not_early (register E c cns s cl ep)"
  unfolding register_def register_claimed_def client_defs
  by (intro yields_intro emits_intro TrueI) simp_all

lemma yields_then:
  "yields R m \<Longrightarrow> (\<And>a. R a \<Longrightarrow> yields Q (f a)) \<Longrightarrow> yields Q (State_Monad.bind m f)"
  by (rule triple_bind, assumption) (auto simp: triple_def)

lemmas then_report = yields_then [OF not_early_report]

lemma not_early_deliver: "yields (\<lambda>(x, l). not_early x) (deliverConnection E c s l tls ep)"
  unfolding deliverConnection_def client_defs
  by ((rule then_report yields_intro emits_intro TrueI | simp)+)

lemmas then_deliver = yields_then [OF not_early_deliver]

lemma not_early_move [yields_intro]: "yields not_early (moveDiscovered E c cns s ep)"
  unfolding moveDiscovered_def by ((rule then_deliver yields_intro emits_intro TrueI | simp)+)

lemma not_early_core [yields_intro]: "yields not_early (reg_core E c cns s cl ep)"
  unfolding reg_core_def client_defs
  by (intro yields_intro emits_intro TrueI) simp_all

text \<open>A step that ends the registration ends it with such a result.\<close>
definition ends_well :: "reg_result + 'a \<Rightarrow> bool" where
  "ends_well r = (case r of Inl x \<Rightarrow> not_early x | Inr _ \<Rightarrow> True)"

lemma ends_well_simps [simp]: "ends_well (Inl x) = not_early x" "ends_well (Inr y)"
  by (simp_all add: ends_well_def)

lemma ends_refuse: "yields ends_well (reg_refuse E c s cl)"
  unfolding reg_refuse_def DeregisterMCPServer_def
  by ((rule then_report yields_intro emits_intro TrueI | simp)+)

lemma ends_deliver: "yields ends_well (reg_deliver E c s cl ep)"
  unfolding reg_deliver_def Let_def
  by ((rule then_deliver yields_intro emits_intro TrueI | simp)+)

lemma ends_endpoint: "yields ends_well (reg_endpoint E c s cl tls ep)"
  unfolding reg_endpoint_def DeregisterMCPServer_def Let_def
  by ((rule yields_intro emits_intro TrueI | simp)+)

lemma not_early_registration: "yields not_early (registration E R c s ep)"
  unfolding registration_def
  by ((rule yields_then [OF ends_refuse] yields_then [OF ends_deliver] yields_then [OF ends_endpoint]
      yields_intro emits_intro TrueI | simp)+)

subsection \<open>Deregistration\<close>

text \<open>What the claim on the name says when it is read after this history.\<close>
definition claim_answer :: "'e env_scheme \<Rightarrow> server_reconciler \<Rightarrow> mcp_server \<Rightarrow> history \<Rightarrow> gerr + lease option" where
  "claim_answer E R s l = (case sr_claims R of
     None \<Rightarrow> Inr None
   | Some cns \<Rightarrow> (case get_lease E l cns (claimPrefix @ s_name s) of
        Inl e \<Rightarrow> (if is_not_found e then Inr None else Inl e)
      | Inr c \<Rightarrow> Inr (Some c)))"

section \<open>Properties\<close>

text \<open>C1 Claim before change: whatever core and the API server answer, every
  request of a registration that can change core comes after this MCPServer was
  seen to hold, or took, the claim on the name, in the same run; without claims
  none is sent.\<close>
theorem claim_before_core_change:
  assumes "run_state (registration E R c s endpoint) t = (a, t')"
    and "st_log t' = st_log t @ es" and "i < length es" and "core_change (es ! i)"
  shows "\<exists>cns. sr_claims R = Some cns
    \<and> claim_held E cns s (length (st_log t)) (st_log t @ take i es)"
proof (cases "sr_claims R")
  case None
  then show ?thesis using assms by (auto simp: registration_def)
next
  case (Some cns)
  have "claim_first E cns s (length (st_log t)) (st_log t @ take i es) (es ! i)"
    by (rule tripleD(2) [OF registration_claim_first [OF Some] _ assms(1-3)]) simp
  then show ?thesis using Some assms(4) by (simp add: claim_first_def)
qed

text \<open>C5 A key list crosses to core only over https and only after core answered,
  in the same run, that it checks keys: no request of a registration carries a
  peer identity otherwise, whatever the claim and the server say.\<close>
theorem key_list_protected:
  assumes "run_state (registration E R c s endpoint) t = (a, t')"
    and "st_log t' = st_log t @ es" and "i < length es" and "carries_keys (es ! i)"
  shows "OverHTTPS c \<and> checked E c (length (st_log t)) (st_log t @ take i es)"
proof -
  have "keys_checked E c (length (st_log t)) (st_log t @ take i es) (es ! i)"
    by (rule tripleD(2) [OF registration_keys_checked _ assms(1-3)]) simp
  then show ?thesis using assms(4) by (simp add: keys_checked_def checked_def)
qed

text \<open>A name another MCPServer claimed is left alone: the registration sends
  core nothing, ends there, and the status says Degraded with NameTaken.\<close>
theorem name_taken_sends_nothing:
  assumes "lib_conds E" and "sr_claims R = Some cns"
    and "get_lease E (st_log t) cns (claimPrefix @ s_name s) = Inr l" and "\<not> holds (Some l) s"
    and "run_state (registration E R c s endpoint) t = (x, t')"
  shows "(\<exists>es. st_log t' = st_log t @ es \<and> list_all not_http es)
    \<and> fst x \<and> ss_state (s_status (st_obj t')) = Degraded
    \<and> (\<exists>k. find_condition E (ss_conditions (s_status (st_obj t'))) ConditionDegraded = Some k
          \<and> c_status k = CondTrue \<and> c_reason k = ReasonNameTaken)"
proof -
  let ?t = "t\<lparr>st_log := st_log t @ [ReadObj LeaseKind cns (claimPrefix @ s_name s)]\<rparr>"
  have run: "run_state (report E ReasonNameTaken (msg_name_claimed s l)) ?t = (x, t')"
    using assms(2-5) by (simp add: registration_def claim_get_def run_bind)
  have "emits not_http (report E ReasonNameTaken (msg_name_claimed s l))"
    by (intro emits_intro) (simp_all add: not_http_def)
  from emitsD [OF this run] obtain es where "st_log t' = st_log ?t @ es" "list_all not_http es" by blast
  then show ?thesis
    using report_status [OF assms(1) run]
    by (intro conjI exI [of _ "[ReadObj LeaseKind cns (claimPrefix @ s_name s)] @ es"])
      (auto simp: ReasonNameTaken_def not_http_def)
qed

text \<open>C28 Deregistration removes from core what this MCPServer registered, and only that.
  When the claim just read names it, the DELETE of its own name is sent, and again only as
  the retry schedule has it, nothing else is sent, and the claim is deleted after it; then, or
  when the claim names another or is absent, deletion goes on.  It is held up exactly when the
  claim could not be read, and nothing is sent then.\<close>
theorem deregister_only_own:
  assumes "run_state (deregisterOwned E R c s) t = (r, t')" and "st_log t' = st_log t @ es"
    and "rq = mk_request c ''DELETE'' (servers_url c @ s_name s) None"
  shows "case claim_answer E R s (st_log t) of
      Inl e \<Rightarrow> r = Some e \<and> list_all not_http es
    | Inr claim \<Rightarrow> r = None \<and>
       (if holds claim s then
          (\<exists>x ds ms. es = x # ds @ ms \<and> not_http x
             \<and> prefix ds (schedule c rq (nat (cl_retries c + 1)) 0)
             \<and> (0 \<le> cl_retries c \<and> request_error E rq = None \<longrightarrow> (\<exists>fs. ds = Http rq # fs))
             \<and> list_all not_http ms
             \<and> Delete LeaseKind (m_namespace (le_meta (the claim))) (m_name (le_meta (the claim))) \<in> set ms)
        else list_all not_http es)"
proof (cases "claim_answer E R s (st_log t)")
  case (Inl e)
  then show ?thesis using assms
    by (auto simp: claim_answer_def deregisterOwned_def claim_get_def run_bind not_http_def split: option.splits sum.splits if_splits)
next
  case (Inr claim)
  show ?thesis
  proof (cases "holds claim s")
    case False
    then show ?thesis using Inr assms
      by (auto simp: claim_answer_def deregisterOwned_def claim_get_def run_bind not_http_def
          split: option.splits sum.splits if_splits)
  next
    case True
    then obtain cns where l: "sr_claims R = Some cns" "get_lease E (st_log t) cns (claimPrefix @ s_name s) = Inr (the claim)"
      "claim = Some (the claim)" using Inr by (auto simp: claim_answer_def holds_def split: option.splits sum.splits if_splits)
    let ?t = "t\<lparr>st_log := st_log t @ [ReadObj LeaseKind cns (claimPrefix @ s_name s)]\<rparr>"
    obtain d u where d: "run_state (DeregisterMCPServer E c (s_name s)) ?t = (d, u)" by fastforce
    have u: "u = snd (run_state (call E c ''deregister'' ''DELETE'' (servers_url c @ s_name s) None
        (answer_delete ''deregistration'')) ?t)" using d by (simp add: DeregisterMCPServer_def)
    obtain ds ms where h: "st_log u = st_log ?t @ ds @ ms" "prefix ds (schedule c rq (nat (cl_retries c + 1)) 0)"
      "0 \<le> cl_retries c \<and> request_error E rq = None \<longrightarrow> (\<exists>fs. ds = Http rq # fs)"
      "list_all (\<lambda>e. \<exists>a b. e = Metric a b) ms"
      unfolding u assms(3) by (rule call_history)
    have ms: "list_all not_http ms" using h(4) by (auto simp: list_all_iff not_http_def)
    let ?rest = "do {
           (case d of Inl e \<Rightarrow> event Warning ReasonFailed (msg_stays s e) | Inr _ \<Rightarrow> ret ());
           x \<leftarrow> claim_release E (the claim);
           (case x of Some e \<Rightarrow> event Warning ReasonFailed (msg_unreleased s (the claim) e) | None \<Rightarrow> ret ());
           ret None }"
    have run: "run_state ?rest u = (r, t')"
      using assms(1) l True d by (simp add: deregisterOwned_def claim_get_def run_bind)
    have "\<exists>fs. st_log t' = st_log u @ fs \<and> list_all not_http fs \<and> r = None
        \<and> Delete LeaseKind (m_namespace (le_meta (the claim))) (m_name (le_meta (the claim))) \<in> set fs"
      using run by (cases d) (auto simp: claim_release_def run_bind not_http_def split: option.splits prod.splits)
    then obtain fs where fs: "st_log t' = st_log u @ fs" "list_all not_http fs" "r = None"
      "Delete LeaseKind (m_namespace (le_meta (the claim))) (m_name (le_meta (the claim))) \<in> set fs" by blast
    then have "es = ReadObj LeaseKind cns (claimPrefix @ s_name s) # ds @ (ms @ fs)"
      using assms(2) h(1) by simp
    moreover have "list_all not_http (ms @ fs)" using ms fs(2) by simp
    ultimately have "\<exists>x ds ms. es = x # ds @ ms \<and> not_http x
             \<and> prefix ds (schedule c rq (nat (cl_retries c + 1)) 0)
             \<and> (0 \<le> cl_retries c \<and> request_error E rq = None \<longrightarrow> (\<exists>fs. ds = Http rq # fs))
             \<and> list_all not_http ms
             \<and> Delete LeaseKind (m_namespace (le_meta (the claim))) (m_name (le_meta (the claim))) \<in> set ms"
      using h(2,3) fs(4)
      by (intro exI [of _ "ReadObj LeaseKind cns (claimPrefix @ s_name s)"] exI [of _ ds] exI [of _ "ms @ fs"])
        (simp add: not_http_def)
    then show ?thesis using Inr True fs(3) by simp
  qed
qed

text \<open>C31 A registration that ends a reconcile without an error always comes back:
  its requeue interval is positive.\<close>
theorem registration_is_retried:
  assumes "run_state (reconcileRegistration E R c s) t = ((True, after, None), t')"
  shows "0 < after"
proof -
  obtain b d e t1 where run: "run_state (registration E R c s (sp_endpoint (s_spec s))) t = ((b, d, e), t1)"
    by (metis prod.exhaust)
  have "0 \<le> d" using yieldsD [OF not_early_registration run] by (simp add: not_early_def)
  moreover have "0 < registrationRequeue E cs" for cs
    by (simp add: registrationRequeue_def requeue_defs split: option.split)
  ultimately show ?thesis using assms run
    by (auto simp: reconcileRegistration_def the_conditions_def run_bind split: if_splits)
qed

section \<open>Concrete runs\<close>

text \<open>A core that knows no server, checks keys and accepts every change, and a
  key-pinned remote server to register with it.\<close>
definition demo_core :: "history \<Rightarrow> http_req \<Rightarrow> gerr + http_resp" where
  "demo_core l rq = Inr (
     if hq_url rq = ''https://core/api/system/'' then \<lparr>hs_code = 200, hs_body = [], hs_json = Some
        (JObj [(''system'', JObj [(''capabilities'', JArr [JStr ''peer_identity''])])])\<rparr>
     else if hq_method rq = ''GET'' then \<lparr>hs_code = 404, hs_body = [], hs_json = None\<rparr>
     else \<lparr>hs_code = 200, hs_body = [], hs_json = None\<rparr>)"

definition demo_env :: env where "demo_env = std_env\<lparr>http_result := demo_core\<rparr>"

definition demo_client :: client where
  "demo_client = \<lparr>cl_base = ''https://core'', cl_key = ''k'', cl_retries = 0, cl_delay = 1\<rparr>"

definition demo_reconciler :: server_reconciler where
  "demo_reconciler = \<lparr>sr_client = Some demo_client, sr_claims = Some ''ops'', sr_probe = None,
     sr_ingress = \<lparr>ic_enabled = False, ic_namespace = [], ic_selector = None\<rparr>,
     sr_dns = \<lparr>dc_peers = [], dc_selectors = []\<rparr>\<rparr>"

definition demo_remote :: mcp_server where
  "demo_remote = zero_server\<lparr>
     s_meta := empty_meta\<lparr>m_name := ''s'', m_namespace := ''n'', m_uid := ''u''\<rparr>,
     s_spec := zero_server_spec\<lparr>sp_mode := ModeRemote, sp_endpoint := ''https://e'',
       sp_tls := Some \<lparr>tls_peer = Some \<lparr>pi_key_ref = ''r'', pi_spki = [''p''], pi_issuance = []\<rparr>,
         tls_max_age = None\<rparr>\<rparr>\<rparr>"

definition start_state :: "'o \<Rightarrow> 's \<Rightarrow> ('o, 's, kept) st" where
  "start_state ob b = \<lparr>st_obj = ob, st_base = Some b, st_kept = nothing_kept, st_log = []\<rparr>"

definition demo_run :: "reg_result \<times> (mcp_server, server_status, kept) st" where
  "demo_run = run_state (registration demo_env demo_reconciler demo_client demo_remote ''https://e'')
     (start_state demo_remote zero_server_status)"

lemmas demo_defs = demo_env_def demo_client_def demo_reconciler_def demo_remote_def demo_core_def
  zero_server_def zero_server_spec_def empty_meta_def

lemma demo_steps:
  "hq_method (mk_request c m u b) = m" "hq_url (mk_request c m u b) = u" "hq_body (mk_request c m u b) = b"
  by (simp_all add: mk_request_def)

lemma run_demo_call: "cl_retries c = 0 \<Longrightarrow> request_error E (mk_request c meth url body) = None \<Longrightarrow>
  http_result E (st_log s) (mk_request c meth url body) = Inr resp \<Longrightarrow> hs_code resp < 500 \<Longrightarrow>
  run_state (call E c op meth url body answer) s = (answer resp, s\<lparr>st_log := st_log s @
    [Http (mk_request c meth url body), Metric ''hangar_client_latency_seconds'' [op]]
    @ (case answer resp of Inl _ \<Rightarrow> [Metric ''hangar_client_errors_total'' [op]] | Inr _ \<Rightarrow> [])\<rparr>)"
  by (cases "answer resp") (simp_all add: call_def observed_def doWithRetry_def run_bind eval_nat_numeral)

lemma demo_run_log:
  "7 < length (st_log (snd demo_run)) \<and> core_change (st_log (snd demo_run) ! 7)
     \<and> carries_keys (st_log (snd demo_run) ! 7)"
  unfolding demo_run_def registration_def claim_get_def reg_refuse_def peerIdentityRefusal_def
    reg_deliver_def reg_endpoint_def reg_core_def register_def claim_take_def register_claimed_def
    start_def claim_annotate_def
  by (simp add: run_bind demo_defs start_state_def run_demo_call demo_steps client_defs keyPinned_def
      OverHTTPS_def has_prefix_def to_lower_def lower_char_def answer_capabilities_def decode_object_def
      jfield_def decode_list_def decode_string_def PeerIdentityCapability_def declares_issuance_def
      is_not_found_def answer_health_def IsNotRegistered_def coreTLS_def answer_register_def
      answer_start_def core_change_def carries_keys_def registration_body_def servers_url_def)

lemmas demo_hits = demo_run_log [THEN conjunct1] demo_run_log [THEN conjunct2, THEN conjunct1]
  demo_run_log [THEN conjunct2, THEN conjunct2]

lemma demo_run_starts:
  "run_state (registration demo_env demo_reconciler demo_client demo_remote ''https://e'')
     (start_state demo_remote zero_server_status) = (fst demo_run, snd demo_run)"
  "st_log (snd demo_run) = st_log (start_state demo_remote zero_server_status) @ st_log (snd demo_run)"
  by (simp_all add: demo_run_def start_state_def)

theorem claim_before_core_change_witness:
  "claim_held demo_env ''ops'' demo_remote 0 (take 7 (st_log (snd demo_run)))"
  using claim_before_core_change [OF demo_run_starts demo_hits(1,2)]
  by (simp add: start_state_def demo_reconciler_def)

theorem key_list_protected_witness:
  "OverHTTPS demo_client \<and> checked demo_env demo_client 0 (take 7 (st_log (snd demo_run)))"
  using key_list_protected [OF demo_run_starts demo_hits(1,3)] by (simp add: start_state_def)

text \<open>The same server, its name claimed by another MCPServer.\<close>
definition taken_env :: env where
  "taken_env = demo_env\<lparr>get_lease := (\<lambda>l ns n. Inr \<lparr>le_meta = empty_meta, le_holder = Some ''other''\<rparr>)\<rparr>"

lemma taken_conds: "lib_conds taken_env"
  by (simp add: taken_env_def demo_env_def std_conds.condition_list_axioms)

theorem name_taken_sends_nothing_witness:
  "fst (fst (run_state (registration taken_env demo_reconciler demo_client demo_remote [])
      (start_state demo_remote zero_server_status)))"
  using name_taken_sends_nothing [OF taken_conds, of demo_reconciler "''ops''"
      "start_state demo_remote zero_server_status" demo_remote
      "\<lparr>le_meta = empty_meta, le_holder = Some ''other''\<rparr>" demo_client "[]"]
  by (cases "run_state (registration taken_env demo_reconciler demo_client demo_remote [])
      (start_state demo_remote zero_server_status)")
    (simp add: taken_env_def demo_reconciler_def holds_def claimHolder_def demo_remote_def
      zero_server_def empty_meta_def)

text \<open>A claim of its own: core is sent the DELETE, and the claim is given up.\<close>
definition own_claim :: lease where
  "own_claim = \<lparr>le_meta = empty_meta\<lparr>m_name := ''c'', m_namespace := ''ops''\<rparr>, le_holder = Some ''n/s/u''\<rparr>"

definition own_env :: env where
  "own_env = demo_env\<lparr>get_lease := (\<lambda>l ns n. Inr own_claim)\<rparr>"

theorem deregister_only_own_witness:
  "\<exists>es. st_log (snd (run_state (deregisterOwned own_env demo_reconciler demo_client demo_remote)
        (start_state demo_remote zero_server_status))) = es
     \<and> Http (mk_request demo_client ''DELETE'' (servers_url demo_client @ ''s'') None) \<in> set es
     \<and> Delete LeaseKind ''ops'' ''c'' \<in> set es"
proof -
  obtain r t' where run: "run_state (deregisterOwned own_env demo_reconciler demo_client demo_remote)
      (start_state demo_remote zero_server_status) = (r, t')" by fastforce
  have "claim_answer own_env demo_reconciler demo_remote [] = Inr (Some own_claim)"
    by (simp add: claim_answer_def own_env_def demo_reconciler_def)
  moreover have "holds (Some own_claim) demo_remote"
    by (simp add: own_claim_def holds_def claimHolder_def demo_remote_def zero_server_def empty_meta_def)
  moreover have "0 \<le> cl_retries demo_client"
    "request_error own_env (mk_request demo_client ''DELETE'' (servers_url demo_client @ s_name demo_remote) None) = None"
    "s_name demo_remote = ''s''"
    by (simp_all add: demo_client_def own_env_def demo_env_def demo_remote_def zero_server_def empty_meta_def)
  ultimately show ?thesis
    using deregister_only_own [OF run _ refl, of "st_log t'"] run
    by (auto simp: start_state_def own_claim_def)
qed

definition taken_run :: "reg_result \<times> (mcp_server, server_status, kept) st" where
  "taken_run = run_state (reconcileRegistration taken_env demo_reconciler demo_client demo_remote)
      (start_state demo_remote zero_server_status)"

lemma taken_run_ends: "fst (fst taken_run) \<and> snd (snd (fst taken_run)) = None"
  unfolding taken_run_def reconcileRegistration_def registration_def claim_get_def report_def
    writeRegistrationStatus_def setServerCondition_def the_conditions_def SetMCPServerState_def
    writeStatus_def
  by (simp add: run_bind demo_defs taken_env_def start_state_def holds_def claimHolder_def done_with_def
      zero_server_status_def)

theorem registration_is_retried_witness: "0 < fst (snd (fst taken_run))"
  using registration_is_retried [of taken_env demo_reconciler demo_client demo_remote
      "start_state demo_remote zero_server_status" "fst (snd (fst taken_run))" "snd taken_run"]
    taken_run_ends
  by (simp add: taken_run_def prod_eq_iff)

end
