(* ===== verification/Webhooks.thy ===== *)
theory Webhooks
  imports NetPolicy Cluster
begin

text \<open>
  \<open>internal/webhook\<close>: admission of MCPServers, MCPDiscoverySources and provider
  pods, and the digest test that the server controller shares; also the leader
  check of \<open>internal/health\<close>.  A validator gets the object as an \<open>option\<close>, since
  the handlers guard against a nil one; a pod review carries the labels the
  decoder gave, or its error.  The life of a pod under admission is the
  inductive relation \<open>pod_life\<close>.
\<close>

section \<open>Image digests\<close>

definition allowMutableImageAnnotation :: string where
  "allowMutableImageAnnotation = ''hangar.io/allow-mutable-image''"

definition IsImageDigestPinned :: "string \<Rightarrow> labels \<Rightarrow> bool" where
  "IsImageDigestPinned img annotations =
     (if img = [] \<or> str_contains img ''@sha256:'' then True
      else label_of annotations allowMutableImageAnnotation = str_true)"

section \<open>MCPServer\<close>

definition CiliumCIDRMatchNote :: string where
  "CiliumCIDRMatchNote = ''this cluster runs Cilium, which matches policy on security identities: ''
     @ ''by default a CIDR rule (NetworkPolicy ipBlock / CiliumNetworkPolicy toCIDR) does NOT match ''
     @ ''cluster-internal pod or node IPs, so if this destination is in-cluster the rule selects nothing ''
     @ ''and the traffic is silently dropped (it works on Calico). Install Cilium with ''
     @ ''policyCIDRMatchMode={pods} (--policy-cidr-match-mode=pods) to make CIDR rules match pod IPs. ''
     @ ''See https://docs.cilium.io/en/stable/network/kubernetes/policy/''"

definition warn_endpoint :: string where
  "warn_endpoint = ''spec.endpoint is ignored when mode is '' @ quote ''container''"

definition warn_image :: string where
  "warn_image = ''spec.image is ignored when mode is '' @ quote ''remote''"

definition warn_host :: "nat \<Rightarrow> egress_rule_spec \<Rightarrow> string" where
  "warn_host i rule = ''spec.capabilities.network.egress['' @ itoa (int i) @ ''] (host ''
     @ quote (er_host rule) @ '') is not enforceable by the NetworkPolicy backend and will NOT be applied; ''
     @ ''specify a cidr for network-level enforcement, or allow the hostname with an MCPEgressPolicy using the Cilium backstop flavor.''"

definition warn_cidr :: "nat \<Rightarrow> egress_rule_spec \<Rightarrow> string" where
  "warn_cidr i rule = ''spec.capabilities.network.egress['' @ itoa (int i) @ ''] (cidr ''
     @ quote (er_cidr rule) @ ''): '' @ CiliumCIDRMatchNote"

text \<open>The loop over the egress rules from index \<open>i\<close>; \<open>cilium\<close> is \<open>ciliumDetected\<close>.\<close>
fun egress_warnings :: "bool \<Rightarrow> nat \<Rightarrow> egress_rule_spec list \<Rightarrow> string list" where
  "egress_warnings cilium i [] = []"
| "egress_warnings cilium i (rule # rules) =
     (if er_cidr rule = [] then [warn_host i rule]
      else if cilium \<and> LooksClusterInternal (er_cidr rule) then [warn_cidr i rule]
      else []) @ egress_warnings cilium (Suc i) rules"

definition capabilityWarningsV2 :: "bool \<Rightarrow> server_caps \<Rightarrow> string list" where
  "capabilityWarningsV2 cilium caps = (case cap_network caps of
     None \<Rightarrow> [] | Some n \<Rightarrow> egress_warnings cilium 0 (nc_egress n))"

definition validateProviderV2 :: "bool \<Rightarrow> mcp_server option \<Rightarrow> string list \<times> gerr option" where
  "validateProviderV2 cilium p = (case p of
     None \<Rightarrow> ([], Some (Plain ''MCPServer object is nil''))
   | Some s \<Rightarrow>
      ((case sp_mode (s_spec s) of
          ModeContainer \<Rightarrow> (if sp_endpoint (s_spec s) \<noteq> [] then [warn_endpoint] else [])
        | ModeRemote \<Rightarrow> (if sp_image (s_spec s) \<noteq> [] then [warn_image] else [])
        | _ \<Rightarrow> [])
       @ (case sp_caps (s_spec s) of None \<Rightarrow> [] | Some c \<Rightarrow> capabilityWarningsV2 cilium c), None))"

definition server_ValidateCreate :: "bool \<Rightarrow> mcp_server option \<Rightarrow> string list \<times> gerr option" where
  "server_ValidateCreate cilium obj = validateProviderV2 cilium obj"

definition server_ValidateUpdate ::
  "bool \<Rightarrow> mcp_server option \<Rightarrow> mcp_server option \<Rightarrow> string list \<times> gerr option" where
  "server_ValidateUpdate cilium oldObj newObj = validateProviderV2 cilium newObj"

definition server_ValidateDelete :: "mcp_server option \<Rightarrow> string list \<times> gerr option" where
  "server_ValidateDelete obj = ([], None)"

section \<open>MCPDiscoverySource\<close>

record discovery_constraints =
  dcn_type :: discovery_type
  dcn_has_ref :: bool
  dcn_namespace :: string
  dcn_cm_namespace :: string
  dcn_include :: "string list"
  dcn_exclude :: "string list"

definition crossNamespace :: "discovery_constraints \<Rightarrow> bool" where
  "crossNamespace c = (dcn_type c = DConfigMap \<and> dcn_has_ref c
     \<and> dcn_cm_namespace c \<noteq> [] \<and> dcn_cm_namespace c \<noteq> dcn_namespace c)"

definition crossNamespaceMessage :: "discovery_constraints \<Rightarrow> string" where
  "crossNamespaceMessage c = ''spec.configMapRef.namespace '' @ quote (dcn_cm_namespace c)
     @ '' must be empty or equal to the source namespace '' @ quote (dcn_namespace c)
     @ '': a ConfigMap source may only read its own namespace''"

text \<open>\<open>regexp.Compile\<close>: the error \<open>regexp.MatchString\<close> gives for the pattern.\<close>
definition regex_compile_error :: "'e klib_scheme \<Rightarrow> string \<Rightarrow> gerr option" where
  "regex_compile_error L p = (case regex_match L p [] of Inl e \<Rightarrow> Some e | Inr _ \<Rightarrow> None)"

definition pattern_message :: "string \<Rightarrow> nat \<Rightarrow> string \<Rightarrow> gerr \<Rightarrow> string" where
  "pattern_message field i p e = ''spec.filters.'' @ field @ ''['' @ itoa (int i) @ ''] '' @ quote p
     @ '' is not a valid regexp: '' @ err_text e"

fun pattern_errors :: "'e klib_scheme \<Rightarrow> string \<Rightarrow> nat \<Rightarrow> string list \<Rightarrow> string list" where
  "pattern_errors L field i [] = []"
| "pattern_errors L field i (p # ps) =
     (case regex_compile_error L p of
        Some e \<Rightarrow> [pattern_message field i p e] | None \<Rightarrow> []) @ pattern_errors L field (Suc i) ps"

definition validateDiscoveryConstraints :: "'e klib_scheme \<Rightarrow> discovery_constraints \<Rightarrow> gerr option" where
  "validateDiscoveryConstraints L c =
     (let errs = (if crossNamespace c then [crossNamespaceMessage c] else [])
           @ pattern_errors L ''includePatterns'' 0 (dcn_include c)
           @ pattern_errors L ''excludePatterns'' 0 (dcn_exclude c) in
      if errs \<noteq> [] then Some (Plain (''MCPDiscoverySource validation failed: '' @ join ''; '' errs))
      else None)"

definition discoveryConstraintsFromV1alpha2 :: "discovery_source \<Rightarrow> discovery_constraints" where
  "discoveryConstraintsFromV1alpha2 d = \<lparr>
     dcn_type = dsp_type (d_spec d), dcn_has_ref = (dsp_cm (d_spec d) \<noteq> None),
     dcn_namespace = d_ns d,
     dcn_cm_namespace = (case dsp_cm (d_spec d) of None \<Rightarrow> [] | Some r \<Rightarrow> cmr_namespace r),
     dcn_include = (case dsp_filters (d_spec d) of None \<Rightarrow> [] | Some f \<Rightarrow> df_include f),
     dcn_exclude = (case dsp_filters (d_spec d) of None \<Rightarrow> [] | Some f \<Rightarrow> df_exclude f)\<rparr>"

definition sameConfigMapRef :: "discovery_source \<Rightarrow> discovery_source \<Rightarrow> bool" where
  "sameConfigMapRef old new = (dsp_cm (d_spec old) \<noteq> None \<and> dsp_cm (d_spec new) \<noteq> None
     \<and> dsp_cm (d_spec old) = dsp_cm (d_spec new) \<and> dsp_type (d_spec old) = dsp_type (d_spec new))"

definition nil_source :: gerr where "nil_source = Plain ''MCPDiscoverySource object is nil''"

definition source_ValidateCreate ::
  "'e klib_scheme \<Rightarrow> discovery_source option \<Rightarrow> string list \<times> gerr option" where
  "source_ValidateCreate L obj = (case obj of
     None \<Rightarrow> ([], Some nil_source)
   | Some d \<Rightarrow> ([], validateDiscoveryConstraints L (discoveryConstraintsFromV1alpha2 d)))"

definition source_ValidateUpdate ::
  "'e klib_scheme \<Rightarrow> discovery_source option \<Rightarrow> discovery_source option \<Rightarrow> string list \<times> gerr option" where
  "source_ValidateUpdate L oldObj newObj = (case newObj of
     None \<Rightarrow> ([], Some nil_source)
   | Some d \<Rightarrow> (let c = discoveryConstraintsFromV1alpha2 d in
       case oldObj of
         None \<Rightarrow> ([], validateDiscoveryConstraints L c)
       | Some old \<Rightarrow>
          (if crossNamespace c \<and> (m_deletion (d_meta d) \<noteq> None \<or> sameConfigMapRef old d)
           then ([crossNamespaceMessage c @ ''; the controller does not sync this source''],
                 validateDiscoveryConstraints L (c\<lparr>dcn_cm_namespace := []\<rparr>))
           else ([], validateDiscoveryConstraints L c))))"

definition source_ValidateDelete :: "discovery_source option \<Rightarrow> string list \<times> gerr option" where
  "source_ValidateDelete obj = ([], None)"

section \<open>Provider pods\<close>

datatype adm_operation = OpCreate | OpUpdate | OpOther

text \<open>A review: the labels of the object and of the old object, or the decoder's
  error.\<close>
record adm_request =
  ar_op :: adm_operation
  ar_namespace :: string
  ar_object :: "gerr + labels"
  ar_old :: "gerr + labels"

datatype adm_response = Allowed string | Denied string | Errored int gerr

definition deny_labelled :: "string \<Rightarrow> string \<Rightarrow> string" where
  "deny_labelled p ns = ''pod cannot be labelled '' @ LabelProvider @ ''='' @ quote p
     @ '' after admission in namespace '' @ quote ns
     @ ''; the label is set at pod creation and admitted then (#189)''"

definition deny_changed :: "string \<Rightarrow> string \<Rightarrow> string \<Rightarrow> string" where
  "deny_changed old p ns = ''pod label '' @ LabelProvider @ '' cannot change from '' @ quote old
     @ '' to '' @ quote p @ '' in namespace '' @ quote ns
     @ ''; the label is immutable once set -- recreate the pod (#189)''"

definition deny_unregistered :: "string \<Rightarrow> string \<Rightarrow> string" where
  "deny_unregistered p ns = ''pod labelled '' @ LabelProvider @ ''='' @ quote p
     @ '' has no registered MCPServer '' @ quote p @ '' in namespace '' @ quote ns
     @ ''; register the server or remove the label (#50)''"

definition validateProviderLabelUpdate :: "string \<Rightarrow> string \<Rightarrow> string \<Rightarrow> adm_response" where
  "validateProviderLabelUpdate old new ns =
     (if old = new then Allowed ''provider label unchanged''
      else if new = [] then Allowed ''provider label removed; pod leaves the server's allow-policy''
      else if old = [] then Denied (deny_labelled new ns)
      else Denied (deny_changed old new ns))"

text \<open>\<open>Handle\<close>: the read of the MCPServer is answered at history \<open>l\<close>.\<close>
definition Handle :: "'e env_scheme \<Rightarrow> history \<Rightarrow> adm_request \<Rightarrow> adm_response" where
  "Handle E l rq = (case ar_object rq of
     Inl e \<Rightarrow> Errored 400 e
   | Inr ls \<Rightarrow> (let p = label_of ls LabelProvider in
       if ar_op rq = OpUpdate then
         (case ar_old rq of
            Inl e \<Rightarrow> Errored 400 e
          | Inr old \<Rightarrow> validateProviderLabelUpdate (label_of old LabelProvider) p (ar_namespace rq))
       else if p = [] then Allowed ''not an MCP-server pod''
       else (case get_server E l (ar_namespace rq) p of
          Inl e \<Rightarrow> (if is_not_found e then Denied (deny_unregistered p (ar_namespace rq))
                   else Errored 500 e)
        | Inr s \<Rightarrow> Allowed ''registered MCPServer exists'')))"

definition is_allowed :: "adm_response \<Rightarrow> bool" where
  "is_allowed r = (case r of Allowed _ \<Rightarrow> True | _ \<Rightarrow> False)"

section \<open>Registrations and the leader check\<close>

text \<open>\<open>Registrations\<close>: the names; each binds its kind to its validator.\<close>
definition Registrations :: "string list" where
  "Registrations = [''MCPServer/v1alpha2'', ''MCPDiscoverySource/v1alpha2'']"

text \<open>\<open>LeaderChecker.Check\<close>: whether the channel of \<open>Elected()\<close> is closed.\<close>
definition leader_Check :: "bool \<Rightarrow> gerr option" where
  "leader_Check elected = (if elected then None else Some (Plain ''not the leader''))"

section \<open>The life of a pod\<close>

text \<open>
  The provider label of a pod in an enforced namespace, from its creation through
  any sequence of admitted updates: \<open>pod_life E ns c p\<close> says a pod created with
  label \<open>c\<close> can now carry \<open>p\<close> (empty for none).  Between reviews anything else in
  the cluster may change: each is answered at a history of its own.
\<close>
inductive pod_life :: "'e env_scheme \<Rightarrow> string \<Rightarrow> string \<Rightarrow> string \<Rightarrow> bool" for E ns where
  created: "is_allowed (Handle E l \<lparr>ar_op = OpCreate, ar_namespace = ns, ar_object = Inr ls, ar_old = old\<rparr>)
    \<Longrightarrow> pod_life E ns (label_of ls LabelProvider) (label_of ls LabelProvider)"
| updated: "pod_life E ns c (label_of old LabelProvider) \<Longrightarrow>
    is_allowed (Handle E l \<lparr>ar_op = OpUpdate, ar_namespace = ns, ar_object = Inr ls, ar_old = Inr old\<rparr>)
    \<Longrightarrow> pod_life E ns c (label_of ls LabelProvider)"

lemma label_update_allowed:
  "is_allowed (validateProviderLabelUpdate old new ns) \<longleftrightarrow> new = old \<or> new = []"
  by (auto simp: validateProviderLabelUpdate_def is_allowed_def)

lemma create_allowed:
  assumes "is_allowed (Handle E l \<lparr>ar_op = OpCreate, ar_namespace = ns, ar_object = Inr ls, ar_old = old\<rparr>)"
    and "label_of ls LabelProvider \<noteq> []"
  shows "\<exists>s. get_server E l ns (label_of ls LabelProvider) = Inr s"
  using assms by (auto simp: Handle_def Let_def is_allowed_def split: sum.splits if_splits)

text \<open>Every pattern compiles exactly when nothing is reported about them.\<close>
lemma pattern_errors_Nil:
  "pattern_errors L field i ps = [] \<longleftrightarrow> (\<forall>p \<in> set ps. regex_compile_error L p = None)"
  by (induction ps arbitrary: i) (auto split: option.splits)

lemma validate_ok_iff:
  "validateDiscoveryConstraints L c = None \<longleftrightarrow> \<not> crossNamespace c
     \<and> (\<forall>p \<in> set (dcn_include c) \<union> set (dcn_exclude c). regex_compile_error L p = None)"
  by (auto simp: validateDiscoveryConstraints_def Let_def pattern_errors_Nil)

lemma egress_warnings_Nil:
  "egress_warnings cilium i rs = [] \<longleftrightarrow>
     (\<forall>r \<in> set rs. er_cidr r \<noteq> [] \<and> \<not> (cilium \<and> LooksClusterInternal (er_cidr r)))"
  by (induction rs arbitrary: i) (auto simp del: quote_def)

section \<open>Properties\<close>

text \<open>C16 The provider label cannot be acquired: at every point of its life a pod in
  an enforced namespace carries the label it was created with or none, and a pod
  that carries one was created while the MCPServer it names existed.\<close>
theorem provider_label_not_acquired:
  assumes "pod_life E ns c p" and "p \<noteq> []"
  shows "p = c \<and> (\<exists>l s. get_server E l ns p = Inr s)"
proof -
  have "(p = c \<or> p = []) \<and> (c \<noteq> [] \<longrightarrow> (\<exists>l s. get_server E l ns c = Inr s))"
    using assms(1)
  proof (induction rule: pod_life.induct)
    case (created l ls old)
    then show ?case using create_allowed by blast
  next
    case (updated c old l ls)
    then show ?case by (auto simp: Handle_def label_update_allowed)
  qed
  then show ?thesis using assms(2) by auto
qed

text \<open>When a discovery source that reads a ConfigMap of another namespace is
  admitted: never on creation; on update exactly when the reference is already
  stored or the source is being deleted, and every filter pattern compiles, and
  then always with a warning.\<close>
theorem cross_namespace_admission:
  assumes "crossNamespace (discoveryConstraintsFromV1alpha2 d)"
  shows "snd (source_ValidateCreate L (Some d)) \<noteq> None
    \<and> (snd (source_ValidateUpdate L (Some old) (Some d)) = None \<longleftrightarrow>
         (m_deletion (d_meta d) \<noteq> None \<or> sameConfigMapRef old d)
         \<and> (\<forall>f. dsp_filters (d_spec d) = Some f \<longrightarrow>
              (\<forall>p \<in> set (df_include f @ df_exclude f). regex_compile_error L p = None)))
    \<and> (snd (source_ValidateUpdate L (Some old) (Some d)) = None \<longrightarrow>
         fst (source_ValidateUpdate L (Some old) (Some d)) \<noteq> [])"
proof -
  let ?c = "discoveryConstraintsFromV1alpha2 d"
  have "\<not> crossNamespace (?c\<lparr>dcn_cm_namespace := []\<rparr>)" by (simp add: crossNamespace_def)
  then have "validateDiscoveryConstraints L (?c\<lparr>dcn_cm_namespace := []\<rparr>) = None \<longleftrightarrow>
     (\<forall>f. dsp_filters (d_spec d) = Some f \<longrightarrow>
        (\<forall>p \<in> set (df_include f @ df_exclude f). regex_compile_error L p = None))"
    unfolding validate_ok_iff
    by (cases "dsp_filters (d_spec d)") (auto simp: discoveryConstraintsFromV1alpha2_def)
  then show ?thesis
    using assms validate_ok_iff [of L ?c]
    by (simp add: source_ValidateCreate_def source_ValidateUpdate_def Let_def)
qed

text \<open>Admission of an MCPServer refuses nothing and is silent exactly when nothing
  declared is without effect: no endpoint in container mode, no image in remote
  mode, and every egress rule becomes a NetworkPolicy rule, none of them a block
  that a Cilium cluster would not match.\<close>
theorem server_admission_warnings:
  "snd (validateProviderV2 cilium (Some s)) = None
   \<and> (fst (validateProviderV2 cilium (Some s)) = [] \<longleftrightarrow>
        \<not> (IsContainerMode s \<and> sp_endpoint (s_spec s) \<noteq> [])
        \<and> \<not> (IsRemoteMode s \<and> sp_image (s_spec s) \<noteq> [])
        \<and> list_all (\<lambda>r. translateEgressRule r \<noteq> None \<and> \<not> (cilium \<and> LooksClusterInternal (er_cidr r)))
            (case sp_caps (s_spec s) of None \<Rightarrow> [] | Some c \<Rightarrow>
               (case cap_network c of None \<Rightarrow> [] | Some n \<Rightarrow> nc_egress n)))"
proof -
  have "translateEgressRule r \<noteq> None \<longleftrightarrow> er_cidr r \<noteq> []" for r
    by (simp add: translateEgressRule_def)
  then show ?thesis
    by (cases "sp_mode (s_spec s)")
      (auto simp: validateProviderV2_def IsContainerMode_def IsRemoteMode_def capabilityWarningsV2_def
        egress_warnings_Nil list_all_iff warn_endpoint_def warn_image_def split: option.splits)
qed

section \<open>Concrete reviews\<close>

definition registered_env :: env where
  "registered_env = std_env\<lparr>get_server := (\<lambda>l ns n. if n = ''s'' then Inr zero_server else Inl (NotFound []))\<rparr>"

theorem provider_label_not_acquired_witness:
  "\<exists>l s. get_server registered_env l ''n'' ''s'' = Inr s"
proof -
  have "pod_life registered_env ''n'' (label_of [(LabelProvider, ''s'')] LabelProvider)
      (label_of [(LabelProvider, ''s'')] LabelProvider)"
    by (rule pod_life.created [where l = "[]" and old = "Inr []"])
      (simp add: Handle_def is_allowed_def registered_env_def label_of_def)
  then have "pod_life registered_env ''n'' ''s'' ''s''" by (simp add: label_of_def)
  then show ?thesis using provider_label_not_acquired [of registered_env "''n''" "''s''" "''s''"] by simp
qed

definition cross_source :: discovery_source where
  "cross_source = \<lparr>
     d_meta = empty_meta\<lparr>m_namespace := ''a''\<rparr>,
     d_spec = \<lparr>dsp_type = DConfigMap, dsp_mode = Additive, dsp_refresh = None, dsp_paused = False,
       dsp_ns = None, dsp_cm = Some \<lparr>cmr_name = ''c'', cmr_namespace = ''b'', cmr_key = []\<rparr>,
       dsp_ann = None, dsp_svc = None, dsp_template = None, dsp_filters = None, dsp_ownership = None\<rparr>,
     d_status = \<lparr>dst_discovered = 0, dst_managed = 0, dst_last_sync = None, dst_duration = None,
       dst_error = [], dst_next = None, dst_servers = [], dst_observed = 0, dst_conditions = []\<rparr>\<rparr>"

theorem cross_namespace_admission_witness:
  "snd (source_ValidateCreate std_lib (Some cross_source)) \<noteq> None
   \<and> snd (source_ValidateUpdate std_lib (Some cross_source) (Some cross_source)) = None"
  using cross_namespace_admission [of cross_source std_lib cross_source]
  by (simp add: cross_source_def crossNamespace_def discoveryConstraintsFromV1alpha2_def empty_meta_def
      sameConfigMapRef_def)

end
