(* ===== verification/ServerPolicy.thy ===== *)
theory ServerPolicy
  imports Registration Webhooks
begin

text \<open>
  The parts of \<open>internal/controller/mcpserver_controller.go\<close> that keep the
  NetworkPolicy of a server, its violations and its audit trail, and
  \<open>mcpserver_ingress.go\<close>, the ingress fence of a provider.  As in
  \<open>Registration\<close>, \<open>s\<close> is the MCPServer as read and its status is the state.
  Shown here: a policy under the server's name is written or removed only after a
  read found it absent or ours, \<open>NetworkPolicyApplied\<close> is True only with an
  enforcer observed, and violations are recorded once and bounded.
\<close>

section \<open>Ownership\<close>

definition perServerPolicyOwned :: "'e klib_scheme \<Rightarrow> mcp_server \<Rightarrow> network_policy \<Rightarrow> bool" where
  "perServerPolicyOwned L s np =
     (if is_controlled_by L (np_meta np) (s_meta s) then True
      else controller_of L (np_meta np) = None
        \<and> label_of (m_labels (np_meta np)) LabelManagedBy = DefaultManagerName)"

definition deleteNetworkPolicyIfExists :: "'e env_scheme \<Rightarrow> mcp_server \<Rightarrow> (gerr option) srv" where
  "deleteNetworkPolicyIfExists E s = do {
     r \<leftarrow> fetch NetPolKind (get_netpol E) (s_ns s) (NetworkPolicyName (s_name s));
     (case r of
        Inl e \<Rightarrow> ret (if is_not_found e then None else Some e)
      | Inr np \<Rightarrow>
         (if \<not> perServerPolicyOwned E s np then ret None
          else perform E (Delete NetPolKind (m_namespace (np_meta np)) (m_name (np_meta np))))) }"

definition namespaceEnforcesEgress :: "'e env_scheme \<Rightarrow> string \<Rightarrow> (gerr + bool) srv" where
  "namespaceEnforcesEgress E n = do {
     r \<leftarrow> fetch NamespaceKind (get_namespace E) [] n;
     ret (case r of
        Inl e \<Rightarrow> (if is_not_found e then Inr False
                 else Inl (Wrap (''get namespace '' @ quote n @ '': '') e))
      | Inr ns \<Rightarrow> Inr (label_of (m_labels (ns_meta ns)) EnforceEgressLabel = str_true)) }"

section \<open>The NetworkPolicy of a server\<close>

definition ReasonPolicyApplied :: string where "ReasonPolicyApplied = ''PolicyApplied''"
definition ReasonPolicyWrittenUnenforced :: string where
  "ReasonPolicyWrittenUnenforced = ''PolicyWrittenUnenforced''"
definition ReasonPolicyWrittenUnverified :: string where
  "ReasonPolicyWrittenUnverified = ''PolicyWrittenUnverified''"
definition ReasonPolicyNameTaken :: string where "ReasonPolicyNameTaken = ''PolicyNameTaken''"
definition ReasonEgressWithheld :: string where
  "ReasonEgressWithheld = ''EgressWithheldUnpinnedImage''"
definition ReasonNoPolicyNeeded :: string where "ReasonNoPolicyNeeded = ''NoPolicyNeeded''"

lemmas policy_reasons = ReasonPolicyApplied_def ReasonPolicyWrittenUnenforced_def
  ReasonPolicyWrittenUnverified_def ReasonPolicyNameTaken_def ReasonEgressWithheld_def
  ReasonNoPolicyNeeded_def

definition msg_withheld_event :: string where
  "msg_withheld_event = ''egress not opened: spec.image is not digest-pinned in an enforce-egress namespace; ''
     @ ''pin the image (image@sha256:...) or set annotation hangar.io/allow-mutable-image='' @ quote str_true @ '' (#51/#52)''"
definition msg_withheld :: string where
  "msg_withheld = ''Egress withheld: image not digest-pinned in an enforce-egress namespace''"
definition msg_no_caps :: string where "msg_no_caps = ''No network capabilities declared''"
definition msg_np :: "string \<Rightarrow> string \<Rightarrow> string" where
  "msg_np n what = ''NetworkPolicy '' @ n @ what"
definition msg_np_taken_event :: "string \<Rightarrow> string" where
  "msg_np_taken_event n = msg_np n '' exists and is not managed by this operator; not overwriting it''"
definition msg_np_taken :: "string \<Rightarrow> string" where
  "msg_np_taken n = msg_np n '' exists and is not managed by this operator; the server's egress policy is not applied''"

text \<open>\<open>recordPolicyEnforcement\<close>: True is reserved for an observed enforcer.\<close>
definition recordPolicyEnforcement ::
  "'e env_scheme \<Rightarrow> server_reconciler \<Rightarrow> string \<Rightarrow> unit srv" where
  "recordPolicyEnforcement E R written = do {
     sg \<leftarrow> Signal E (sr_probe R);
     (if sg_verdict sg = Observed then
        setServerCondition E ConditionNetworkPolicyApplied CondTrue ReasonPolicyApplied
          (written @ ''; enforcer observed: '' @ sg_source sg)
      else if sg_verdict sg = NotObserved then do {
        cs \<leftarrow> the_conditions;
        whenM (case getCondition E cs ConditionNetworkPolicyApplied of
                 None \<Rightarrow> True | Some k \<Rightarrow> c_reason k \<noteq> ReasonPolicyWrittenUnenforced)
          (event Warning ''NetworkPolicyUnenforced''
            (written @ '' but nothing here enforces it: '' @ sg_source sg));
        setServerCondition E ConditionNetworkPolicyApplied CondFalse ReasonPolicyWrittenUnenforced
          (written @ '' but nothing here enforces it: '' @ sg_source sg) }
      else
        setServerCondition E ConditionNetworkPolicyApplied CondUnknown ReasonPolicyWrittenUnverified
          (written @ ''; enforcement unverified: '' @ sg_source sg)) }"

definition withhold_egress :: "'e env_scheme \<Rightarrow> mcp_server \<Rightarrow> (gerr option) srv" where
  "withhold_egress E s = do {
     x \<leftarrow> deleteNetworkPolicyIfExists E s;
     (case x of
        Some e \<Rightarrow> ret (Some e)
      | None \<Rightarrow> do {
          event Warning ''EgressWithheld'' msg_withheld_event;
          setServerCondition E ConditionNetworkPolicyApplied CondFalse ReasonEgressWithheld msg_withheld;
          ret None }) }"

text \<open>What the operator sets of a policy differs from what is there.\<close>
definition policy_drifted :: "'e klib_scheme \<Rightarrow> mcp_server \<Rightarrow> network_policy \<Rightarrow> network_policy \<Rightarrow> bool" where
  "policy_drifted L s existing desired =
     (np_spec existing \<noteq> np_spec desired \<or> \<not> is_controlled_by L (np_meta existing) (s_meta s)
      \<or> \<not> labelsContain (m_labels (np_meta existing)) (m_labels (np_meta desired))
      \<or> \<not> labelsContain (m_annotations (np_meta existing)) (m_annotations (np_meta desired)))"

definition report_policy_taken :: "'e env_scheme \<Rightarrow> string \<Rightarrow> unit srv" where
  "report_policy_taken E n = do {
     cs \<leftarrow> the_conditions;
     whenM (case find_condition E cs ConditionNetworkPolicyApplied of
              None \<Rightarrow> True | Some k \<Rightarrow> c_reason k \<noteq> ReasonPolicyNameTaken)
       (event Warning ReasonPolicyNameTaken (msg_np_taken_event n));
     setServerCondition E ConditionNetworkPolicyApplied CondFalse ReasonPolicyNameTaken (msg_np_taken n) }"

definition write_policy ::
  "'e env_scheme \<Rightarrow> server_reconciler \<Rightarrow> mcp_server \<Rightarrow> network_policy \<Rightarrow> (gerr option) srv" where
  "write_policy E R s desired = do {
     r \<leftarrow> fetch NetPolKind (get_netpol E) (m_namespace (np_meta desired)) (m_name (np_meta desired));
     (case r of
        Inl e \<Rightarrow>
          (if is_not_found e then do {
             x \<leftarrow> applyOwned E (KNetPol desired);
             (case x of
                Some y \<Rightarrow> ret (Some (Wrap ''failed to create NetworkPolicy: '' y))
              | None \<Rightarrow> do {
                  event Normal ''NetworkPolicyCreated'' (''Created NetworkPolicy '' @ m_name (np_meta desired));
                  recordPolicyEnforcement E R (msg_np (m_name (np_meta desired)) '' created'');
                  ret None }) }
           else ret (Some (Wrap ''failed to get NetworkPolicy: '' e)))
      | Inr existing \<Rightarrow>
         (if \<not> perServerPolicyOwned E s existing then do {
            report_policy_taken E (m_name (np_meta existing));
            ret None }
          else do {
            x \<leftarrow> (if policy_drifted E s existing desired then do {
                   y \<leftarrow> applyOwned E (KNetPol desired);
                   (case y of
                      Some e \<Rightarrow> ret (Some (Wrap ''failed to update NetworkPolicy: '' e))
                    | None \<Rightarrow> do {
                        event Normal ''NetworkPolicyUpdated'' (''Updated NetworkPolicy '' @ m_name (np_meta desired));
                        ret None }) }
                 else ret None);
            (case x of
               Some e \<Rightarrow> ret (Some e)
             | None \<Rightarrow> do {
                 recordPolicyEnforcement E R (msg_np (m_name (np_meta desired)) '' applied'');
                 ret None }) })) }"

definition open_egress :: "'e env_scheme \<Rightarrow> server_reconciler \<Rightarrow> mcp_server \<Rightarrow> (gerr option) srv" where
  "open_egress E R s = (case BuildNetworkPolicy (sr_dns R) s of
     None \<Rightarrow> do {
       x \<leftarrow> deleteNetworkPolicyIfExists E s;
       (case x of
          Some e \<Rightarrow> ret (Some e)
        | None \<Rightarrow> do {
            setServerCondition E ConditionNetworkPolicyApplied CondFalse ReasonNoPolicyNeeded msg_no_caps;
            ret None }) }
   | Some d \<Rightarrow> (case set_controller E (s_meta s) (np_meta d) of
        Inl e \<Rightarrow> ret (Some (Wrap ''failed to set owner reference on NetworkPolicy: '' e))
      | Inr m \<Rightarrow> write_policy E R s (d\<lparr>np_meta := m\<rparr>)))"

text \<open>\<open>reconcileNetworkPolicy\<close>: the pin coupling first.\<close>
definition reconcileNetworkPolicy ::
  "'e env_scheme \<Rightarrow> server_reconciler \<Rightarrow> mcp_server \<Rightarrow> (gerr option) srv" where
  "reconcileNetworkPolicy E R s =
     (if IsContainerMode s \<and> \<not> IsImageDigestPinned (sp_image (s_spec s)) (m_annotations (s_meta s))
      then do {
        g \<leftarrow> namespaceEnforcesEgress E (s_ns s);
        (case g of
           Inl e \<Rightarrow> ret (Some e)
         | Inr governed \<Rightarrow> (if governed then withhold_egress E s else open_egress E R s)) }
      else open_egress E R s)"

section \<open>Violations\<close>

definition activeViolationsPrefix :: string where "activeViolationsPrefix = ''Active violations: ''"

definition activeViolationTypes :: "condition option \<Rightarrow> string list" where
  "activeViolationTypes cond = (case cond of
     None \<Rightarrow> []
   | Some k \<Rightarrow>
      (if c_status k \<noteq> CondTrue \<or> \<not> has_prefix (c_message k) activeViolationsPrefix then []
       else filter (\<lambda>t. t \<noteq> []) (map trim_space
              (split_on CHR '','' (drop (length activeViolationsPrefix) (c_message k))))))"

definition v_drift :: "string \<Rightarrow> int \<Rightarrow> violation_record" where
  "v_drift mode t = \<lparr>vr_type = ''capability_drift'',
     vr_detail = ''Network capabilities declared but NetworkPolicy not applied'',
     vr_severity = ''high'', vr_action = mode, vr_destination = [], vr_time = t\<rparr>"

definition v_tools :: "string \<Rightarrow> int \<Rightarrow> int \<Rightarrow> int \<Rightarrow> violation_record" where
  "v_tools mode t count maximum = \<lparr>vr_type = ''undeclared_tool'',
     vr_detail = ''Provider exposes '' @ itoa count @ '' tools but max declared is '' @ itoa maximum,
     vr_severity = ''medium'', vr_action = mode, vr_destination = [], vr_time = t\<rparr>"

text \<open>Detection 1 and 2: from the capabilities, the conditions and the tool count.\<close>
definition drift_detected :: "'e klib_scheme \<Rightarrow> server_caps \<Rightarrow> condition list \<Rightarrow> bool" where
  "drift_detected L caps cs = (case cap_network caps of
     None \<Rightarrow> False
   | Some n \<Rightarrow> nc_egress n \<noteq> [] \<and> (case getCondition L cs ConditionNetworkPolicyApplied of
        None \<Rightarrow> True
      | Some k \<Rightarrow> c_status k \<noteq> CondTrue \<and> c_reason k \<noteq> ReasonPolicyWrittenUnenforced
          \<and> c_reason k \<noteq> ReasonPolicyWrittenUnverified))"

definition excess_tools :: "server_caps \<Rightarrow> int \<Rightarrow> int option" where
  "excess_tools caps count = (case cap_tools caps of
     None \<Rightarrow> None
   | Some t \<Rightarrow> (if tc_max_count t > 0 \<and> count > tc_max_count t then Some (tc_max_count t) else None))"

definition detect_violations ::
  "'e klib_scheme \<Rightarrow> server_caps \<Rightarrow> int \<Rightarrow> server_status \<Rightarrow> violation_record list" where
  "detect_violations L caps t st =
     (let mode = (if cap_enforcement caps = [] then ''alert'' else cap_enforcement caps) in
      (if drift_detected L caps (ss_conditions st) then [v_drift mode t] else [])
      @ (case excess_tools caps (ss_tools_count st) of
           None \<Rightarrow> [] | Some maximum \<Rightarrow> [v_tools mode t (ss_tools_count st) maximum]))"

definition keep_last :: "nat \<Rightarrow> 'a list \<Rightarrow> 'a list" where
  "keep_last n xs = drop (length xs - n) xs"

definition msg_violation :: "violation_record \<Rightarrow> string" where
  "msg_violation v = ''Capability violation: '' @ vr_type v @ '' - '' @ vr_detail v"
definition msg_no_violations :: string where
  "msg_no_violations = ''No capability violations detected''"

definition announce_violation :: "mcp_server \<Rightarrow> violation_record \<Rightarrow> unit srv" where
  "announce_violation s v = do {
     emit (Metric ''capability_violations_total'' [s_ns s, s_name s, vr_type v]);
     event Warning ''ViolationDetected'' (msg_violation v) }"

definition reconcileViolationDetection :: "'e env_scheme \<Rightarrow> mcp_server \<Rightarrow> (gerr option) srv" where
  "reconcileViolationDetection E s = (case sp_caps (s_spec s) of
     None \<Rightarrow> ret None
   | Some caps \<Rightarrow> do {
       t \<leftarrow> now E;
       ob \<leftarrow> the_obj;
       cs \<leftarrow> the_conditions;
       (let found = detect_violations E caps t (s_status ob);
            cond = getCondition E cs ConditionViolationDetected;
            fresh = filter (\<lambda>v. vr_type v \<notin> set (activeViolationTypes cond)) found in
        if found = [] then do {
          whenM (case cond of None \<Rightarrow> False | Some k \<Rightarrow> c_status k = CondTrue) (do {
            setServerCondition E ConditionViolationDetected CondFalse ''NoViolations'' msg_no_violations;
            event Normal ''ViolationCleared'' msg_no_violations });
          ret None }
        else do {
          for_each (announce_violation s) fresh;
          upd_status (\<lambda>st. st\<lparr>ss_violations := keep_last MaxViolationRecords (ss_violations st @ fresh)\<rparr>);
          setServerCondition E ConditionViolationDetected CondTrue ''ViolationsFound''
            (activeViolationsPrefix @ join '', '' (sort_strings (map vr_type found)));
          ret None }) })"

section \<open>The audit of wildcard egress\<close>

definition allowUnrestrictedEgressAnnotation :: string where
  "allowUnrestrictedEgressAnnotation = ''hangar.io/allow-unrestricted-egress''"

definition reconcileEgressAudit :: "mcp_server \<Rightarrow> unit srv" where
  "reconcileEgressAudit s = (case sp_caps (s_spec s) of
     None \<Rightarrow> ret ()
   | Some caps \<Rightarrow> (case cap_network caps of
        None \<Rightarrow> ret ()
      | Some n \<Rightarrow> whenM (list_ex IsUnrestrictedEgress (nc_egress n)
            \<and> label_of (m_annotations (s_meta s)) allowUnrestrictedEgressAnnotation = str_true)
          (event Warning ''UnrestrictedEgressAllowed''
            ''Provider uses wildcard egress with explicit override annotation'')))"

section \<open>Provider ingress\<close>

definition ingress_choice :: "server_reconciler \<Rightarrow> mcp_server \<Rightarrow> gerr + bool \<times> string" where
  "ingress_choice R s =
     (if IsRemoteMode s then Inr (False, ''NotApplicable'')
      else (case map_of (m_annotations (s_meta s)) AnnotationProviderIngress of
          None \<Rightarrow> Inr (ic_enabled (sr_ingress R), ''Disabled'')
        | Some v \<Rightarrow>
           (if v = str_true then Inr (True, ''Disabled'')
            else if v = ''false'' then Inr (False, ''Disabled'')
            else Inl (Plain (AnnotationProviderIngress @ '' must be true or false'')))))"

definition msg_no_fence :: string where
  "msg_no_fence = ''no provider ingress fence requested or applicable''"
definition msg_fence :: "'e klib_scheme \<Rightarrow> ingress_config \<Rightarrow> signal \<Rightarrow> string" where
  "msg_fence L c sg = ''ingress TCP/8080 from namespace '' @ quote (ic_namespace c) @ '' pods ''
     @ (case ic_selector c of None \<Rightarrow> ''<none>'' | Some sel \<Rightarrow> format_selector L sel) @ ''; ''
     @ sg_source sg @ ''; independent allow policies may widen ingress''"

definition record_ingress :: "'e env_scheme \<Rightarrow> server_reconciler \<Rightarrow> unit srv" where
  "record_ingress E R = do {
     sg \<leftarrow> Signal E (sr_probe R);
     (let (status, reason) =
        (if sg_verdict sg = Observed then (CondTrue, ReasonPolicyApplied)
         else if sg_verdict sg = NotObserved then (CondFalse, ''EnforcementNotObserved'')
         else (CondUnknown, ''EnforcementUnverified'')) in
      setServerCondition E ConditionProviderIngressApplied status reason (msg_fence E (sr_ingress R) sg)) }"

definition remove_fence ::
  "'e env_scheme \<Rightarrow> network_policy option \<Rightarrow> string \<Rightarrow> (gerr option) srv" where
  "remove_fence E existing reason = do {
     x \<leftarrow> (case existing of
            None \<Rightarrow> ret None
          | Some np \<Rightarrow> do {
              y \<leftarrow> perform E (Delete NetPolKind (m_namespace (np_meta np)) (m_name (np_meta np)));
              ret (case y of None \<Rightarrow> None | Some e \<Rightarrow> ignore_not_found e) });
     (case x of
        Some e \<Rightarrow> ret (Some e)
      | None \<Rightarrow> do {
          setServerCondition E ConditionProviderIngressApplied CondFalse reason msg_no_fence;
          ret None }) }"

definition write_fence ::
  "'e env_scheme \<Rightarrow> server_reconciler \<Rightarrow> mcp_server \<Rightarrow> network_policy option \<Rightarrow> (gerr option) srv" where
  "write_fence E R s existing = (case BuildProviderIngress s (sr_ingress R) of
     Inl e \<Rightarrow> ret (Some e)
   | Inr d \<Rightarrow> (case set_controller E (s_meta s) (np_meta d) of
        Inl e \<Rightarrow> ret (Some e)
      | Inr m \<Rightarrow> do {
          x \<leftarrow> (if (case existing of None \<Rightarrow> True | Some np \<Rightarrow> np_spec np \<noteq> np_spec d
                     \<or> \<not> labelsContain (m_labels (np_meta np)) (m_labels m))
               then applyOwned E (KNetPol (d\<lparr>np_meta := m\<rparr>)) else ret None);
          (case x of
             Some e \<Rightarrow> ret (Some (Wrap ''apply provider ingress policy: '' e))
           | None \<Rightarrow> do { record_ingress E R; ret None }) }))"

text \<open>\<open>reconcileProviderIngress\<close>: a policy under the name that this MCPServer does
  not control is an error when the fence is wanted and left alone otherwise.\<close>
definition reconcileProviderIngress ::
  "'e env_scheme \<Rightarrow> server_reconciler \<Rightarrow> mcp_server \<Rightarrow> (gerr option) srv" where
  "reconcileProviderIngress E R s = (case ingress_choice R s of
     Inl e \<Rightarrow> ret (Some e)
   | Inr (enabled, reason) \<Rightarrow> do {
       r \<leftarrow> fetch NetPolKind (get_netpol E) (s_ns s) (ProviderIngressPolicyName (s_name s));
       (case (case r of Inl e \<Rightarrow> (if is_not_found e then Inr None else Inl e) | Inr np \<Rightarrow> Inr (Some np)) of
          Inl e \<Rightarrow> ret (Some e)
        | Inr found \<Rightarrow>
           (if (case found of None \<Rightarrow> False | Some np \<Rightarrow> \<not> is_controlled_by E (np_meta np) (s_meta s))
            then (if enabled then ret (Some (Plain (''ingress NetworkPolicy '' @ s_ns s @ ''/''
                      @ ProviderIngressPolicyName (s_name s) @ '' exists with a different owner'')))
                  else remove_fence E None reason)
            else if \<not> enabled then remove_fence E found reason
            else write_fence E R s found)) })"

section \<open>The contract of an owned policy\<close>

text \<open>
  A controller that keeps a NetworkPolicy recognises its own by \<open>mine\<close> and marks
  what it writes by \<open>stamp\<close>: what it wrote it recognises, and the mark changes
  nothing it compares.
\<close>
locale managed_policy =
  fixes mine :: "'o \<Rightarrow> network_policy \<Rightarrow> bool"
    and stamp :: "'o \<Rightarrow> network_policy \<Rightarrow> gerr + network_policy"
  assumes stamp_mine: "stamp ob p = Inr p' \<Longrightarrow> mine ob p'"
    and stamp_keeps: "stamp ob p = Inr p' \<Longrightarrow> np_spec p' = np_spec p
      \<and> m_name (np_meta p') = m_name (np_meta p) \<and> m_namespace (np_meta p') = m_namespace (np_meta p)
      \<and> m_labels (np_meta p') = m_labels (np_meta p) \<and> m_annotations (np_meta p') = m_annotations (np_meta p)"
begin

lemma stamped_name: "stamp ob p = Inr p' \<Longrightarrow> m_name (np_meta p') = m_name (np_meta p)
    \<and> m_namespace (np_meta p') = m_namespace (np_meta p)"
  using stamp_keeps by blast

text \<open>What was written is not a stranger's the next time it is read.\<close>
lemma written_not_taken: "stamp ob p = Inr p' \<Longrightarrow> np_meta q = np_meta p' \<Longrightarrow> np_spec q = np_spec p' \<Longrightarrow> mine ob q"
  using stamp_mine by (metis network_policy.equality old.unit.exhaust)

end

definition stamp_server :: "'e klib_scheme \<Rightarrow> mcp_server \<Rightarrow> network_policy \<Rightarrow> gerr + network_policy" where
  "stamp_server L s p = (case set_controller L (s_meta s) (np_meta p) of
     Inl e \<Rightarrow> Inl e | Inr m \<Rightarrow> Inr (p\<lparr>np_meta := m\<rparr>))"

lemma server_policy_managed:
  assumes "lib_owners L"
  shows "managed_policy (perServerPolicyOwned L) (stamp_server L)"
proof
  fix s p p'
  assume st: "stamp_server L s p = Inr p'"
  then obtain m where m: "set_controller L (s_meta s) (np_meta p) = Inr m" "p' = p\<lparr>np_meta := m\<rparr>"
    by (auto simp: stamp_server_def split: sum.splits)
  show "perServerPolicyOwned L s p'"
    using owner_refs.setref_controlled [OF assms m(1)] m(2) by (simp add: perServerPolicyOwned_def)
  have "m\<lparr>m_owners := m_owners (np_meta p)\<rparr> = np_meta p" by (rule owner_refs.setref_frame [OF assms m(1)])
  then have "m_name m = m_name (np_meta p) \<and> m_namespace m = m_namespace (np_meta p)
      \<and> m_labels m = m_labels (np_meta p) \<and> m_annotations m = m_annotations (np_meta p)"
    by (cases m; cases "np_meta p") simp
  then show "np_spec p' = np_spec p \<and> m_name (np_meta p') = m_name (np_meta p)
      \<and> m_namespace (np_meta p') = m_namespace (np_meta p)
      \<and> m_labels (np_meta p') = m_labels (np_meta p) \<and> m_annotations (np_meta p') = m_annotations (np_meta p)"
    using m(2) by simp
qed

interpretation server_policy: managed_policy "perServerPolicyOwned std_lib" "stamp_server std_lib"
  by (rule server_policy_managed [OF std_lib_owners])

section \<open>Facts\<close>

lemma open_egress_stamp: "open_egress E R s = (case BuildNetworkPolicy (sr_dns R) s of
     None \<Rightarrow> do {
       x \<leftarrow> deleteNetworkPolicyIfExists E s;
       (case x of
          Some e \<Rightarrow> ret (Some e)
        | None \<Rightarrow> do {
            setServerCondition E ConditionNetworkPolicyApplied CondFalse ReasonNoPolicyNeeded msg_no_caps;
            ret None }) }
   | Some d \<Rightarrow> (case stamp_server E s d of
        Inl e \<Rightarrow> ret (Some (Wrap ''failed to set owner reference on NetworkPolicy: '' e))
      | Inr p \<Rightarrow> write_policy E R s p))"
  by (simp add: open_egress_def stamp_server_def split: option.split sum.split)

lemma build_policy_name:
  "BuildNetworkPolicy cfg s = Some p \<Longrightarrow> m_name (np_meta p) = NetworkPolicyName (s_name s)
     \<and> m_namespace (np_meta p) = s_ns s"
  by (auto simp: BuildNetworkPolicy_def mk_meta_def Let_def split: option.splits if_splits)

lemma triple_setServerCondition [wp]:
  "triple G (\<lambda>t. Q () (t\<lparr>st_obj := (st_obj t)\<lparr>s_status := (s_status (st_obj t))\<lparr>ss_conditions :=
       upsertCondition E (clock E (st_log t)) (ss_conditions (s_status (st_obj t)))
         (m_generation (s_meta (st_obj t))) ty status reason msg\<rparr>\<rparr>\<rparr>))
     (setServerCondition E ty status reason msg) Q"
  unfolding setServerCondition_def by (rule triple_pre, (rule wp)+) simp

lemma triple_the_conditions [wp]:
  "triple G (\<lambda>t. Q (ss_conditions (s_status (st_obj t))) t) the_conditions Q"
  unfolding the_conditions_def by (rule triple_pre, (rule wp)+) simp

lemma emits_recordPolicy [emits_intro]:
  "A (ListObjs DaemonSetKind [] None) \<Longrightarrow> (\<And>t r m. A (Event t r m)) \<Longrightarrow> emits A (recordPolicyEnforcement E R w)"
  "(\<And>t r m. A (Event t r m)) \<Longrightarrow> emits A (report_policy_taken E n)"
  unfolding recordPolicyEnforcement_def report_policy_taken_def by (intro emits_intro; assumption)+

subsection \<open>Writes after reads\<close>

text \<open>The server's policy name was read at or after position \<open>n\<close> with an answer
  satisfying \<open>ok\<close>.\<close>
abbreviation policy_seen ::
  "'e env_scheme \<Rightarrow> mcp_server \<Rightarrow> nat \<Rightarrow> (gerr + network_policy \<Rightarrow> bool) \<Rightarrow> history \<Rightarrow> bool" where
  "policy_seen E s \<equiv> seen (get_netpol E) NetPolKind (s_ns s) (NetworkPolicyName (s_name s))"

definition free_or_owned :: "'e klib_scheme \<Rightarrow> mcp_server \<Rightarrow> gerr + network_policy \<Rightarrow> bool" where
  "free_or_owned L s r = (case r of Inl e \<Rightarrow> is_not_found e | Inr np \<Rightarrow> perServerPolicyOwned L s np)"

definition owned_there :: "'e klib_scheme \<Rightarrow> mcp_server \<Rightarrow> string \<Rightarrow> string \<Rightarrow> gerr + network_policy \<Rightarrow> bool" where
  "owned_there L s ns nm r = (case r of Inl e \<Rightarrow> False
     | Inr np \<Rightarrow> perServerPolicyOwned L s np \<and> m_namespace (np_meta np) = ns \<and> m_name (np_meta np) = nm)"

text \<open>The rule a step must follow at history \<open>l\<close>.\<close>
definition policy_guard :: "'e env_scheme \<Rightarrow> mcp_server \<Rightarrow> nat \<Rightarrow> history \<Rightarrow> effect \<Rightarrow> bool" where
  "policy_guard E s n l e = (case e of
     Apply (KNetPol p) \<Rightarrow> m_name (np_meta p) = NetworkPolicyName (s_name s)
       \<and> m_namespace (np_meta p) = s_ns s \<and> policy_seen E s n (free_or_owned E s) l
   | Delete k ns nm \<Rightarrow> k = NetPolKind \<and> policy_seen E s n (owned_there E s ns nm) l
   | Apply _ \<Rightarrow> False | Create _ \<Rightarrow> False | Update _ \<Rightarrow> False
   | _ \<Rightarrow> True)"

lemma policy_guard_other [simp]:
  "policy_guard E s n l (ReadObj k ns nm)" "policy_guard E s n l (Event t r m)"
  "policy_guard E s n l (ListObjs k ns sel)"
  by (simp_all add: policy_guard_def)

lemma guard_quiet:
  assumes "emits (\<lambda>e. \<forall>l. policy_guard E s n l e) m"
  shows "triple (policy_guard E s n) (\<lambda>t. n \<le> length (st_log t)) m (\<lambda>a t. n \<le> length (st_log t))"
  by (rule triple_invariant [OF assms, where I = "\<lambda>l. n \<le> length l"]) auto

lemma guard_silent:
  assumes "emits (\<lambda>e. \<forall>l. policy_guard E s n l e) m"
  shows "triple (policy_guard E s n) P m (\<lambda>a t. True)"
  using assms unfolding triple_def by fastforce

lemma guard_delete:
  "triple (policy_guard E s n) (\<lambda>t. n \<le> length (st_log t)) (deleteNetworkPolicyIfExists E s) (\<lambda>a t. True)"
  unfolding deleteNetworkPolicyIfExists_def
proof (rule triple_bind)
  show "triple (policy_guard E s n) (\<lambda>t. n \<le> length (st_log t))
     (fetch NetPolKind (get_netpol E) (s_ns s) (NetworkPolicyName (s_name s)))
     (\<lambda>r t. policy_seen E s n ((=) r) (st_log t))"
    by (rule triple_pre, rule wp) (simp add: seen_now)
  show "triple (policy_guard E s n) (\<lambda>t. policy_seen E s n ((=) r) (st_log t))
     (case r of
        Inl e \<Rightarrow> ret (if is_not_found e then None else Some e)
      | Inr np \<Rightarrow>
         (if \<not> perServerPolicyOwned E s np then ret None
          else perform E (Delete NetPolKind (m_namespace (np_meta np)) (m_name (np_meta np))))) (\<lambda>a t. True)" for r
  proof (intro triple_cases triple_return TrueI)
    fix np assume "r = Inr np" "\<not> \<not> perServerPolicyOwned E s np"
    then show "triple (policy_guard E s n) (\<lambda>t. policy_seen E s n ((=) r) (st_log t))
       (perform E (Delete NetPolKind (m_namespace (np_meta np)) (m_name (np_meta np)))) (\<lambda>a t. True)"
      by (intro triple_pre [OF triple_perform])
        (auto simp: policy_guard_def owned_there_def elim: seen_known)
  qed
qed

lemma guard_apply:
  assumes "m_name (np_meta p) = NetworkPolicyName (s_name s)" "m_namespace (np_meta p) = s_ns s"
  shows "triple (policy_guard E s n) (\<lambda>t. policy_seen E s n (free_or_owned E s) (st_log t))
     (applyOwned E (KNetPol p)) (\<lambda>a t. True)"
  unfolding applyOwned_def
  by (intro triple_cases triple_return TrueI triple_pre [OF triple_perform])
    (auto simp: policy_guard_def applyUnstructured_def strip_meta_def assms)

lemma guard_write:
  assumes p: "m_name (np_meta p) = NetworkPolicyName (s_name s)" "m_namespace (np_meta p) = s_ns s"
  shows "triple (policy_guard E s n) (\<lambda>t. n \<le> length (st_log t)) (write_policy E R s p) (\<lambda>a t. True)"
  unfolding write_policy_def p
proof (rule triple_bind)
  show "triple (policy_guard E s n) (\<lambda>t. n \<le> length (st_log t))
     (fetch NetPolKind (get_netpol E) (s_ns s) (NetworkPolicyName (s_name s)))
     (\<lambda>r t. policy_seen E s n ((=) r) (st_log t))"
    by (rule triple_pre, rule wp) (simp add: seen_now)
  have applies: "triple (policy_guard E s n) (\<lambda>t. policy_seen E s n ((=) r) (st_log t))
     (applyOwned E (KNetPol p)) (\<lambda>a t. True)" if "free_or_owned E s r" for r
    by (rule triple_pre [OF guard_apply [OF p]]) (rule seen_known, assumption, rule that)
  have rest: "triple (policy_guard E s n) (\<lambda>t. True) m (\<lambda>a t. True)"
    if "emits (\<lambda>e. \<forall>l. policy_guard E s n l e) m" for m :: "'b srv"
    by (rule guard_silent [OF that])
  fix r
  show "triple (policy_guard E s n) (\<lambda>t. policy_seen E s n ((=) r) (st_log t))
     (case r of
        Inl e \<Rightarrow>
          (if is_not_found e then do {
             x \<leftarrow> applyOwned E (KNetPol p);
             (case x of
                Some y \<Rightarrow> ret (Some (Wrap ''failed to create NetworkPolicy: '' y))
              | None \<Rightarrow> do {
                  event Normal ''NetworkPolicyCreated'' (''Created NetworkPolicy '' @ NetworkPolicyName (s_name s));
                  recordPolicyEnforcement E R (msg_np (NetworkPolicyName (s_name s)) '' created'');
                  ret None }) }
           else ret (Some (Wrap ''failed to get NetworkPolicy: '' e)))
      | Inr existing \<Rightarrow>
         (if \<not> perServerPolicyOwned E s existing then do {
            report_policy_taken E (m_name (np_meta existing));
            ret None }
          else do {
            x \<leftarrow> (if policy_drifted E s existing p then do {
                   y \<leftarrow> applyOwned E (KNetPol p);
                   (case y of
                      Some e \<Rightarrow> ret (Some (Wrap ''failed to update NetworkPolicy: '' e))
                    | None \<Rightarrow> do {
                        event Normal ''NetworkPolicyUpdated'' (''Updated NetworkPolicy '' @ NetworkPolicyName (s_name s));
                        ret None }) }
                 else ret None);
            (case x of
               Some e \<Rightarrow> ret (Some e)
             | None \<Rightarrow> do {
                 recordPolicyEnforcement E R (msg_np (NetworkPolicyName (s_name s)) '' applied'');
                 ret None }) })) (\<lambda>a t. True)"
    by (intro triple_cases triple_return TrueI
        triple_bind [where R = "\<lambda>a t. True", OF applies] triple_bind [where R = "\<lambda>a t. True", OF _ rest]
        guard_silent emits_intro)
      (simp_all add: free_or_owned_def)
qed

lemma guard_open:
  assumes "lib_owners E"
  shows "triple (policy_guard E s n) (\<lambda>t. n \<le> length (st_log t)) (open_egress E R s) (\<lambda>a t. True)"
  unfolding open_egress_stamp
proof (intro triple_cases triple_return TrueI)
  show "triple (policy_guard E s n) (\<lambda>t. n \<le> length (st_log t)) (do {
       x \<leftarrow> deleteNetworkPolicyIfExists E s;
       (case x of
          Some e \<Rightarrow> ret (Some e)
        | None \<Rightarrow> do {
            setServerCondition E ConditionNetworkPolicyApplied CondFalse ReasonNoPolicyNeeded msg_no_caps;
            ret None }) }) (\<lambda>a t. True)"
    by (rule triple_bind [OF guard_delete guard_silent]) (intro emits_intro)
  fix d p assume "BuildNetworkPolicy (sr_dns R) s = Some d" "stamp_server E s d = Inr p"
  then show "triple (policy_guard E s n) (\<lambda>t. n \<le> length (st_log t)) (write_policy E R s p) (\<lambda>a t. True)"
    using build_policy_name managed_policy.stamped_name [OF server_policy_managed [OF assms]]
    by (intro guard_write) metis+
qed

lemma guard_reconcile:
  assumes "lib_owners E"
  shows "triple (policy_guard E s n) (\<lambda>t. n \<le> length (st_log t)) (reconcileNetworkPolicy E R s) (\<lambda>a t. True)"
proof -
  have ns: "triple (policy_guard E s n) (\<lambda>t. n \<le> length (st_log t)) (namespaceEnforcesEgress E (s_ns s))
      (\<lambda>a t. n \<le> length (st_log t))"
    by (rule guard_quiet) (unfold namespaceEnforcesEgress_def, intro emits_intro, simp)
  have wh: "triple (policy_guard E s n) (\<lambda>t. n \<le> length (st_log t)) (withhold_egress E s) (\<lambda>a t. True)"
    unfolding withhold_egress_def
    by (rule triple_bind [OF guard_delete guard_silent]) (intro emits_intro, simp)
  show ?thesis unfolding reconcileNetworkPolicy_def
    by (intro triple_if triple_bind [OF ns] triple_sum triple_return TrueI wh guard_open assms)
qed

subsection \<open>What the condition rests on\<close>

text \<open>The verdict the probe last gave is Observed, or the override says so.\<close>
definition enforcer_known :: "server_reconciler \<Rightarrow> kept \<Rightarrow> bool" where
  "enforcer_known R k = probe_observed (sr_probe R) k"

definition applied_claim :: "'e klib_scheme \<Rightarrow> server_reconciler \<Rightarrow> (mcp_server, server_status, kept) st \<Rightarrow> bool" where
  "applied_claim L R t = (\<forall>k. find_condition L (ss_conditions (s_status (st_obj t))) ConditionNetworkPolicyApplied
      = Some k \<longrightarrow> c_status k = CondTrue \<longrightarrow> enforcer_known R (st_kept t))"

lemma Signal_kept:
  "triple (\<lambda>l e. True) (\<lambda>t. True) (Signal E (sr_probe R))
     (\<lambda>sg t. sg_verdict sg = Observed \<longrightarrow> enforcer_known R (st_kept t))"
  unfolding enforcer_known_def by (rule Signal_observed)

lemma applied_set:
  assumes "lib_conds E" "reason \<noteq> []"
  shows "triple (\<lambda>l e. True) (\<lambda>t. status = CondTrue \<longrightarrow> enforcer_known R (st_kept t))
     (setServerCondition E ConditionNetworkPolicyApplied status reason msg) (\<lambda>a t. applied_claim E R t)"
proof (rule triple_pre, rule wp)
  fix t :: "(mcp_server, server_status, kept) st"
  assume "status = CondTrue \<longrightarrow> enforcer_known R (st_kept t)"
  then show "applied_claim E R (t\<lparr>st_obj := (st_obj t)\<lparr>s_status := (s_status (st_obj t))\<lparr>ss_conditions :=
       upsertCondition E (clock E (st_log t)) (ss_conditions (s_status (st_obj t)))
         (m_generation (s_meta (st_obj t))) ConditionNetworkPolicyApplied status reason msg\<rparr>\<rparr>\<rparr>)"
    using condition_after_set [OF assms, of "clock E (st_log t)" "ss_conditions (s_status (st_obj t))"
        "m_generation (s_meta (st_obj t))" ConditionNetworkPolicyApplied status msg]
    by (auto simp: applied_claim_def)
qed

abbreviation "claims_ok E R m \<equiv>
  triple (\<lambda>l e. True) (\<lambda>t. True) m (\<lambda>r t. r = None \<longrightarrow> applied_claim E R t)"

lemma applied_then_none:
  "triple (\<lambda>l e. True) P m (\<lambda>a t. applied_claim E R t) \<Longrightarrow>
   triple (\<lambda>l e. True) P (do { m; ret None }) (\<lambda>r t. r = None \<longrightarrow> applied_claim E R t)"
  by (rule triple_bind, assumption) (simp add: triple_return)

lemma applied_record:
  assumes "lib_conds E"
  shows "triple (\<lambda>l e. True) (\<lambda>t. True) (recordPolicyEnforcement E R w) (\<lambda>a t. applied_claim E R t)"
proof -
  have warn: "triple (\<lambda>l e. True) (\<lambda>t. True) (whenM b (event Warning r m)) (\<lambda>a t. True)" for b r m
    by (intro emits_intro TrueI)
  have cs: "triple (\<lambda>l e. True) (\<lambda>t. True) the_conditions (\<lambda>a t. True)" by (intro emits_intro)
  show ?thesis unfolding recordPolicyEnforcement_def
    by (intro triple_bind [OF Signal_kept] triple_if triple_pre [OF applied_set]
        triple_pre [OF triple_bind [OF cs]] triple_bind [OF warn] assms)
      (auto simp: policy_reasons)
qed

lemma claims_write:
  assumes "lib_conds E"
  shows "claims_ok E R (write_policy E R s p)"
proof -
  have bind: "claims_ok E R (State_Monad.bind m f)"
    if "emits (\<lambda>e. True) m" "\<And>x. claims_ok E R (f x)" for m :: "'b srv" and f :: "'b \<Rightarrow> (gerr option) srv"
    by (rule triple_bind [OF that])
  have last: "claims_ok E R (do { recordPolicyEnforcement E R w; ret None })"
    "claims_ok E R (do { report_policy_taken E nm; ret None })" for w nm
    unfolding report_policy_taken_def
    by (intro applied_then_none applied_record assms)
      (intro applied_then_none triple_bind [where R = "\<lambda>a t. True"] triple_pre [OF applied_set] emits_intro TrueI assms;
        simp add: policy_reasons)
  show ?thesis unfolding write_policy_def
    by (intro bind triple_cases triple_return last emits_intro TrueI) simp_all
qed

lemma claims_reconcile:
  assumes "lib_conds E"
  shows "claims_ok E R (reconcileNetworkPolicy E R s)"
proof -
  have del: "emits (\<lambda>e. True) (deleteNetworkPolicyIfExists E s)"
    unfolding deleteNetworkPolicyIfExists_def by (intro emits_intro TrueI)
  have set: "claims_ok E R (do { setServerCondition E ConditionNetworkPolicyApplied CondFalse r m; ret None })"
    if "r \<noteq> []" for r m
    by (intro applied_then_none triple_pre [OF applied_set [OF assms that]]) simp
  have wh: "claims_ok E R (withhold_egress E s)"
    unfolding withhold_egress_def
    by (intro triple_bind [OF del] triple_option triple_return
        triple_bind [where R = "\<lambda>a t. True", OF emits_event] set) (simp_all add: policy_reasons)
  have op: "claims_ok E R (open_egress E R s)"
    unfolding open_egress_def
    by (intro triple_cases triple_bind [OF del] triple_return set claims_write assms)
      (simp_all add: policy_reasons)
  have ns: "emits (\<lambda>e. True) (namespaceEnforcesEgress E n)" for n
    unfolding namespaceEnforcesEgress_def by (intro emits_intro TrueI)
  show ?thesis unfolding reconcileNetworkPolicy_def
    by (intro triple_if triple_bind [OF ns] triple_sum triple_return wh op) simp
qed

text \<open>A step that fails leaves the object, and so its status, as it was.\<close>
definition error_keeps :: "(gerr option) srv \<Rightarrow> bool" where
  "error_keeps m \<longleftrightarrow> (\<forall>s. fst (run_state m s) \<noteq> None \<longrightarrow> st_obj (snd (run_state m s)) = st_obj s)"

lemma error_keeps_none: "error_keeps (do { m; ret None })"
  by (simp add: error_keeps_def run_bind case_prod_unfold)
lemma error_keeps_bind: "log_only m \<Longrightarrow> (\<And>a. error_keeps (f a)) \<Longrightarrow> error_keeps (State_Monad.bind m f)"
  unfolding error_keeps_def by (auto simp: run_bind case_prod_unfold) (metis log_onlyD prod.collapse)
lemma error_keeps_cases:
  "error_keeps (ret x)"
  "error_keeps m \<Longrightarrow> error_keeps n \<Longrightarrow> error_keeps (if b then m else n)"
  "error_keeps m \<Longrightarrow> (\<And>y. error_keeps (f y)) \<Longrightarrow> error_keeps (case z of None \<Rightarrow> m | Some y \<Rightarrow> f y)"
  "(\<And>y. error_keeps (g y)) \<Longrightarrow> (\<And>y. error_keeps (h y)) \<Longrightarrow> error_keeps (case w of Inl y \<Rightarrow> g y | Inr y \<Rightarrow> h y)"
  by (simp_all add: error_keeps_def split: option.split sum.split)

lemmas error_keeps_rules = error_keeps_none error_keeps_cases error_keeps_bind

lemma error_keeps_write: "error_keeps (write_policy E R s d)"
  unfolding write_policy_def applyOwned_def by (intro error_keeps_rules log_only_intro)

lemma error_keeps_reconcile: "error_keeps (reconcileNetworkPolicy E R s)"
  unfolding reconcileNetworkPolicy_def namespaceEnforcesEgress_def withhold_egress_def open_egress_def
    deleteNetworkPolicyIfExists_def
  by (intro error_keeps_rules error_keeps_write log_only_intro)

subsection \<open>Violations\<close>

lemma keep_last_length: "length (keep_last n xs) \<le> n"
  by (simp add: keep_last_def)

lemma keep_last_Nil [simp]: "length xs \<le> n \<Longrightarrow> keep_last n (xs @ []) = xs"
  by (simp add: keep_last_def)

text \<open>The detected types are the two names, in order.\<close>
lemma detected_types:
  "map vr_type (detect_violations L caps t st) =
     (if drift_detected L caps (ss_conditions st) then [''capability_drift''] else [])
     @ (if excess_tools caps (ss_tools_count st) = None then [] else [''undeclared_tool''])"
  by (auto simp: detect_violations_def v_drift_def v_tools_def Let_def split: option.splits)

text \<open>What is written into the condition is read back from it.\<close>
lemma active_types_roundtrip:
  assumes "c_status k = CondTrue"
    and "c_message k = activeViolationsPrefix @ join '', '' (sort_strings (map vr_type (detect_violations L caps t st)))"
  shows "set (activeViolationTypes (Some k)) = set (map vr_type (detect_violations L caps t st))"
  unfolding activeViolationTypes_def option.case assms(2) detected_types
  by (auto simp: assms(1) has_prefix_def sort_strings_def trim_space_def is_space_def)

definition same_findings :: "'e klib_scheme \<Rightarrow> server_status \<Rightarrow> server_status \<Rightarrow> bool" where
  "same_findings L a b = (find_condition L (ss_conditions a) ConditionNetworkPolicyApplied
       = find_condition L (ss_conditions b) ConditionNetworkPolicyApplied
     \<and> ss_tools_count a = ss_tools_count b)"

lemma same_findings_types:
  assumes "same_findings L a b"
  shows "map vr_type (detect_violations L caps t a) = map vr_type (detect_violations L caps t' b)"
proof -
  have eqs: "find_condition L (ss_conditions a) ConditionNetworkPolicyApplied
       = find_condition L (ss_conditions b) ConditionNetworkPolicyApplied"
     "ss_tools_count a = ss_tools_count b" using assms by (simp_all add: same_findings_def)
  show ?thesis unfolding detected_types drift_detected_def getCondition_def eqs ..
qed

definition announced :: "mcp_server \<Rightarrow> violation_record \<Rightarrow> effect list" where
  "announced s v = [Metric ''capability_violations_total'' [s_ns s, s_name s, vr_type v],
     Event Warning ''ViolationDetected'' (msg_violation v)]"

lemma run_announce [simp]:
  "run_state (for_each (announce_violation s) vs) t
     = ((), t\<lparr>st_log := st_log t @ concat (map (announced s) vs)\<rparr>)"
  by (induction vs arbitrary: t) (simp_all add: announce_violation_def announced_def run_bind)

lemma run_setServerCondition [simp]:
  "run_state (setServerCondition E ty status reason msg) t =
     ((), t\<lparr>st_obj := (st_obj t)\<lparr>s_status := (s_status (st_obj t))\<lparr>ss_conditions :=
       upsertCondition E (clock E (st_log t)) (ss_conditions (s_status (st_obj t)))
         (m_generation (s_meta (st_obj t))) ty status reason msg\<rparr>\<rparr>\<rparr>)"
  by (simp add: setServerCondition_def run_bind)

lemma run_the_conditions [simp]:
  "run_state the_conditions t = (ss_conditions (s_status (st_obj t)), t)"
  by (simp add: the_conditions_def run_bind)

text \<open>The whole of a detection that finds something: \<open>fresh\<close> is what is new.\<close>
lemma run_detection_found:
  assumes "sp_caps (s_spec s) = Some caps"
    and "found = detect_violations E caps (clock E (st_log t)) (s_status (st_obj t))" "found \<noteq> []"
    and "fresh = filter (\<lambda>v. vr_type v \<notin> set (activeViolationTypes
          (find_condition E (ss_conditions (s_status (st_obj t))) ConditionViolationDetected))) found"
    and "run_state (reconcileViolationDetection E s) t = (r, t')"
  shows "st_log t' = st_log t @ concat (map (announced s) fresh)
    \<and> ss_violations (s_status (st_obj t'))
        = keep_last MaxViolationRecords (ss_violations (s_status (st_obj t)) @ fresh)
    \<and> ss_tools_count (s_status (st_obj t')) = ss_tools_count (s_status (st_obj t))
    \<and> (\<exists>at gen. ss_conditions (s_status (st_obj t')) = upsertCondition E at
          (ss_conditions (s_status (st_obj t))) gen ConditionViolationDetected CondTrue ''ViolationsFound''
          (activeViolationsPrefix @ join '', '' (sort_strings (map vr_type found))))"
  using assms
  by (auto simp: reconcileViolationDetection_def getCondition_def upd_status_def run_bind Let_def
      intro!: exI)

text \<open>One that finds nothing changes at most the condition, from True to False.\<close>
lemma run_detection_clear:
  assumes "sp_caps (s_spec s) = Some caps"
    and "detect_violations E caps (clock E (st_log t)) (s_status (st_obj t)) = []"
    and "run_state (reconcileViolationDetection E s) t = (r, t')"
  shows "ss_violations (s_status (st_obj t')) = ss_violations (s_status (st_obj t))
    \<and> ss_tools_count (s_status (st_obj t')) = ss_tools_count (s_status (st_obj t))
    \<and> (if \<exists>k. find_condition E (ss_conditions (s_status (st_obj t))) ConditionViolationDetected = Some k
           \<and> c_status k = CondTrue
       then \<exists>at gen. ss_conditions (s_status (st_obj t')) = upsertCondition E at
          (ss_conditions (s_status (st_obj t))) gen ConditionViolationDetected CondFalse ''NoViolations'' msg_no_violations
       else t' = t)"
  using assms
  by (auto simp: reconcileViolationDetection_def getCondition_def upd_status_def run_bind Let_def
      split: option.splits intro!: exI)

lemma other_condition_kept:
  "lib_conds E \<Longrightarrow> ty' \<noteq> ty \<Longrightarrow>
   find_condition E (upsertCondition E at cs gen ty status reason msg) ty' = find_condition E cs ty'"
  by (simp add: upsertCondition_def condition_list.find_set_other)

text \<open>A second detection on the same status, when the first found nothing and when it
  found something.\<close>
lemma same_findings_detect:
  assumes "same_findings E (s_status (st_obj t)) (s_status (st_obj t1))" "st_obj t2 = st_obj t1"
  shows "map vr_type (detect_violations E caps (clock E (st_log t)) (s_status (st_obj t)))
    = map vr_type (detect_violations E caps (clock E (st_log t2)) (s_status (st_obj t2)))"
  using same_findings_types [OF assms(1)] assms(2) by simp

lemma clear_twice:
  assumes E: "lib_conds E" and caps: "sp_caps (s_spec s) = Some caps"
    and none: "detect_violations E caps (clock E (st_log t)) (s_status (st_obj t)) = []"
    and run: "run_state (reconcileViolationDetection E s) t = (r1, t1)"
    and t2: "st_obj t2 = st_obj t1" and again: "run_state (reconcileViolationDetection E s) t2 = (r, t3)"
  shows "t3 = t2"
proof -
  let ?bad = "\<lambda>t. \<exists>k. find_condition E (ss_conditions (s_status (st_obj t))) ConditionViolationDetected = Some k
      \<and> c_status k = CondTrue"
  note clear = run_detection_clear [OF caps none run]
  have "ConditionNetworkPolicyApplied \<noteq> ConditionViolationDetected" by (simp add: condition_names)
  then have "same_findings E (s_status (st_obj t)) (s_status (st_obj t1))"
    using clear other_condition_kept [OF E] by (auto simp: same_findings_def split: if_splits)
  then have g: "detect_violations E caps (clock E (st_log t2)) (s_status (st_obj t2)) = []"
    using same_findings_detect [OF _ t2] none by (metis list.map_disc_iff)
  have "\<not> ?bad t1"
  proof (cases "?bad t")
    case True
    then obtain at gen where "ss_conditions (s_status (st_obj t1)) = upsertCondition E at
        (ss_conditions (s_status (st_obj t))) gen ConditionViolationDetected CondFalse ''NoViolations'' msg_no_violations"
      using clear by auto
    then show ?thesis
      using condition_after_set [OF E, of "''NoViolations''" at "ss_conditions (s_status (st_obj t))" gen
          ConditionViolationDetected CondFalse msg_no_violations] by auto
  qed (use clear in simp)
  then show ?thesis using run_detection_clear [OF caps g again] t2 by simp
qed

lemma found_twice:
  assumes E: "lib_conds E" and caps: "sp_caps (s_spec s) = Some caps"
    and some: "detect_violations E caps (clock E (st_log t)) (s_status (st_obj t)) \<noteq> []" (is "?f \<noteq> []")
    and run: "run_state (reconcileViolationDetection E s) t = (r1, t1)"
    and t2: "st_obj t2 = st_obj t1" and again: "run_state (reconcileViolationDetection E s) t2 = (r, t3)"
  shows "ss_violations (s_status (st_obj t3)) = ss_violations (s_status (st_obj t1)) \<and> st_log t3 = st_log t2"
proof -
  let ?g = "detect_violations E caps (clock E (st_log t2)) (s_status (st_obj t2))"
  let ?msg = "activeViolationsPrefix @ join '', '' (sort_strings (map vr_type ?f))"
  note found = run_detection_found [OF caps refl some refl run]
  obtain at gen where cs: "ss_conditions (s_status (st_obj t1)) = upsertCondition E at
      (ss_conditions (s_status (st_obj t))) gen ConditionViolationDetected CondTrue ''ViolationsFound'' ?msg"
    using found by blast
  have "ConditionNetworkPolicyApplied \<noteq> ConditionViolationDetected" by (simp add: condition_names)
  then have "same_findings E (s_status (st_obj t)) (s_status (st_obj t1))"
    using found cs other_condition_kept [OF E] by (simp add: same_findings_def)
  then have types: "map vr_type ?f = map vr_type ?g" by (rule same_findings_detect) (rule t2)
  then have g: "?g \<noteq> []" using some by (metis list.map_disc_iff)
  obtain k where k: "find_condition E (ss_conditions (s_status (st_obj t2))) ConditionViolationDetected = Some k"
    "c_status k = CondTrue" "c_message k = ?msg"
    using condition_after_set [OF E, of "''ViolationsFound''" at "ss_conditions (s_status (st_obj t))" gen
        ConditionViolationDetected CondTrue ?msg] cs t2 by auto
  have none: "filter (\<lambda>v. vr_type v \<notin> set (activeViolationTypes (Some k))) ?g = []"
    using active_types_roundtrip [OF k(2,3)] types
    by (metis (no_types, lifting) filter_False image_eqI list.set_map)
  show ?thesis
    using run_detection_found [OF caps refl g refl again] keep_last_length t2 found
    unfolding k(1) none by (simp add: keep_last_def)
qed

section \<open>Properties\<close>

text \<open>C3 A stranger's policy is safe: every NetworkPolicy a reconcile applies has the
  server's own policy name, and it or a delete happens only after this reconcile
  read that name and found nothing there or a policy this MCPServer owns; what is
  deleted is the owned policy that was read.\<close>
theorem policy_written_only_if_owned:
  assumes "lib_owners E" and "run_state (reconcileNetworkPolicy E R s) t = (r, t')"
    and "st_log t' = st_log t @ es" and "i < length es"
  shows "policy_guard E s (length (st_log t)) (st_log t @ take i es) (es ! i)"
  by (rule tripleD(2) [OF guard_reconcile [OF assms(1)] _ assms(2-4)]) simp

text \<open>C17 No claim without an enforcer: after a reconcile of the policy that reports no
  error, NetworkPolicyApplied is True only when the probe's verdict, or its override, is that
  an enforcer was observed.  One that reports an error leaves the status as it was, so that
  what an earlier reconcile said stays.\<close>
theorem applied_only_if_enforced:
  assumes "lib_conds E" and "run_state (reconcileNetworkPolicy E R s) t = (r, t')"
  shows "case r of
      None \<Rightarrow> (\<forall>k. find_condition E (ss_conditions (s_status (st_obj t'))) ConditionNetworkPolicyApplied = Some k
          \<longrightarrow> c_status k = CondTrue \<longrightarrow> enforcer_known R (st_kept t'))
    | Some e \<Rightarrow> s_status (st_obj t') = s_status (st_obj t)"
proof (cases r)
  case None
  have "applied_claim E R t'"
    using claims_reconcile [OF assms(1), of R s, unfolded triple_def, rule_format, of t] assms(2) None by auto
  then show ?thesis using None by (simp add: applied_claim_def)
next
  case (Some e)
  have "fst (run_state (reconcileNetworkPolicy E R s) t) \<noteq> None
      \<longrightarrow> st_obj (snd (run_state (reconcileNetworkPolicy E R s) t)) = st_obj t"
    using error_keeps_reconcile [of E R s] unfolding error_keeps_def by blast
  then show ?thesis using assms(2) Some by simp
qed

text \<open>C18 Egress is withheld from an unpinned image: in a namespace that enforces
  egress, a container-mode server whose image has no digest and no opt-out gets
  no NetworkPolicy applied, and the condition says why.\<close>
theorem unpinned_egress_withheld:
  assumes "lib_conds E" and "IsContainerMode s"
    and "\<not> IsImageDigestPinned (sp_image (s_spec s)) (m_annotations (s_meta s))"
    and "get_namespace E (st_log t) [] (s_ns s) = Inr ns"
    and "label_of (m_labels (ns_meta ns)) EnforceEgressLabel = str_true"
    and "run_state (reconcileNetworkPolicy E R s) t = (r, t')"
  shows "(\<exists>es. st_log t' = st_log t @ es \<and> list_all (\<lambda>e. case e of Apply _ \<Rightarrow> False | _ \<Rightarrow> True) es)
    \<and> (r = None \<longrightarrow> (\<exists>k. find_condition E (ss_conditions (s_status (st_obj t'))) ConditionNetworkPolicyApplied = Some k
          \<and> c_status k = CondFalse \<and> c_reason k = ReasonEgressWithheld))"
proof -
  let ?t = "t\<lparr>st_log := st_log t @ [ReadObj NamespaceKind [] (s_ns s)]\<rparr>"
  have run: "run_state (withhold_egress E s) ?t = (r, t')"
    using assms(2-6) by (simp add: reconcileNetworkPolicy_def namespaceEnforcesEgress_def run_bind)
  have "emits (\<lambda>e. case e of Apply _ \<Rightarrow> False | _ \<Rightarrow> True) (withhold_egress E s)"
    unfolding withhold_egress_def deleteNetworkPolicyIfExists_def by (intro emits_intro) simp_all
  from emitsD [OF this run] obtain es where es: "st_log t' = st_log ?t @ es"
    "list_all (\<lambda>e. case e of Apply _ \<Rightarrow> False | _ \<Rightarrow> True) es" by blast
  have "r = None \<longrightarrow> (\<exists>k. find_condition E (ss_conditions (s_status (st_obj t'))) ConditionNetworkPolicyApplied = Some k
          \<and> c_status k = CondFalse \<and> c_reason k = ReasonEgressWithheld)"
    using run condition_after_set [OF assms(1), of ReasonEgressWithheld]
    by (fastforce simp: withhold_egress_def setServerCondition_def run_bind policy_reasons
        split: prod.splits option.splits)
  then show ?thesis using es
    by (intro conjI exI [of _ "[ReadObj NamespaceKind [] (s_ns s)] @ es"]) auto
qed

text \<open>Violations are bounded: the record list never exceeds its maximum.\<close>
theorem violations_bounded:
  assumes "run_state (reconcileViolationDetection E s) t = (r, t')"
    and "length (ss_violations (s_status (st_obj t))) \<le> MaxViolationRecords"
  shows "length (ss_violations (s_status (st_obj t'))) \<le> MaxViolationRecords"
proof (cases "sp_caps (s_spec s)")
  case None
  then show ?thesis using assms by (auto simp: reconcileViolationDetection_def)
next
  case (Some caps)
  show ?thesis
  proof (cases "detect_violations E caps (clock E (st_log t)) (s_status (st_obj t)) = []")
    case True
    show ?thesis using run_detection_clear [OF Some True assms(1)] assms(2) by simp
  next
    case False
    show ?thesis using run_detection_found [OF Some refl False refl assms(1)] keep_last_length by metis
  qed
qed

text \<open>A violation that persists is recorded once: a second detection on the same
  status, with nothing else changed, records, counts and announces nothing.\<close>
theorem violation_recorded_once:
  assumes "lib_conds E" and "run_state (reconcileViolationDetection E s) t = (None, t1)"
    and "st_obj t2 = st_obj t1" and "run_state (reconcileViolationDetection E s) t2 = (r, t3)"
  shows "ss_violations (s_status (st_obj t3)) = ss_violations (s_status (st_obj t1)) \<and> st_log t3 = st_log t2"
proof (cases "sp_caps (s_spec s)")
  case None
  then show ?thesis using assms(3,4) by (auto simp: reconcileViolationDetection_def)
next
  case (Some caps)
  note clear = clear_twice [OF assms(1) Some _ assms(2-4)] and found = found_twice [OF assms(1) Some _ assms(2-4)]
  show ?thesis using clear found assms(3) by (metis (no_types))
qed

section \<open>Concrete runs\<close>

text \<open>A container-mode server with one declared CIDR, a reconciler told that
  policies are enforced, and one reconcile of its policy in an empty cluster.\<close>
definition demo_caps :: server_caps where
  "demo_caps = \<lparr>cap_network = Some \<lparr>nc_egress = [\<lparr>er_host = ''h'', er_port = 443, er_protocol = ''tcp'', er_cidr = ''1.2.3.4/32''\<rparr>],
      nc_dns = None, nc_loopback = None\<rparr>,
    cap_tools = None, cap_enforcement = []\<rparr>"

definition demo_container :: "string \<Rightarrow> mcp_server" where
  "demo_container img = zero_server\<lparr>
     s_meta := empty_meta\<lparr>m_name := ''s'', m_namespace := ''n'', m_uid := ''u''\<rparr>,
     s_spec := zero_server_spec\<lparr>sp_mode := ModeContainer, sp_image := img, sp_caps := Some demo_caps\<rparr>\<rparr>"

definition told_reconciler :: server_reconciler where
  "told_reconciler = demo_reconciler\<lparr>sr_probe :=
     Some \<lparr>pb_mapper = False, pb_reader = False, pb_override = Observed, pb_ttl = 0\<rparr>\<rparr>"

definition policy_run :: "(gerr option) \<times> (mcp_server, server_status, kept) st" where
  "policy_run = run_state (reconcileNetworkPolicy std_env told_reconciler (demo_container ''i@sha256:d''))
     (start_state (demo_container ''i@sha256:d'') zero_server_status)"

lemmas policy_steps = reconcileNetworkPolicy_def open_egress_def write_policy_def
  recordPolicyEnforcement_def Signal_def observe_def probe_def setServerCondition_def applyOwned_def

lemma demo_pinned: "IsImageDigestPinned ''i@sha256:d'' []" "\<not> IsImageDigestPinned ''i'' []"
  by code_simp+

lemmas policy_evals = run_bind demo_defs demo_container_def told_reconciler_def start_state_def demo_caps_def
  demo_pinned BuildNetworkPolicy_def std_set_controller_def mk_meta_def is_not_found_def upsertCondition_def
  policy_reasons zero_server_status_def

lemma policy_run_applies:
  "fst policy_run = None \<and> 1 < length (st_log (snd policy_run))
     \<and> (case st_log (snd policy_run) ! 1 of Apply (KNetPol p) \<Rightarrow> True | _ \<Rightarrow> False)"
  unfolding policy_run_def policy_steps by (simp add: policy_evals applyUnstructured_def)

lemma policy_run_condition:
  "\<exists>k. find_condition std_env (ss_conditions (s_status (st_obj (snd policy_run)))) ConditionNetworkPolicyApplied
       = Some k \<and> c_status k = CondTrue"
  unfolding policy_run_def policy_steps by (simp add: policy_evals)

lemma std_env_laws: "lib_conds std_env" "lib_owners std_env"
  by (simp_all add: std_conds.condition_list_axioms std_owners.owner_refs_axioms)

theorem policy_written_only_if_owned_witness:
  "policy_guard std_env (demo_container ''i@sha256:d'') 0 (take 1 (st_log (snd policy_run)))
     (st_log (snd policy_run) ! 1)"
  using policy_written_only_if_owned [OF std_env_laws(2), of told_reconciler "demo_container ''i@sha256:d''"
      "start_state (demo_container ''i@sha256:d'') zero_server_status" "fst policy_run" "snd policy_run"
      "st_log (snd policy_run)" 1] policy_run_applies
  by (simp add: policy_run_def start_state_def)

theorem applied_only_if_enforced_witness: "enforcer_known told_reconciler (st_kept (snd policy_run))"
proof -
  obtain k where k: "find_condition std_env (ss_conditions (s_status (st_obj (snd policy_run))))
      ConditionNetworkPolicyApplied = Some k" "c_status k = CondTrue" using policy_run_condition by blast
  have "run_state (reconcileNetworkPolicy std_env told_reconciler (demo_container ''i@sha256:d''))
     (start_state (demo_container ''i@sha256:d'') zero_server_status) = (None, snd policy_run)"
    using policy_run_applies by (simp add: policy_run_def prod_eq_iff)
  from applied_only_if_enforced [OF std_env_laws(1) this] show ?thesis using k by simp
qed

text \<open>The same with an image that is not pinned, in a namespace that enforces egress.\<close>
definition governed_env :: env where
  "governed_env = std_env\<lparr>get_namespace := (\<lambda>l ns n. Inr \<lparr>ns_meta = mk_meta ''n'' [] [(EnforceEgressLabel, str_true)] []\<rparr>)\<rparr>"

theorem unpinned_egress_withheld_witness:
  "\<exists>es. st_log (snd (run_state (reconcileNetworkPolicy governed_env told_reconciler (demo_container ''i''))
       (start_state (demo_container ''i'') zero_server_status))) = es
     \<and> list_all (\<lambda>e. case e of Apply _ \<Rightarrow> False | _ \<Rightarrow> True) es"
proof -
  let ?r = "run_state (reconcileNetworkPolicy governed_env told_reconciler (demo_container ''i''))
       (start_state (demo_container ''i'') zero_server_status)"
  have "lib_conds governed_env" by (simp add: governed_env_def std_conds.condition_list_axioms)
  from unpinned_egress_withheld [OF this, of "demo_container ''i''" "start_state (demo_container ''i'') zero_server_status"
      "\<lparr>ns_meta = mk_meta ''n'' [] [(EnforceEgressLabel, str_true)] []\<rparr>"
      told_reconciler "fst ?r" "snd ?r"]
  show ?thesis
    by (simp add: demo_container_def demo_defs IsContainerMode_def demo_pinned governed_env_def mk_meta_def
        label_of_def start_state_def)
qed

text \<open>A detection on a server whose policy was never applied, twice.\<close>
definition drift_run :: "nat \<Rightarrow> (gerr option) \<times> (mcp_server, server_status, kept) st" where
  "drift_run n = run_state (reconcileViolationDetection std_env (demo_container ''i''))
     (if n = 0 then start_state (demo_container ''i'') zero_server_status
      else snd (run_state (reconcileViolationDetection std_env (demo_container ''i''))
        (start_state (demo_container ''i'') zero_server_status)))"

lemma no_violations_yet: "length (ss_violations (s_status (st_obj
    (start_state (demo_container ''i'') zero_server_status)))) \<le> MaxViolationRecords"
  by (simp add: demo_container_def start_state_def zero_server_def zero_server_status_def)

theorem violations_bounded_witness:
  "length (ss_violations (s_status (st_obj (snd (drift_run 0))))) \<le> MaxViolationRecords"
  by (rule violations_bounded [OF _ no_violations_yet, of std_env "demo_container ''i''" "fst (drift_run 0)"])
    (simp add: drift_run_def)

text \<open>A detection never fails.\<close>
lemma detection_ends: "fst (run_state (reconcileViolationDetection E s) t) = None"
  by (simp add: reconcileViolationDetection_def run_bind Let_def split: option.split prod.split)

theorem violation_recorded_once_witness: "st_log (snd (drift_run 1)) = st_log (snd (drift_run 0))"
proof -
  have "run_state (reconcileViolationDetection std_env (demo_container ''i''))
      (start_state (demo_container ''i'') zero_server_status) = (None, snd (drift_run 0))"
    "run_state (reconcileViolationDetection std_env (demo_container ''i'')) (snd (drift_run 0)) = drift_run 1"
    by (simp_all add: drift_run_def prod_eq_iff detection_ends)
  then show ?thesis
    using violation_recorded_once [OF std_env_laws(1) _ refl] by (metis prod.collapse)
qed

end
