(* ===== verification/ServerController.thy ===== *)
theory ServerController
  imports ServerPolicy
begin

text \<open>
  The reconcile of an MCPServer: \<open>mcpserver_controller.go\<close> (\<open>Reconcile\<close>, the
  container and the remote branch, deletion, the watches), \<open>mcpserver_deployment.go\<close>
  and \<open>podEndpoint\<close> of \<open>mcpserver_peer_identity.go\<close>.  The flag that the
  registration did not complete, which the code carries in the context, is an
  argument.  The properties say when a server may be reported Ready, in which
  order a deletion happens, and that nothing of another owner is written.
\<close>

definition maxConsecutiveFailures :: int where "maxConsecutiveFailures = 5"
definition ReasonCoreAuthRejected :: string where "ReasonCoreAuthRejected = ''CoreAuthRejected''"
definition ReasonDeploymentNameTaken :: string where
  "ReasonDeploymentNameTaken = ''DeploymentNameTaken''"
definition annotationDeploymentHash :: string where
  "annotationDeploymentHash = ''mcp-hangar.io/deployment-hash''"

section \<open>Pods\<close>

definition stuckWaitingReasons :: "string list" where
  "stuckWaitingReasons = [''CrashLoopBackOff'', ''ImagePullBackOff'', ''ErrImagePull'',
     ''InvalidImageName'', ''CreateContainerConfigError'', ''CreateContainerError'']"

definition stuck_message :: "container_status \<Rightarrow> string \<Rightarrow> string" where
  "stuck_message cs msg = (case cs_last_exit cs of
     Some (code, reason) \<Rightarrow> (if msg = [] then ''last exit '' @ itoa code @ '' ('' @ reason @ '')'' else msg)
   | None \<Rightarrow> msg)"

text \<open>\<open>containerStuck\<close>: the reason, message and restarts of the first stuck container.\<close>
fun stuck_of :: "container_status list \<Rightarrow> (string \<times> string \<times> int) option" where
  "stuck_of [] = None"
| "stuck_of (cs # rest) = (case cs_waiting cs of
     Some (reason, msg) \<Rightarrow> (if reason \<in> set stuckWaitingReasons
        then Some (reason, stuck_message cs msg, cs_restarts cs) else stuck_of rest)
   | None \<Rightarrow> stuck_of rest)"

definition containerStuck :: "pod \<Rightarrow> (string \<times> string \<times> int) option" where
  "containerStuck p = stuck_of (pod_containers p)"

text \<open>\<open>currentPod\<close>: the fold keeps the earlier of two pods created together.\<close>
definition newer :: "'e klib_scheme \<Rightarrow> mcp_server \<Rightarrow> pod option \<Rightarrow> pod \<Rightarrow> pod option" where
  "newer L s best p =
     (if m_deletion (pod_meta p) \<noteq> None \<or> is_controlled_by L (pod_meta p) (s_meta s) then best
      else (case best of
          None \<Rightarrow> Some p
        | Some b \<Rightarrow> (if m_creation (pod_meta b) < m_creation (pod_meta p) then Some p else best)))"

definition currentPod :: "'e env_scheme \<Rightarrow> mcp_server \<Rightarrow> (gerr + pod option) srv" where
  "currentPod E s = do {
     r \<leftarrow> fetch_list PodKind (list_pods E) (s_ns s) (Some (match_labels (DeploymentSelector s)));
     ret (case r of Inl e \<Rightarrow> Inl e | Inr pods \<Rightarrow> Inr (foldl (newer E s) None pods)) }"

definition containerPath :: string where "containerPath = ''/mcp''"

text \<open>\<open>net.JoinHostPort\<close>.\<close>
definition join_host_port :: "string \<Rightarrow> string \<Rightarrow> string" where
  "join_host_port host port =
     (if CHR '':'' \<in> set host then ''['' @ host @ '']:'' @ port else host @ '':'' @ port)"

definition endpoint_of :: "mcp_server \<Rightarrow> string \<Rightarrow> string" where
  "endpoint_of s ip = (let hp = join_host_port ip (itoa DefaultDiscoveryPort) in
     if keyPinned s then ''https://'' @ hp else ''http://'' @ hp @ containerPath)"

definition podEndpoint :: "'e env_scheme \<Rightarrow> mcp_server \<Rightarrow> (gerr + string) srv" where
  "podEndpoint E s =
     (if IsCold s then ret (Inr [])
      else do {
        r \<leftarrow> currentPod E s;
        ret (case r of
           Inl e \<Rightarrow> Inl e
         | Inr None \<Rightarrow> Inr []
         | Inr (Some p) \<Rightarrow> Inr (if pod_ip p = [] then [] else endpoint_of s (pod_ip p))) })"

section \<open>Status of a pod\<close>

definition msg_cannot_run :: "string \<Rightarrow> string \<Rightarrow> string" where
  "msg_cannot_run reason msg = ''Pod cannot run: '' @ reason @ '': '' @ msg"

definition reportPodStuck ::
  "'e env_scheme \<Rightarrow> mcp_server \<Rightarrow> string \<Rightarrow> string \<Rightarrow> int \<Rightarrow> int srv" where
  "reportPodStuck E s reason msg restarts = do {
     upd_status (\<lambda>st. st\<lparr>ss_state := Dead,
        ss_failures := (if restarts > maxConsecutiveFailures then maxConsecutiveFailures else restarts),
        ss_ready := 0, ss_available := 0\<rparr>);
     cs \<leftarrow> the_conditions;
     whenM (conditionChanges E cs ConditionReady CondFalse reason) (do {
       t \<leftarrow> now E;
       upd_status (\<lambda>st. st\<lparr>ss_stopped := Some t\<rparr>);
       event Warning ReasonFailed (msg_cannot_run reason msg) });
     setServerCondition E ConditionReady CondFalse reason msg;
     setServerCondition E ConditionDegraded CondTrue reason msg;
     SetMCPServerState s Dead;
     ret defaultRequeueAfter }"

text \<open>The part of \<open>handlePodRunning\<close> after the tools are in: the server is ready.\<close>
definition mark_ready :: "'e env_scheme \<Rightarrow> mcp_server \<Rightarrow> int srv" where
  "mark_ready E s = do {
     t \<leftarrow> now E;
     upd_status (\<lambda>st. st\<lparr>ss_state := Ready, ss_ready := 1, ss_available := 1, ss_failures := 0,
        ss_health_check := Some t\<rparr>);
     cs \<leftarrow> the_conditions;
     (let becameReady = conditionChanges E cs ConditionReady CondTrue ''ProviderReady'' in do {
       setServerCondition E ConditionReady CondTrue ''ProviderReady'' ''Provider is ready'';
       setServerCondition E ConditionProgressing CondFalse ''Reconciled'' [];
       setServerCondition E ConditionDegraded CondFalse ''Healthy'' ''Provider is healthy'';
       setServerCondition E ConditionAvailable CondTrue ''Available'' ''Provider is available'';
       whenM becameReady (event Normal ''Ready'' ''Provider is ready'');
       SetMCPServerState s Ready;
       ret readyRequeueAfter }) }"

definition set_tools :: "mcp_server \<Rightarrow> string list \<Rightarrow> unit srv" where
  "set_tools s tools = do {
     upd_status (\<lambda>st. st\<lparr>ss_tools := tools, ss_tools_count := to_i32 (int (length tools))\<rparr>);
     emit (Metric ''provider_tools_count'' [s_ns s, s_name s]) }"

definition tools_failed :: "'e env_scheme \<Rightarrow> mcp_server \<Rightarrow> gerr \<Rightarrow> int srv" where
  "tools_failed E s e = do {
     upd_status (\<lambda>st. st\<lparr>ss_state := Degraded, ss_failures :=
        (if ss_failures st < maxConsecutiveFailures then ss_failures st + 1 else ss_failures st)\<rparr>);
     setServerCondition E ConditionDegraded CondTrue ''ToolsFetchFailed'' (err_text e);
     SetMCPServerState s Degraded;
     emit (Metric ''provider_health_check_failures_total'' [s_ns s, s_name s]);
     ret defaultRequeueAfter }"

definition handlePodRunning ::
  "'e env_scheme \<Rightarrow> server_reconciler \<Rightarrow> mcp_server \<Rightarrow> bool \<Rightarrow> pod \<Rightarrow> int srv" where
  "handlePodRunning E R s incomplete p =
     (if \<not> list_all cs_ready (pod_containers p) then do {
        upd_status (\<lambda>st. st\<lparr>ss_state := Initializing, ss_ready := 0\<rparr>);
        setServerCondition E ConditionProgressing CondTrue ''ContainersStarting'' ''Waiting for containers to be ready'';
        SetMCPServerState s Initializing;
        ret defaultRequeueAfter }
      else if incomplete then do {
        cs \<leftarrow> the_conditions;
        ret (registrationRequeue E cs) }
      else (case sr_client R of
          None \<Rightarrow> mark_ready E s
        | Some c \<Rightarrow> do {
            r \<leftarrow> GetMCPServerTools E c (s_name s) (s_ns s);
            (case r of
               Inl e \<Rightarrow> tools_failed E s e
             | Inr tools \<Rightarrow> do { set_tools s tools; mark_ready E s }) }))"

text \<open>A status write that ends a step with the given requeue interval.\<close>
definition write_and_requeue :: "'e env_scheme \<Rightarrow> int \<Rightarrow> outcome srv" where
  "write_and_requeue E after = do {
     x \<leftarrow> server_write E;
     ret (case x of Some e \<Rightarrow> (0, Some e) | None \<Rightarrow> (after, None)) }"

definition syncPodStatus ::
  "'e env_scheme \<Rightarrow> server_reconciler \<Rightarrow> mcp_server \<Rightarrow> bool \<Rightarrow> pod \<Rightarrow> outcome srv" where
  "syncPodStatus E R s incomplete p = do {
     after \<leftarrow> (case containerStuck p of
        Some (reason, msg, restarts) \<Rightarrow> reportPodStuck E s reason msg restarts
      | None \<Rightarrow> (case pod_phase p of
           PhaseRunning \<Rightarrow> handlePodRunning E R s incomplete p
         | PhasePending \<Rightarrow> do {
             upd_status (\<lambda>st. st\<lparr>ss_state := Initializing, ss_ready := 0\<rparr>);
             setServerCondition E ConditionProgressing CondTrue ''PodPending'' ''Pod is pending'';
             SetMCPServerState s Initializing;
             ret defaultRequeueAfter }
         | PhaseFailed \<Rightarrow> reportPodStuck E s ''PodFailed'' (pod_reason p @ '': '' @ pod_message p) 0
         | PhaseOther _ \<Rightarrow> ret defaultRequeueAfter));
     upd_status (\<lambda>st. st\<lparr>ss_pod := m_name (pod_meta p), ss_replicas := 1, ss_caps := sp_caps (s_spec s)\<rparr>);
     write_and_requeue E after }"

section \<open>The Deployment\<close>

definition deploymentHash :: "'e klib_scheme \<Rightarrow> deployment \<Rightarrow> gerr + string" where
  "deploymentHash L d = (case deploy_digest L (m_labels (dep_meta d)) (dep_spec d) of
     Inl e \<Rightarrow> Inl (Wrap ''hash Deployment: '' e) | Inr h \<Rightarrow> Inr h)"

definition msg_legacy :: "mcp_server \<Rightarrow> pod \<Rightarrow> string" where
  "msg_legacy s p = ''Removed pod '' @ m_name (pod_meta p) @ ''; the server now runs as Deployment '' @ DeploymentName s"

definition removeLegacyPod :: "'e env_scheme \<Rightarrow> mcp_server \<Rightarrow> (gerr option) srv" where
  "removeLegacyPod E s = do {
     r \<leftarrow> fetch PodKind (get_pod E) (s_ns s) (GetPodName s);
     (case r of
        Inl e \<Rightarrow> ret (if is_not_found e then None else Some e)
      | Inr p \<Rightarrow>
         (if \<not> is_controlled_by E (pod_meta p) (s_meta s) \<or> m_deletion (pod_meta p) \<noteq> None then ret None
          else do {
            x \<leftarrow> perform E (Delete PodKind (m_namespace (pod_meta p)) (m_name (pod_meta p)));
            (case (case x of None \<Rightarrow> None | Some e \<Rightarrow> ignore_not_found e) of
               Some e \<Rightarrow> ret (Some e)
             | None \<Rightarrow> do { event Normal ''LegacyPodRemoved'' (msg_legacy s p); ret None }) })) }"

definition msg_cold :: string where
  "msg_cold = ''spec.replicas is 0, so no provider pod runs; set it to 1 to start one''"

definition reportCold :: "'e env_scheme \<Rightarrow> mcp_server \<Rightarrow> outcome srv" where
  "reportCold E s = do {
     upd_status (\<lambda>st. st\<lparr>ss_state := Cold, ss_replicas := 0, ss_ready := 0, ss_available := 0, ss_pod := []\<rparr>);
     setServerCondition E ConditionReady CondFalse ''Cold'' msg_cold;
     setServerCondition E ConditionAvailable CondFalse ''Cold'' ''No replicas requested'';
     x \<leftarrow> server_write E;
     (case x of
        Some e \<Rightarrow> ret (0, Some e)
      | None \<Rightarrow> do { SetMCPServerState s Cold; ret (coldRequeueAfter, None) }) }"

definition deploymentWriteFailed :: "'e env_scheme \<Rightarrow> gerr \<Rightarrow> outcome srv" where
  "deploymentWriteFailed E e = do {
     setServerCondition E ConditionReady CondFalse ''DeploymentApplyFailed'' (err_text e);
     upd_status (\<lambda>st. st\<lparr>ss_state := Dead\<rparr>);
     x \<leftarrow> server_write E;
     (case x of
        Some y \<Rightarrow> ret (0, Some y)
      | None \<Rightarrow> do {
          event Warning ReasonFailed (''Failed to apply Deployment: '' @ err_text e);
          ret (errorRequeueAfter, None) }) }"

definition msg_dep_taken :: "string \<Rightarrow> string" where
  "msg_dep_taken n = ''Deployment '' @ n @ '' exists and is not controlled by this MCPServer; not overwriting it''"

definition report_dep_taken :: "'e env_scheme \<Rightarrow> deployment \<Rightarrow> outcome srv" where
  "report_dep_taken E existing = do {
     cs \<leftarrow> the_conditions;
     whenM (conditionChanges E cs ConditionReady CondFalse ReasonDeploymentNameTaken)
       (event Warning ReasonDeploymentNameTaken (msg_dep_taken (m_name (dep_meta existing))));
     upd_status (\<lambda>st. st\<lparr>ss_state := Dead\<rparr>);
     setServerCondition E ConditionReady CondFalse ReasonDeploymentNameTaken
       (msg_dep_taken (m_name (dep_meta existing)));
     write_and_requeue E coldRequeueAfter }"

definition annotate_dep :: "deployment \<Rightarrow> string \<Rightarrow> string \<Rightarrow> deployment" where
  "annotate_dep d k v = d\<lparr>dep_meta := (dep_meta d)\<lparr>m_annotations := amap_put k v (m_annotations (dep_meta d))\<rparr>\<rparr>"

text \<open>The switch of \<open>reconcileDeployment\<close>: the outcome it returns with, or on.\<close>
definition write_deployment ::
  "'e env_scheme \<Rightarrow> mcp_server \<Rightarrow> deployment \<Rightarrow> string \<Rightarrow> (outcome + unit) srv" where
  "write_deployment E s desired hash = do {
     r \<leftarrow> fetch DeployKind (get_deploy E) (m_namespace (dep_meta desired)) (m_name (dep_meta desired));
     (case r of
        Inl e \<Rightarrow>
          (if is_not_found e then do {
             x \<leftarrow> applyOwned E (KDeploy desired);
             (case x of
                Some y \<Rightarrow> do { z \<leftarrow> deploymentWriteFailed E y; ret (Inl z) }
              | None \<Rightarrow> do {
                  event Normal ''Starting'' (''Created Deployment '' @ m_name (dep_meta desired));
                  t \<leftarrow> now E;
                  upd_status (\<lambda>st. st\<lparr>ss_failures := 0, ss_started := Some t\<rparr>);
                  ret (Inr ()) }) }
           else ret (Inl (0, Some e)))
      | Inr existing \<Rightarrow>
         (if \<not> is_controlled_by E (dep_meta existing) (s_meta s) then do {
            z \<leftarrow> report_dep_taken E existing; ret (Inl z) }
          else if label_of (m_annotations (dep_meta existing)) annotationDeploymentHash \<noteq> hash then do {
            x \<leftarrow> applyOwned E (KDeploy (if discoveredAs existing = s_name s
                   then annotate_dep desired annotationDiscoveredAs (s_name s) else desired));
            (case x of
               Some y \<Rightarrow> do { z \<leftarrow> deploymentWriteFailed E y; ret (Inl z) }
             | None \<Rightarrow> do {
                 upd_status (\<lambda>st. st\<lparr>ss_failures := 0\<rparr>);
                 setServerCondition E ConditionProgressing CondTrue ''SpecChanged''
                   ''Provider spec changed, rolling out the Deployment'';
                 event Normal ReasonUpdated (''Spec changed, rolling out Deployment '' @ m_name (dep_meta desired));
                 emit (Metric ''provider_restarts_total'' [s_ns s, s_name s]);
                 ret (Inr ()) }) }
          else ret (Inr ()))) }"

definition report_pod :: "'e env_scheme \<Rightarrow> server_reconciler \<Rightarrow> mcp_server \<Rightarrow> bool \<Rightarrow> outcome srv" where
  "report_pod E R s incomplete =
     (if IsCold s then reportCold E s
      else do {
        r \<leftarrow> currentPod E s;
        (case r of
           Inl e \<Rightarrow> ret (0, Some e)
         | Inr None \<Rightarrow> do {
             upd_status (\<lambda>st. st\<lparr>ss_state := Initializing, ss_replicas := 1, ss_ready := 0\<rparr>);
             setServerCondition E ConditionProgressing CondTrue ''PodCreating''
               ''Waiting for the Deployment to create the pod'';
             SetMCPServerState s Initializing;
             write_and_requeue E defaultRequeueAfter }
         | Inr (Some p) \<Rightarrow> syncPodStatus E R s incomplete p) })"

definition reconcileDeployment ::
  "'e env_scheme \<Rightarrow> server_reconciler \<Rightarrow> mcp_server \<Rightarrow> bool \<Rightarrow> outcome srv" where
  "reconcileDeployment E R s incomplete = (case BuildDeploymentForMCPServer s of
     Inl e \<Rightarrow> do {
       setServerCondition E ConditionReady CondFalse ''PodBuildFailed'' (err_text e);
       write_and_requeue E errorRequeueAfter }
   | Inr d \<Rightarrow> (case set_controller E (s_meta s) (dep_meta d) of
        Inl e \<Rightarrow> ret (0, Some e)
      | Inr m \<Rightarrow> (case deploymentHash E (d\<lparr>dep_meta := m\<rparr>) of
           Inl e \<Rightarrow> ret (0, Some e)
         | Inr hash \<Rightarrow> do {
             x \<leftarrow> removeLegacyPod E s;
             (case x of
                Some e \<Rightarrow> ret (0, Some e)
              | None \<Rightarrow> do {
                  w \<leftarrow> write_deployment E s (annotate_dep (d\<lparr>dep_meta := m\<rparr>) annotationDeploymentHash hash) hash;
                  (case w of
                     Inl z \<Rightarrow> ret z
                   | Inr _ \<Rightarrow> report_pod E R s incomplete) }) })))"

section \<open>Container mode\<close>

definition msg_image :: string where "msg_image = ''Container mode requires image''"

definition reconcileContainerProvider ::
  "'e env_scheme \<Rightarrow> server_reconciler \<Rightarrow> mcp_server \<Rightarrow> outcome srv" where
  "reconcileContainerProvider E R s =
     (if sp_image (s_spec s) = [] then do {
        setServerCondition E ConditionReady CondFalse ''InvalidSpec'' msg_image;
        upd_status (\<lambda>st. st\<lparr>ss_state := Dead\<rparr>);
        x \<leftarrow> server_write E;
        (case x of
           Some e \<Rightarrow> ret (0, Some e)
         | None \<Rightarrow> do { event Warning ReasonFailed msg_image; ret (0, None) }) }
      else do {
        upd_status (\<lambda>st. st\<lparr>ss_digests := InitDataDigests E (sp_initdata (s_spec s))\<rparr>);
        x \<leftarrow> reconcileNetworkPolicy E R s;
        (case x of
           Some e \<Rightarrow> event Warning ''NetworkPolicyFailed'' (''Failed to reconcile NetworkPolicy: '' @ err_text e)
         | None \<Rightarrow> ret ());
        y \<leftarrow> reconcileViolationDetection E s;
        (case y of
           Some e \<Rightarrow> event Warning ''ViolationDetectionFailed'' (''Failed to detect violations: '' @ err_text e)
         | None \<Rightarrow> ret ());
        reconcileEgressAudit s;
        (case sr_client R of
           None \<Rightarrow> reconcileDeployment E R s False
         | Some c \<Rightarrow> do {
             ep \<leftarrow> podEndpoint E s;
             (case ep of
                Inl e \<Rightarrow> ret (0, Some e)
              | Inr endpoint \<Rightarrow> do {
                  (finished, after, err) \<leftarrow> registration E R c s endpoint;
                  (case err of
                     Some e \<Rightarrow> ret (0, Some e)
                   | None \<Rightarrow> reconcileDeployment E R s finished) }) }) })"

definition msg_held :: string where
  "msg_held = ''spec.tls.peerIdentity is declared on a container-mode server, and this operator runs without ''
     @ ''--hangar-url, so it cannot register the server with its key list; its pod is not created''"

definition holdPeerIdentity :: "'e env_scheme \<Rightarrow> mcp_server \<Rightarrow> (gerr option) srv" where
  "holdPeerIdentity E s = do {
     cs \<leftarrow> the_conditions;
     whenM (conditionChanges E cs ConditionReady CondFalse ReasonPeerIdentityNotCarried)
       (event Warning ReasonPeerIdentityNotCarried msg_held);
     upd_status (\<lambda>st. st\<lparr>ss_state := Cold\<rparr>);
     setServerCondition E ConditionReady CondFalse ReasonPeerIdentityNotCarried msg_held;
     SetMCPServerState s Cold;
     server_write E }"

section \<open>Remote mode\<close>

definition msg_auth :: "gerr \<Rightarrow> string" where
  "msg_auth e = ''core rejected the operator's credentials (check the API key): '' @ err_text e"
definition msg_auth_event :: "gerr \<Rightarrow> string" where
  "msg_auth_event e = ''Core rejected the operator's credentials; check --hangar-api-key: '' @ err_text e"
definition msg_failures :: "'e klib_scheme \<Rightarrow> server_health \<Rightarrow> string" where
  "msg_failures L h = ''Core reports '' @ itoa (sh_consecutive h) @ '' consecutive failures (success rate ''
     @ show_rate L (sh_rate h) @ '')''"
definition msg_healthy :: string where "msg_healthy = ''Remote endpoint is healthy''"

definition auth_rejected :: "'e env_scheme \<Rightarrow> gerr \<Rightarrow> int srv" where
  "auth_rejected E e = do {
     upd_status (\<lambda>st. st\<lparr>ss_state := Degraded\<rparr>);
     cs \<leftarrow> the_conditions;
     whenM (case find_condition E cs ConditionDegraded of
              None \<Rightarrow> True | Some k \<Rightarrow> c_reason k \<noteq> ReasonCoreAuthRejected)
       (event Warning ReasonCoreAuthRejected (msg_auth_event e));
     setServerCondition E ConditionDegraded CondTrue ReasonCoreAuthRejected (msg_auth e);
     ret readyRequeueAfter }"

definition health_unread :: "'e env_scheme \<Rightarrow> mcp_server \<Rightarrow> gerr \<Rightarrow> int srv" where
  "health_unread E s e = do {
     upd_status (\<lambda>st. st\<lparr>ss_state := Degraded\<rparr>);
     cs \<leftarrow> the_conditions;
     whenM (conditionChanges E cs ConditionDegraded CondTrue ''HealthCheckFailed'')
       (event Warning ''Unhealthy'' (''Health check failed: '' @ err_text e));
     setServerCondition E ConditionDegraded CondTrue ''HealthCheckFailed'' (err_text e);
     emit (Metric ''provider_health_check_failures_total'' [s_ns s, s_name s]);
     ret errorRequeueAfter }"

definition remote_healthy :: "'e env_scheme \<Rightarrow> client \<Rightarrow> mcp_server \<Rightarrow> int srv" where
  "remote_healthy E c s = do {
     t \<leftarrow> now E;
     upd_status (\<lambda>st. st\<lparr>ss_state := Ready, ss_failures := 0, ss_health_check := Some t\<rparr>);
     cs \<leftarrow> the_conditions;
     whenM (conditionChanges E cs ConditionReady CondTrue ''EndpointHealthy'')
       (event Normal ''Healthy'' msg_healthy);
     setServerCondition E ConditionReady CondTrue ''EndpointHealthy'' msg_healthy;
     r \<leftarrow> GetMCPServerTools E c (s_name s) (s_ns s);
     (case r of Inl e \<Rightarrow> ret () | Inr tools \<Rightarrow> set_tools s tools);
     ret readyRequeueAfter }"

definition remote_unhealthy :: "'e env_scheme \<Rightarrow> server_health \<Rightarrow> int srv" where
  "remote_unhealthy E h = do {
     upd_status (\<lambda>st. st\<lparr>ss_state := Degraded, ss_failures := to_i32 (sh_consecutive h)\<rparr>);
     cs \<leftarrow> the_conditions;
     whenM (conditionChanges E cs ConditionDegraded CondTrue ''EndpointUnhealthy'')
       (event Warning ''Unhealthy'' ''Remote endpoint unhealthy'');
     setServerCondition E ConditionDegraded CondTrue ''EndpointUnhealthy'' (msg_failures E h);
     ret errorRequeueAfter }"

definition check_health :: "'e env_scheme \<Rightarrow> client \<Rightarrow> mcp_server \<Rightarrow> int srv" where
  "check_health E c s = do {
     r \<leftarrow> GetMCPServerHealth E c (s_name s) (s_ns s);
     (case r of
        Inl e \<Rightarrow> (if IsAuthRejected (Some e) then auth_rejected E e else health_unread E s e)
      | Inr h \<Rightarrow> (if sh_consecutive h = 0 then remote_healthy E c s else remote_unhealthy E h)) }"

text \<open>The end of \<open>reconcileRemoteProvider\<close>, from \<open>Status.Endpoint = endpoint\<close> on.\<close>
definition finish_remote :: "'e env_scheme \<Rightarrow> mcp_server \<Rightarrow> int \<Rightarrow> outcome srv" where
  "finish_remote E s after = do {
     upd_status (\<lambda>st. st\<lparr>ss_endpoint := sp_endpoint (s_spec s)\<rparr>);
     ob \<leftarrow> the_obj;
     SetMCPServerState s (ss_state (s_status ob));
     upd_status (\<lambda>st. st\<lparr>ss_caps := sp_caps (s_spec s)\<rparr>);
     write_and_requeue E after }"

definition reconcileRemoteProvider ::
  "'e env_scheme \<Rightarrow> server_reconciler \<Rightarrow> mcp_server \<Rightarrow> outcome srv" where
  "reconcileRemoteProvider E R s =
     (if sp_endpoint (s_spec s) = [] then do {
        setServerCondition E ConditionReady CondFalse ''NoEndpoint'' ''Remote provider requires endpoint'';
        upd_status (\<lambda>st. st\<lparr>ss_state := Dead\<rparr>);
        write_and_requeue E 0 }
      else (case sr_client R of
          None \<Rightarrow> do {
            upd_status (\<lambda>st. st\<lparr>ss_state := Ready\<rparr>);
            setServerCondition E ConditionReady CondTrue ''Assumed'' ''No Hangar client, assuming healthy'';
            finish_remote E s readyRequeueAfter }
        | Some c \<Rightarrow> do {
            (finished, after, err) \<leftarrow> reconcileRegistration E R c s;
            (if finished \<or> err \<noteq> None then ret (after, err)
             else do { a \<leftarrow> check_health E c s; finish_remote E s a }) }))"

section \<open>Reconcile\<close>

definition reconcileNormal :: "'e env_scheme \<Rightarrow> server_reconciler \<Rightarrow> mcp_server \<Rightarrow> outcome srv" where
  "reconcileNormal E R s = do {
     ob \<leftarrow> the_obj;
     whenM (ss_observed (s_status ob) \<noteq> m_generation (s_meta s)) (do {
       upd_status (\<lambda>st. st\<lparr>ss_observed := m_generation (s_meta s)\<rparr>);
       setServerCondition E ConditionProgressing CondTrue ''Reconciling'' ''Processing spec changes'' });
     x \<leftarrow> reconcileProviderIngress E R s;
     (case x of
        Some e \<Rightarrow> do {
          setServerCondition E ConditionProviderIngressApplied CondFalse ''ApplyFailed'' (err_text e);
          y \<leftarrow> server_write E;
          ret (0, (case y of Some z \<Rightarrow> Some z | None \<Rightarrow> Some e)) }
      | None \<Rightarrow>
         (if keyPinned s \<and> IsContainerMode s \<and> (sr_client R = None \<or> sr_claims R = None) then do {
            y \<leftarrow> holdPeerIdentity E s; ret (0, y) }
          else (case sp_mode (s_spec s) of
             ModeContainer \<Rightarrow> reconcileContainerProvider E R s
           | ModeRemote \<Rightarrow> reconcileRemoteProvider E R s
           | ModeOther _ \<Rightarrow> do {
               setServerCondition E ConditionReady CondFalse ''InvalidMode'' ''Unknown provider mode'';
               write_and_requeue E 0 }))) }"

definition clean_container :: "'e env_scheme \<Rightarrow> mcp_server \<Rightarrow> (gerr option) srv" where
  "clean_container E s =
     (if IsContainerMode s then do {
        x \<leftarrow> perform E (Delete DeployKind (s_ns s) (DeploymentName s));
        (case (case x of None \<Rightarrow> None | Some e \<Rightarrow> ignore_not_found e) of
           Some e \<Rightarrow> ret (Some e)
         | None \<Rightarrow> removeLegacyPod E s) }
      else ret None)"

text \<open>\<open>metrics.ClearProviderMetrics\<close>, as one effect.\<close>
definition ClearProviderMetrics :: "mcp_server \<Rightarrow> unit srv" where
  "ClearProviderMetrics s = emit (Metric ''clear_provider_metrics'' [s_ns s, s_name s])"

definition release_server :: "'e env_scheme \<Rightarrow> mcp_server \<Rightarrow> outcome srv" where
  "release_server E s = do {
     ClearProviderMetrics s;
     upd_obj (\<lambda>ob. ob\<lparr>s_meta := (s_meta ob)\<lparr>m_finalizers :=
        remove_finalizer E (m_finalizers (s_meta ob)) finalizerName\<rparr>\<rparr>);
     ob \<leftarrow> the_obj;
     x \<leftarrow> perform E (Update (KServer ob));
     (case x of
        Some e \<Rightarrow> ret (0, Some e)
      | None \<Rightarrow> do { event Normal ''Deleted'' ''Provider deleted''; ret (0, None) }) }"

definition reconcileDelete :: "'e env_scheme \<Rightarrow> server_reconciler \<Rightarrow> mcp_server \<Rightarrow> outcome srv" where
  "reconcileDelete E R s = do {
     x \<leftarrow> clean_container E s;
     (case x of
        Some e \<Rightarrow> ret (0, Some e)
      | None \<Rightarrow> do {
          y \<leftarrow> (case sr_client R of None \<Rightarrow> ret None | Some c \<Rightarrow> deregisterOwned E R c s);
          (case y of
             Some e \<Rightarrow> ret (0, Some e)
           | None \<Rightarrow> release_server E s) }) }"

text \<open>\<open>Reconcile\<close>: the read gives the object and the base; the update that adds the
  finalizer leaves the rest of the object as it was.\<close>
definition server_Reconcile :: "'e env_scheme \<Rightarrow> server_reconciler \<Rightarrow> string \<Rightarrow> string \<Rightarrow> outcome srv" where
  "server_Reconcile E R ns n = do {
     r \<leftarrow> fetch ServerKind (get_server E) ns n;
     (case r of
        Inl e \<Rightarrow> ret (0, (if is_not_found e then None else Some e))
      | Inr s \<Rightarrow> do {
          upd_obj (\<lambda>_. s);
          set_base (s_status s);
          (if m_deletion (s_meta s) \<noteq> None then reconcileDelete E R s
           else if \<not> contains_finalizer E (m_finalizers (s_meta s)) finalizerName then (
             let s1 = s\<lparr>s_meta := (s_meta s)\<lparr>m_finalizers := add_finalizer E (m_finalizers (s_meta s)) finalizerName\<rparr>\<rparr> in do {
               upd_obj (\<lambda>_. s1);
               x \<leftarrow> perform E (Update (KServer s1));
               (case x of Some e \<Rightarrow> ret (0, Some e) | None \<Rightarrow> reconcileNormal E R s1) })
           else reconcileNormal E R s) }) }"

section \<open>Watches\<close>

text \<open>A request is the key of an object: its namespace and name.\<close>
type_synonym request = "string \<times> string"

definition providerPodToServer :: "object_meta \<Rightarrow> request list" where
  "providerPodToServer m = (let n = label_of (m_labels m) LabelProvider in
     if n = [] \<or> label_of (m_labels m) LabelManagedBy \<noteq> DefaultManagerName then []
     else [(m_namespace m, n)])"

definition mcpServersInNamespace :: "'e env_scheme \<Rightarrow> string \<Rightarrow> (request list) srv" where
  "mcpServersInNamespace E n = do {
     r \<leftarrow> fetch_list ServerKind (list_servers E) n None;
     ret (case r of Inl e \<Rightarrow> [] | Inr l \<Rightarrow> map (\<lambda>s. (s_ns s, s_name s)) l) }"

datatype watch_event = CreateEvent | DeleteEvent | GenericEvent
  | UpdateEvent "labels option" "labels option"

definition enforceEgressLabelChanged :: "watch_event \<Rightarrow> bool" where
  "enforceEgressLabelChanged e = (case e of
     UpdateEvent (Some old) (Some new) \<Rightarrow> label_of old EnforceEgressLabel \<noteq> label_of new EnforceEgressLabel
   | _ \<Rightarrow> False)"

section \<open>Facts\<close>

lemma emits_server_steps [emits_intro]:
  assumes "\<And>n l. A (Metric n l)" "\<And>t r m. A (Event t r m)" "\<And>k. A (StatusPatch k)" "\<And>k. A (StatusUpdate k)"
  shows "emits A (write_and_requeue E after)" "emits A (reportPodStuck E s reason msg restarts)"
    "emits A (mark_ready E s)" "emits A (set_tools s tools)" "emits A (tools_failed E s e)"
    "emits A (reportCold E s)" "emits A (deploymentWriteFailed E e)" "emits A (report_dep_taken E d)"
    "emits A (holdPeerIdentity E s)" "emits A (auth_rejected E e)" "emits A (health_unread E s e)"
    "emits A (remote_unhealthy E h)" "emits A (finish_remote E s after)"
  unfolding write_and_requeue_def reportPodStuck_def mark_ready_def set_tools_def tools_failed_def
    reportCold_def deploymentWriteFailed_def report_dep_taken_def holdPeerIdentity_def auth_rejected_def
    health_unread_def remote_unhealthy_def finish_remote_def Let_def
  by (intro emits_intro assms)+

lemma emits_phase [emits_intro]:
  "emits A a \<Longrightarrow> emits A b \<Longrightarrow> emits A c \<Longrightarrow> (\<And>x. emits A (f x)) \<Longrightarrow>
   emits A (case ph of PhaseRunning \<Rightarrow> a | PhasePending \<Rightarrow> b | PhaseFailed \<Rightarrow> c | PhaseOther x \<Rightarrow> f x)"
  by (cases ph) auto

lemma emits_currentPod [emits_intro]:
  "(\<And>sel. A (ListObjs PodKind (s_ns s) sel)) \<Longrightarrow> emits A (currentPod E s)"
  unfolding currentPod_def by (intro emits_intro)

subsection \<open>The current pod\<close>

text \<open>A pod that can be the server's: not terminating, not the legacy pod.\<close>
definition live_pod :: "'e klib_scheme \<Rightarrow> mcp_server \<Rightarrow> pod \<Rightarrow> bool" where
  "live_pod L s p = (m_deletion (pod_meta p) = None \<and> \<not> is_controlled_by L (pod_meta p) (s_meta s))"

lemma newer_cases:
  "newer L s best q = (if live_pod L s q
     then (case best of None \<Rightarrow> Some q
           | Some b \<Rightarrow> (if m_creation (pod_meta b) < m_creation (pod_meta q) then Some q else Some b))
     else best)"
  by (auto simp: newer_def live_pod_def split: option.split)

lemma newest_fold:
  assumes "foldl (newer L s) best pods = Some p"
  shows "(p \<in> set pods \<and> live_pod L s p \<or> best = Some p)
    \<and> (\<forall>q \<in> set pods. live_pod L s q \<longrightarrow> m_creation (pod_meta q) \<le> m_creation (pod_meta p))
    \<and> (\<forall>b. best = Some b \<longrightarrow> m_creation (pod_meta b) \<le> m_creation (pod_meta p))"
  using assms
proof (induction pods arbitrary: best)
  case (Cons q pods)
  have "foldl (newer L s) (newer L s best q) pods = Some p" using Cons.prems by simp
  note ih = Cons.IH [OF this]
  show ?case
  proof (cases "live_pod L s q")
    case False
    then show ?thesis using ih by (auto simp: newer_cases)
  next
    case True
    then show ?thesis using ih
      by (cases best) (auto simp: newer_cases split: if_splits)
  qed
qed simp

subsection \<open>Ready rests on core\<close>

text \<open>Core answered, at or after position \<open>n\<close>, that the server has no failures.\<close>
definition said_healthy :: "'e env_scheme \<Rightarrow> client \<Rightarrow> mcp_server \<Rightarrow> nat \<Rightarrow> history \<Rightarrow> bool" where
  "said_healthy E c s n l = (\<exists>resp h.
     answered E n (mk_request c ''GET'' (servers_url c @ s_name s @ ''/health'') None) l resp
     \<and> answer_health (s_name s) (s_ns s) resp = Inr h \<and> sh_consecutive h = 0)"

definition said_tools :: "'e env_scheme \<Rightarrow> client \<Rightarrow> mcp_server \<Rightarrow> nat \<Rightarrow> history \<Rightarrow> bool" where
  "said_tools E c s n l = (\<exists>resp tools.
     answered E n (mk_request c ''GET'' (servers_url c @ s_name s @ ''/tools'') None) l resp
     \<and> answer_tools (s_name s) (s_ns s) resp = Inr tools)"

lemma said_append: "said_healthy E c s n l \<Longrightarrow> said_healthy E c s n (l @ l')"
  "said_tools E c s n l \<Longrightarrow> said_tools E c s n (l @ l')"
  unfolding said_healthy_def said_tools_def using answered_append by blast+

text \<open>A status that calls the server Ready.\<close>
definition writes_ready :: "effect \<Rightarrow> bool" where
  "writes_ready e = (case e of
     StatusPatch (KServer ob) \<Rightarrow> ss_state (s_status ob) = Ready
   | StatusUpdate (KServer ob) \<Rightarrow> ss_state (s_status ob) = Ready
   | _ \<Rightarrow> False)"

lemma writes_ready_other [simp]:
  "\<not> writes_ready (ReadObj k ns n)" "\<not> writes_ready (Event t r m)" "\<not> writes_ready (Metric a b)"
  "\<not> writes_ready (Create ob)" "\<not> writes_ready (Update ob)" "\<not> writes_ready (Delete k ns n)"
  "\<not> writes_ready (Sleep d)" "\<not> writes_ready (Http rq)" "\<not> writes_ready (ListObjs k ns sel)"
  "\<not> writes_ready (Apply ob)"
  by (simp_all add: writes_ready_def)

definition ready_backed :: "'e env_scheme \<Rightarrow> client \<Rightarrow> mcp_server \<Rightarrow> nat \<Rightarrow> history \<Rightarrow> effect \<Rightarrow> bool" where
  "ready_backed E c s n l e = (writes_ready e \<longrightarrow> said_healthy E c s n l)"

lemma triple_server_write:
  assumes "\<And>t. P t \<Longrightarrow> G (st_log t) (StatusPatch (KServer (st_obj t))) \<and> G (st_log t) (StatusUpdate (KServer (st_obj t)))"
  shows "triple G P (server_write E) (\<lambda>a t. True)"
proof -
  have "triple G (\<lambda>t. P t \<and> st_obj t = ob)
      (case b of
        None \<Rightarrow> perform E (StatusUpdate (KServer ob))
      | Some st \<Rightarrow>
          (if st = s_status ob then ret None
           else do {
             r \<leftarrow> perform E (StatusPatch (KServer ob));
             (case r of
                Some e \<Rightarrow> ret (Some e)
              | None \<Rightarrow> do { set_base (s_status ob); ret None }) })) (\<lambda>a t. True)" for ob b
    by (intro triple_cases triple_return TrueI triple_pre [OF triple_perform]
        triple_bind [where R = "\<lambda>a t. True"] emits_intro triple_pre [OF triple_set_base]) (auto dest: assms)
  then show ?thesis unfolding writeStatus_def
    by (intro triple_bind [where R = "\<lambda>ob t. P t \<and> st_obj t = ob"] triple_bind [where R = "\<lambda>b t. P t \<and> st_obj t = _"]
        triple_pre [OF triple_the_obj] triple_pre [OF triple_the_base]) auto
qed

text \<open>What a registration may do, in terms of what its reports may do.\<close>
lemma emits_registration_from:
  assumes rep: "\<And>r m. emits A (report E r m)" "\<And>r m. emits A (writeRegistrationStatus E r m)"
    and base: "\<And>k ns n. A (ReadObj k ns n)" "\<And>k. A (Create k)" "\<And>k. A (Update k)" "\<And>k ns n. A (Delete k ns n)"
      "\<And>t r m. A (Event t r m)" "\<And>rq. A (Http rq)" "\<And>d. A (Sleep d)" "\<And>a b. A (Metric a b)"
  shows "emits A (registration E R c s ep)"
proof -
  have call: "emits A (call E c op meth url body answer)"
    for op meth url body and answer :: "http_resp \<Rightarrow> gerr + 'z"
    by (rule emits_call) (rule base)+
  note steps = rep call emits_claims emits_intro
  have parts: "emits A (start E c s l)" "emits A (deliverConnection E c s l tls ep)"
    "emits A (peerIdentityRefusal E c s)" "emits A (discoveredFromItsOwnPod E c s)" for l tls ep
    unfolding start_def deliverConnection_def peerIdentityRefusal_def discoveredFromItsOwnPod_def client_defs
    by ((rule steps base)+)
  have claimed: "emits A (register_claimed E c s l ep)" for l ep
    unfolding register_claimed_def client_defs by ((rule parts steps base)+)
  have parts2: "emits A (register E c cns s cl ep)" "emits A (moveDiscovered E c cns s ep)"
    "emits A (reg_refuse E c s cl)" "emits A (reg_deliver E c s cl ep)" "emits A (reg_endpoint E c s cl tls ep)"
    for cns cl tls ep
    unfolding register_def moveDiscovered_def reg_refuse_def reg_deliver_def reg_endpoint_def
      DeregisterMCPServer_def Let_def
    by ((rule claimed parts steps base)+)
  have core: "emits A (reg_core E c cns s cl ep)" for cns cl ep
    unfolding reg_core_def GetMCPServerHealth_def by ((rule parts2 parts steps base)+)
  show ?thesis unfolding registration_def by ((rule core parts2 steps base)+)
qed

abbreviation "not_ready m \<equiv> emits (\<lambda>e. \<not> writes_ready e) m"

lemma not_ready_report: "not_ready (writeRegistrationStatus E r m)" "not_ready (report E r m)"
proof -
  let ?D = "\<lambda>t :: (mcp_server, server_status, kept) st. ss_state (s_status (st_obj t)) = Degraded"
  have keep: "triple (\<lambda>l e. \<not> writes_ready e) ?D (whenM b (event ty re me)) (\<lambda>a. ?D)"
    "triple (\<lambda>l e. \<not> writes_ready e) ?D (if b then event ty re me else ret ()) (\<lambda>a. ?D)"
    "triple (\<lambda>l e. \<not> writes_ready e) ?D the_conditions (\<lambda>a. ?D)"
    "triple (\<lambda>l e. \<not> writes_ready e) ?D (setServerCondition E cty cst cre cme) (\<lambda>a. ?D)"
    "triple (\<lambda>l e. \<not> writes_ready e) ?D the_obj (\<lambda>a. ?D)"
    "triple (\<lambda>l e. \<not> writes_ready e) ?D (SetMCPServerState s x) (\<lambda>a. ?D)"
    for b ty re me cty cst cre cme s x
    unfolding SetMCPServerState_def whenM_def
    by ((rule triple_if triple_return)?, (rule triple_pre, rule wp)?, simp)+
  have up: "triple (\<lambda>l e. \<not> writes_ready e) (\<lambda>t. True) (upd_obj (\<lambda>s. s\<lparr>s_status := (s_status s)\<lparr>ss_state := Degraded,
        ss_endpoint := sp_endpoint (s_spec s)\<rparr>\<rparr>)) (\<lambda>a. ?D)"
    by (rule triple_pre, rule wp) simp
  have wr: "triple (\<lambda>l e. \<not> writes_ready e) ?D (server_write E) (\<lambda>a t. True)"
    by (rule triple_server_write) (simp add: writes_ready_def)
  show "not_ready (writeRegistrationStatus E r m)"
    unfolding writeRegistrationStatus_def
    by (rule triple_bind [OF up]) (rule triple_bind [OF keep(3)] triple_bind [OF keep(2)] triple_bind [OF keep(4)]
        triple_bind [OF keep(5)] triple_bind [OF keep(6)] wr)+
  then show "not_ready (report E r m)" unfolding report_def by (rule emits_bind) (rule emits_ret)
qed

lemma not_ready_registration: "not_ready (registration E R c s ep)"
  by (rule emits_registration_from) (simp_all add: not_ready_report)

lemma not_ready_calls [emits_intro]: "not_ready (call E c op meth url body answer)"
  by (rule emits_call) simp_all

lemma not_ready_health: "not_ready (check_health E c s)"
  unfolding check_health_def auth_rejected_def health_unread_def remote_healthy_def remote_unhealthy_def
    set_tools_def client_defs
  by (intro emits_intro) simp_all

lemma grows_health_steps [emits_intro]:
  "grows (auth_rejected E e)" "grows (health_unread E s e)" "grows (remote_healthy E c s)"
  "grows (remote_unhealthy E h)"
  unfolding auth_rejected_def health_unread_def remote_healthy_def remote_unhealthy_def set_tools_def client_defs
  by (intro emits_intro TrueI)+

abbreviation "server_state_of t \<equiv> ss_state (s_status (st_obj t))"

lemma degraded_after:
  "server_state_of (snd (run_state (auth_rejected E e) t)) = Degraded"
  "server_state_of (snd (run_state (health_unread E s e) t)) = Degraded"
  "server_state_of (snd (run_state (remote_unhealthy E h) t)) = Degraded"
  unfolding auth_rejected_def health_unread_def remote_unhealthy_def upd_status_def
  by (simp_all add: run_bind)

lemma health_said:
  "triple (\<lambda>l e. True) (\<lambda>t. n \<le> length (st_log t)) (check_health E c s)
     (\<lambda>a t. server_state_of t = Ready \<longrightarrow> said_healthy E c s n (st_log t))"
  unfolding check_health_def GetMCPServerHealth_def
proof (rule triple_bind [OF call_answered], intro triple_cases)
  show "triple (\<lambda>l e. True) P (auth_rejected E e)
      (\<lambda>a t. server_state_of t = Ready \<longrightarrow> said_healthy E c s n (st_log t))" for P e
    by (rule triple_run [OF grows_health_steps(1)]) (simp add: degraded_after)
  show "triple (\<lambda>l e. True) P (health_unread E s e)
      (\<lambda>a t. server_state_of t = Ready \<longrightarrow> said_healthy E c s n (st_log t))" for P e
    by (rule triple_run [OF grows_health_steps(2)]) (simp add: degraded_after)
  show "triple (\<lambda>l e. True) P (remote_unhealthy E h)
      (\<lambda>a t. server_state_of t = Ready \<longrightarrow> said_healthy E c s n (st_log t))" for P h
    by (rule triple_run [OF grows_health_steps(4)]) (simp add: degraded_after)
  have inv: "triple (\<lambda>l e. True) (\<lambda>t. said_healthy E c s n (st_log t)) (remote_healthy E c s)
      (\<lambda>a t. said_healthy E c s n (st_log t))"
    by (rule triple_invariant [OF grows_health_steps(3)]) (simp_all add: said_append)
  fix r :: "gerr + server_health" and h assume "r = Inr h" "sh_consecutive h = 0"
  then show "triple (\<lambda>l e. True) (\<lambda>t. n \<le> length (st_log t) \<and> (\<forall>x. r = Inr x \<longrightarrow>
        (\<exists>resp. answered E n (mk_request c ''GET'' (servers_url c @ s_name s @ ''/health'') None) (st_log t) resp
           \<and> hs_code resp < 500 \<and> answer_health (s_name s) (s_ns s) resp = Inr x)))
      (remote_healthy E c s) (\<lambda>a t. server_state_of t = Ready \<longrightarrow> said_healthy E c s n (st_log t))"
    by (intro triple_post [OF triple_pre [OF inv]]) (auto simp: said_healthy_def)
qed

lemma health_backed:
  "triple (ready_backed E c s n) (\<lambda>t. n \<le> length (st_log t)) (check_health E c s)
     (\<lambda>a t. server_state_of t = Ready \<longrightarrow> said_healthy E c s n (st_log t))"
  by (rule triple_weaken, rule triple_emits [OF not_ready_health health_said]) (simp add: ready_backed_def)

lemma write_backed:
  "triple (ready_backed E c s n) (\<lambda>t. server_state_of t = Ready \<longrightarrow> said_healthy E c s n (st_log t))
     (write_and_requeue E after) (\<lambda>a t. True)"
  unfolding write_and_requeue_def
  by (intro triple_bind [where R = "\<lambda>a t. True", OF triple_server_write triple_return])
    (auto simp: ready_backed_def writes_ready_def)

lemma finish_backed:
  "triple (ready_backed E c s n) (\<lambda>t. server_state_of t = Ready \<longrightarrow> said_healthy E c s n (st_log t))
     (finish_remote E s after) (\<lambda>a t. True)"
proof -
  let ?I = "\<lambda>t :: (mcp_server, server_status, kept) st. server_state_of t = Ready \<longrightarrow> said_healthy E c s n (st_log t)"
  have up: "triple (ready_backed E c s n) ?I (upd_status f) (\<lambda>a. ?I)" if "\<And>st. ss_state (f st) = ss_state st" for f
    unfolding upd_status_def by (rule triple_pre, rule wp) (simp add: that)
  have ob: "triple (ready_backed E c s n) ?I the_obj (\<lambda>a. ?I)" by (rule triple_pre, rule wp) simp
  have me: "triple (ready_backed E c s n) ?I (SetMCPServerState s x) (\<lambda>a. ?I)" for x
    unfolding SetMCPServerState_def
    by (rule triple_pre, rule wp) (auto simp: ready_backed_def intro: said_append)
  show ?thesis unfolding finish_remote_def
    by (rule triple_bind [OF up] triple_bind [OF ob] triple_bind [OF me] write_backed | simp)+
qed

lemma registration_backed:
  "triple (ready_backed E c s n) (\<lambda>t. n \<le> length (st_log t)) (reconcileRegistration E R c s)
     (\<lambda>a t. n \<le> length (st_log t))"
proof -
  have "not_ready (reconcileRegistration E R c s)"
    unfolding reconcileRegistration_def by (intro emits_intro not_ready_registration)
  then show ?thesis
    by (rule triple_invariant [where I = "\<lambda>l. n \<le> length l"]) (simp_all add: ready_backed_def)
qed

lemma remote_backed:
  assumes "sr_client R = Some c"
  shows "triple (ready_backed E c s n) (\<lambda>t. n \<le> length (st_log t)) (reconcileRemoteProvider E R s) (\<lambda>a t. True)"
proof -
  have dead: "triple (ready_backed E c s n) (\<lambda>t. n \<le> length (st_log t)) (do {
        setServerCondition E ConditionReady CondFalse ''NoEndpoint'' ''Remote provider requires endpoint'';
        upd_status (\<lambda>st. st\<lparr>ss_state := Dead\<rparr>);
        write_and_requeue E 0 }) (\<lambda>a t. True)"
    unfolding upd_status_def
    by (rule triple_pre, rule triple_bind [OF triple_setServerCondition], rule triple_bind [OF triple_upd_obj],
        rule write_backed) simp
  have rest: "triple (ready_backed E c s n) (\<lambda>t. n \<le> length (st_log t))
     (case x of (finished, after, err) \<Rightarrow>
        (if finished \<or> err \<noteq> None then ret (after, err)
         else do { a \<leftarrow> check_health E c s; finish_remote E s a })) (\<lambda>a t. True)" for x
    by (intro triple_prod triple_if triple_return TrueI triple_bind [OF health_backed finish_backed])
  show ?thesis unfolding reconcileRemoteProvider_def assms option.case
    by (intro triple_if dead triple_bind [OF registration_backed rest])
qed

subsection \<open>Deletion\<close>

text \<open>The Deployment is gone, and the claim on the name could be read.\<close>
definition cleaned :: "'e env_scheme \<Rightarrow> mcp_server \<Rightarrow> nat \<Rightarrow> history \<Rightarrow> bool" where
  "cleaned E s n l = (IsContainerMode s \<longrightarrow> gone E (Delete DeployKind (s_ns s) (DeploymentName s)) n l)"

definition claim_read :: "'e env_scheme \<Rightarrow> server_reconciler \<Rightarrow> mcp_server \<Rightarrow> nat \<Rightarrow> history \<Rightarrow> bool" where
  "claim_read E R s n l = (sr_client R \<noteq> None \<longrightarrow> (\<forall>cns. sr_claims R = Some cns \<longrightarrow>
     seen (get_lease E) LeaseKind cns (claimPrefix @ s_name s) n
       (\<lambda>r. case r of Inl e \<Rightarrow> is_not_found e | Inr _ \<Rightarrow> True) l))"

lemma cleaned_append:
  "cleaned E s n l \<Longrightarrow> cleaned E s n (l @ l')" "claim_read E R s n l \<Longrightarrow> claim_read E R s n (l @ l')"
  by (auto simp: cleaned_def claim_read_def intro: gone_append seen_append)

definition release_rule :: "'e env_scheme \<Rightarrow> server_reconciler \<Rightarrow> mcp_server \<Rightarrow> nat \<Rightarrow> history \<Rightarrow> effect \<Rightarrow> bool" where
  "release_rule E R s n l e = (case e of
     Update (KServer ob) \<Rightarrow> cleaned E s n l \<and> claim_read E R s n l
       \<and> \<not> contains_finalizer E (m_finalizers (s_meta ob)) finalizerName
   | _ \<Rightarrow> True)"

definition no_update :: "effect \<Rightarrow> bool" where
  "no_update e = (case e of Update _ \<Rightarrow> False | _ \<Rightarrow> True)"

lemma no_update_simps [simp]:
  "no_update (ReadObj k ns n)" "no_update (Event t r m)" "no_update (Metric a b)" "no_update (Delete k ns n)"
  "no_update (Sleep d)" "no_update (Http rq)" "no_update (ListObjs k ns sel)"
  by (simp_all add: no_update_def)

lemma no_update_legacy: "emits no_update (removeLegacyPod E s)"
  unfolding removeLegacyPod_def by (intro emits_intro) simp_all

lemma no_update_deregister: "emits no_update (deregisterOwned E R c s)"
  unfolding deregisterOwned_def client_defs by (intro emits_intro emits_call) simp_all

lemma release_quiet: "no_update e \<Longrightarrow> release_rule E R s n l e"
  by (auto simp: no_update_def release_rule_def split: effect.splits)

lemma deregister_reads_claim:
  assumes "sr_client R = Some c"
  shows "triple (release_rule E R s n) (\<lambda>t. n \<le> length (st_log t)) (deregisterOwned E R c s)
     (\<lambda>r t. r = None \<longrightarrow> claim_read E R s n (st_log t))"
proof (cases "sr_claims R")
  case None
  have "triple (\<lambda>l e. no_update e) (\<lambda>t. True) (deregisterOwned E R c s) (\<lambda>r t. r = None \<longrightarrow> claim_read E R s n (st_log t))"
    by (rule triple_run [OF no_update_deregister]) (simp add: claim_read_def None)
  then show ?thesis by (rule triple_weaken [OF triple_pre]) (simp_all add: release_quiet)
next
  case (Some cns)
  let ?rest = "\<lambda>g. case g of
        Inl e \<Rightarrow> ret (Some e)
      | Inr claim \<Rightarrow>
         (if \<not> holds claim s then do {
            event Normal ReasonDeregistrationSkipped (msg_left s);
            ret None }
          else do {
            d \<leftarrow> DeregisterMCPServer E c (s_name s);
            (case d of
               Inl e \<Rightarrow> event Warning ReasonFailed (msg_stays s e)
             | Inr _ \<Rightarrow> ret ());
            x \<leftarrow> claim_release E (the claim);
            (case x of
               Some e \<Rightarrow> event Warning ReasonFailed (msg_unreleased s (the claim) e)
             | None \<Rightarrow> ret ());
            ret None })"
  have rest: "emits no_update (?rest g)" for g
    unfolding DeregisterMCPServer_def by (intro emits_intro emits_call) simp_all
  have get: "triple (release_rule E R s n) (\<lambda>t. n \<le> length (st_log t)) (claim_get E cns (s_name s))
      (\<lambda>g t. (\<forall>cl. g = Inr cl \<longrightarrow> claim_read E R s n (st_log t)))"
    unfolding claim_get_def
    by (rule triple_bind [OF triple_seen], simp add: release_quiet, rule triple_return)
      (auto simp: claim_read_def Some assms elim!: seen_known split: sum.splits if_splits)
  have stay: "triple (release_rule E R s n) (\<lambda>t. \<forall>cl. g = Inr cl \<longrightarrow> claim_read E R s n (st_log t)) (?rest g)
      (\<lambda>r t. r = None \<longrightarrow> claim_read E R s n (st_log t))" for g
  proof (cases g)
    case (Inl e)
    show ?thesis unfolding Inl sum.case by (rule triple_return) simp
  next
    case (Inr cl)
    have "triple (release_rule E R s n) (\<lambda>t. claim_read E R s n (st_log t)) (?rest g) (\<lambda>r t. claim_read E R s n (st_log t))"
      by (rule triple_invariant [OF rest]) (auto simp: release_quiet claim_read_def intro: seen_append)
    then show ?thesis by (rule triple_pre [OF triple_post]) (auto simp: Inr)
  qed
  show ?thesis unfolding deregisterOwned_def Some option.case by (rule triple_bind [OF get stay])
qed

lemma clean_cleans:
  "triple (release_rule E R s n) (\<lambda>t. n \<le> length (st_log t)) (clean_container E s)
     (\<lambda>r t. n \<le> length (st_log t) \<and> (r = None \<longrightarrow> cleaned E s n (st_log t)))"
proof (cases "IsContainerMode s")
  case False
  then show ?thesis by (simp add: clean_container_def cleaned_def triple_return)
next
  case True
  let ?e = "Delete DeployKind (s_ns s) (DeploymentName s)"
  have del: "triple (release_rule E R s n) (\<lambda>t. n \<le> length (st_log t)) (perform E ?e)
      (\<lambda>x t. n \<le> length (st_log t) \<and> ((case x of None \<Rightarrow> None | Some e \<Rightarrow> ignore_not_found e) = None
          \<longrightarrow> gone E ?e n (st_log t)))"
    by (rule triple_pre, rule wp)
      (auto simp: release_quiet ignore_not_found_def split: option.splits if_splits intro!: gone_now)
  have legacy: "triple (release_rule E R s n) (\<lambda>t. n \<le> length (st_log t) \<and> gone E ?e n (st_log t))
      (removeLegacyPod E s) (\<lambda>r t. n \<le> length (st_log t) \<and> gone E ?e n (st_log t))"
    by (rule triple_invariant [OF no_update_legacy, where I = "\<lambda>l. n \<le> length l \<and> gone E ?e n l"])
      (auto simp: release_quiet intro: gone_append)
  show ?thesis unfolding clean_container_def using True
    apply simp
    apply (rule triple_bind [OF del])
    apply (rule triple_option)
     apply (rule triple_post [OF triple_pre [OF legacy]])
      apply (simp_all add: cleaned_def)
    apply (rule triple_return, simp)
    done
qed

lemma release_last:
  assumes "lib_finalizers E"
  shows "triple (release_rule E R s n) (\<lambda>t. cleaned E s n (st_log t) \<and> claim_read E R s n (st_log t))
     (release_server E s) (\<lambda>a t. True)"
proof -
  let ?I = "\<lambda>l. cleaned E s n l \<and> claim_read E R s n l"
  have fin: "\<not> contains_finalizer E (remove_finalizer E fs finalizerName) finalizerName" for fs
    by (simp add: finalizer_list.has_remove [OF assms])
  let ?F = "\<lambda>ob. \<not> contains_finalizer E (m_finalizers (s_meta ob)) finalizerName"
  have metric: "triple (release_rule E R s n) (\<lambda>t. ?I (st_log t)) (ClearProviderMetrics s) (\<lambda>a t. ?I (st_log t))"
    unfolding ClearProviderMetrics_def
    by (rule triple_invariant [OF emits_emit [where A = no_update]])
      (auto simp: release_quiet intro: cleaned_append)
  have drop: "triple (release_rule E R s n) (\<lambda>t. ?I (st_log t)) (upd_obj (\<lambda>ob. ob\<lparr>s_meta := (s_meta ob)\<lparr>m_finalizers :=
        remove_finalizer E (m_finalizers (s_meta ob)) finalizerName\<rparr>\<rparr>)) (\<lambda>a t. ?I (st_log t) \<and> ?F (st_obj t))"
    by (rule triple_pre, rule wp) (simp add: fin)
  have obj: "triple (release_rule E R s n) (\<lambda>t. ?I (st_log t) \<and> ?F (st_obj t)) the_obj (\<lambda>ob t. ?I (st_log t) \<and> ?F ob)"
    by (rule triple_pre, rule wp) simp
  have upd: "triple (release_rule E R s n) (\<lambda>t. ?I (st_log t) \<and> ?F ob) (perform E (Update (KServer ob))) (\<lambda>a t. True)" for ob
    by (rule triple_pre, rule wp) (simp add: release_rule_def)
  have tail: "triple (release_rule E R s n) (\<lambda>t. True) (case x of
        Some e \<Rightarrow> ret (0, Some e)
      | None \<Rightarrow> do { event Normal ''Deleted'' ''Provider deleted''; ret (0, None) }) (\<lambda>a t. True)" for x
    by (rule triple_weaken [where G = "\<lambda>l. no_update"], intro emits_intro) (simp_all add: release_quiet)
  show ?thesis unfolding release_server_def
    by (rule triple_bind [OF metric triple_bind [OF drop triple_bind [OF obj triple_bind [OF upd tail]]]])
qed

lemma delete_ordered:
  assumes "lib_finalizers E"
  shows "triple (release_rule E R s n) (\<lambda>t. n \<le> length (st_log t)) (reconcileDelete E R s) (\<lambda>a t. True)"
proof -
  have claim: "triple (release_rule E R s n) (\<lambda>t. n \<le> length (st_log t) \<and> cleaned E s n (st_log t))
     (case sr_client R of None \<Rightarrow> ret None | Some c \<Rightarrow> deregisterOwned E R c s)
     (\<lambda>r t. r = None \<longrightarrow> cleaned E s n (st_log t) \<and> claim_read E R s n (st_log t))"
  proof (cases "sr_client R")
    case None
    show ?thesis unfolding None option.case by (rule triple_return) (simp add: claim_read_def None)
  next
    case (Some c)
    have keep: "triple (release_rule E R s n) (\<lambda>t. cleaned E s n (st_log t)) (deregisterOwned E R c s) (\<lambda>r t. cleaned E s n (st_log t))"
      by (rule triple_invariant [OF no_update_deregister]) (auto simp: release_quiet cleaned_def intro: gone_append)
    show ?thesis unfolding Some option.case
      by (rule triple_weaken [OF triple_post [OF triple_pre [OF triple_conj [OF deregister_reads_claim [OF Some] keep]]]]) auto
  qed
  have rel: "triple (release_rule E R s n) (\<lambda>t. y = None \<longrightarrow> cleaned E s n (st_log t) \<and> claim_read E R s n (st_log t))
     (case y of Some e \<Rightarrow> ret (0, Some e) | None \<Rightarrow> release_server E s) (\<lambda>a t. True)" for y
    by (intro triple_option triple_return TrueI triple_pre [OF release_last [OF assms]]) simp
  have step: "triple (release_rule E R s n) (\<lambda>t. n \<le> length (st_log t) \<and> (x = None \<longrightarrow> cleaned E s n (st_log t)))
     (case x of
        Some e \<Rightarrow> ret (0, Some e)
      | None \<Rightarrow> do {
          y \<leftarrow> (case sr_client R of None \<Rightarrow> ret None | Some c \<Rightarrow> deregisterOwned E R c s);
          (case y of
             Some e \<Rightarrow> ret (0, Some e)
           | None \<Rightarrow> release_server E s) }) (\<lambda>a t. True)" for x
    by (intro triple_option triple_return TrueI triple_pre [OF triple_bind [OF claim rel]]) simp
  show ?thesis unfolding reconcileDelete_def by (rule triple_bind [OF clean_cleans step])
qed

subsection \<open>Deployments of others\<close>

text \<open>The rule for writes of the Deployment and deletes of the legacy pod.\<close>
definition deploy_rule :: "'e env_scheme \<Rightarrow> mcp_server \<Rightarrow> nat \<Rightarrow> history \<Rightarrow> effect \<Rightarrow> bool" where
  "deploy_rule E s n l e = (case e of
     Apply k \<Rightarrow> (\<exists>d. k = KDeploy d \<and> m_name (dep_meta d) = DeploymentName s \<and> m_namespace (dep_meta d) = s_ns s)
       \<and> seen (get_deploy E) DeployKind (s_ns s) (DeploymentName s) n
           (\<lambda>r. case r of Inl x \<Rightarrow> is_not_found x | Inr ex \<Rightarrow> is_controlled_by E (dep_meta ex) (s_meta s)) l
   | Delete k ns nm \<Rightarrow> k = PodKind \<and> seen (get_pod E) PodKind (s_ns s) (GetPodName s) n
       (\<lambda>r. case r of Inl _ \<Rightarrow> False | Inr p \<Rightarrow> is_controlled_by E (pod_meta p) (s_meta s)
          \<and> m_namespace (pod_meta p) = ns \<and> m_name (pod_meta p) = nm) l
   | Create _ \<Rightarrow> False | Update _ \<Rightarrow> False
   | _ \<Rightarrow> True)"

lemma harmless_rule: "harmless e \<Longrightarrow> deploy_rule E s n l e"
  by (auto simp: harmless_def deploy_rule_def split: effect.splits)

lemma harmless_steps:
  "emits harmless (deploymentWriteFailed E e)" "emits harmless (report_dep_taken E d)"
  "emits harmless (report_pod E R s inc)"
  unfolding report_pod_def syncPodStatus_def handlePodRunning_def GetMCPServerTools_def
  by (intro emits_intro emits_phase emits_call; simp)+

lemma rule_quiet:
  assumes "emits harmless m"
  shows "triple (deploy_rule E s n) P m (\<lambda>a t. True)"
  by (rule triple_weaken [OF triple_pre [OF assms]]) (simp_all add: harmless_rule)

lemma legacy_rule:
  "triple (deploy_rule E s n) (\<lambda>t. n \<le> length (st_log t)) (removeLegacyPod E s) (\<lambda>a t. n \<le> length (st_log t))"
proof -
  let ?seen = "\<lambda>p t. n \<le> length (st_log t) \<and> seen (get_pod E) PodKind (s_ns s) (GetPodName s) n ((=) (Inr p)) (st_log t)"
  have len: "triple (deploy_rule E s n) (\<lambda>t. n \<le> length (st_log t)) m (\<lambda>a t. n \<le> length (st_log t))"
    if "emits harmless m" for m :: "'b srv"
    by (rule triple_invariant [OF that, where I = "\<lambda>l. n \<le> length l"]) (simp_all add: harmless_rule)
  have del: "triple (deploy_rule E s n) (?seen p)
      (perform E (Delete PodKind (m_namespace (pod_meta p)) (m_name (pod_meta p)))) (\<lambda>a t. n \<le> length (st_log t))"
    if "is_controlled_by E (pod_meta p) (s_meta s)" for p
    by (rule triple_pre, rule wp) (use that in \<open>auto simp: deploy_rule_def elim!: seen_known\<close>)
  have tail: "triple (deploy_rule E s n) (\<lambda>t :: (mcp_server, server_status, kept) st. n \<le> length (st_log t)) (case y of
               Some e \<Rightarrow> ret (Some e)
             | None \<Rightarrow> do { event Normal ''LegacyPodRemoved'' (msg_legacy s p); ret None })
      (\<lambda>a t. n \<le> length (st_log t))" for y p
    by (rule len) (intro emits_intro, simp)
  have step: "triple (deploy_rule E s n) (\<lambda>t :: (mcp_server, server_status, kept) st. n \<le> length (st_log t)
        \<and> seen (get_pod E) PodKind (s_ns s) (GetPodName s) n ((=) r) (st_log t))
     (case r of
        Inl e \<Rightarrow> ret (if is_not_found e then None else Some e)
      | Inr p \<Rightarrow>
         (if \<not> is_controlled_by E (pod_meta p) (s_meta s) \<or> m_deletion (pod_meta p) \<noteq> None then ret None
          else do {
            x \<leftarrow> perform E (Delete PodKind (m_namespace (pod_meta p)) (m_name (pod_meta p)));
            (case (case x of None \<Rightarrow> None | Some e \<Rightarrow> ignore_not_found e) of
               Some e \<Rightarrow> ret (Some e)
             | None \<Rightarrow> do { event Normal ''LegacyPodRemoved'' (msg_legacy s p); ret None }) }))
     (\<lambda>a t. n \<le> length (st_log t))" for r
    by (intro triple_sum triple_if triple_return triple_pre [OF triple_bind [OF del tail]]) auto
  show ?thesis unfolding removeLegacyPod_def
    by (rule triple_bind [OF triple_seen step]) (simp add: harmless_rule)
qed

lemma write_rule:
  assumes d: "m_name (dep_meta d) = DeploymentName s" "m_namespace (dep_meta d) = s_ns s"
  shows "triple (deploy_rule E s n) (\<lambda>t. n \<le> length (st_log t)) (write_deployment E s d hash) (\<lambda>a t. True)"
proof -
  let ?seen = "\<lambda>r t. n \<le> length (st_log t) \<and> seen (get_deploy E) DeployKind (s_ns s) (DeploymentName s) n ((=) r) (st_log t)"
  have app: "triple (deploy_rule E s n) (?seen r) (applyOwned E (KDeploy d')) (\<lambda>a t. True)"
    if "case r of Inl x \<Rightarrow> is_not_found x | Inr ex \<Rightarrow> is_controlled_by E (dep_meta ex) (s_meta s)"
      "m_name (dep_meta d') = DeploymentName s" "m_namespace (dep_meta d') = s_ns s" for r d'
    unfolding applyOwned_def
    by (intro triple_option triple_return TrueI triple_pre [OF triple_perform])
      (use that in \<open>auto simp: deploy_rule_def applyUnstructured_def strip_meta_def elim: seen_known\<close>)
  have ann: "m_name (dep_meta (annotate_dep d k v)) = DeploymentName s"
    "m_namespace (dep_meta (annotate_dep d k v)) = s_ns s" for k v
    by (simp_all add: annotate_dep_def d)
  show ?thesis unfolding write_deployment_def d
    by (rule triple_bind [OF triple_seen], simp add: harmless_rule,
        intro triple_sum triple_if triple_return TrueI triple_bind [OF app rule_quiet] rule_quiet
          emits_intro harmless_steps)
      (auto simp: d ann)
qed

lemma deployment_rule:
  assumes "lib_owners E"
  shows "triple (deploy_rule E s n) (\<lambda>t. n \<le> length (st_log t)) (reconcileDeployment E R s inc) (\<lambda>a t. True)"
  unfolding reconcileDeployment_def
proof (intro triple_sum triple_return TrueI)
  show "triple (deploy_rule E s n) (\<lambda>t. n \<le> length (st_log t)) (do {
       setServerCondition E ConditionReady CondFalse ''PodBuildFailed'' (err_text e);
       write_and_requeue E errorRequeueAfter }) (\<lambda>a t. True)" for e
    by (rule rule_quiet) (intro emits_intro; simp)
  fix d m hash
  assume d: "BuildDeploymentForMCPServer s = Inr d" "set_controller E (s_meta s) (dep_meta d) = Inr m"
  have "m_name (dep_meta d) = DeploymentName s \<and> m_namespace (dep_meta d) = s_ns s"
    using d(1) by (auto simp: BuildDeploymentForMCPServer_def mk_meta_def split: sum.splits)
  then have nm: "m_name (dep_meta (annotate_dep (d\<lparr>dep_meta := m\<rparr>) annotationDeploymentHash hash)) = DeploymentName s"
    "m_namespace (dep_meta (annotate_dep (d\<lparr>dep_meta := m\<rparr>) annotationDeploymentHash hash)) = s_ns s"
    using owner_refs.setref_name [OF assms d(2)] by (simp_all add: annotate_dep_def)
  have last: "triple (deploy_rule E s n) (\<lambda>t. True) (case w of Inl z \<Rightarrow> ret z | Inr _ \<Rightarrow> report_pod E R s inc) (\<lambda>a t. True)" for w :: "outcome + unit"
    by (rule rule_quiet) (intro emits_intro harmless_steps)
  show "triple (deploy_rule E s n) (\<lambda>t. n \<le> length (st_log t)) (do {
             x \<leftarrow> removeLegacyPod E s;
             (case x of
                Some e \<Rightarrow> ret (0, Some e)
              | None \<Rightarrow> do {
                  w \<leftarrow> write_deployment E s (annotate_dep (d\<lparr>dep_meta := m\<rparr>) annotationDeploymentHash hash) hash;
                  (case w of
                     Inl z \<Rightarrow> ret z
                   | Inr _ \<Rightarrow> report_pod E R s inc) }) }) (\<lambda>a t. True)"
    by (rule triple_bind [OF legacy_rule], intro triple_option triple_return TrueI
        triple_bind [OF write_rule [OF nm] last])
qed

section \<open>Properties\<close>

text \<open>C4 Ready means core said so: with a core client, every status a reconcile of a
  remote server writes with state Ready comes after core answered, in the same
  reconcile, that the server has no consecutive failures.\<close>
theorem remote_ready_only_if_core_says:
  assumes "sr_client R = Some c" and "run_state (reconcileRemoteProvider E R s) t = (a, t')"
    and "st_log t' = st_log t @ es" and "i < length es" and "writes_ready (es ! i)"
  shows "said_healthy E c s (length (st_log t)) (st_log t @ take i es)"
proof -
  have "ready_backed E c s (length (st_log t)) (st_log t @ take i es) (es ! i)"
    by (rule tripleD(2) [OF remote_backed [OF assms(1)] _ assms(2-4)]) simp
  then show ?thesis using assms(5) by (simp add: ready_backed_def)
qed

text \<open>C29 A container-mode server becomes Ready only with its containers ready, its
  registration complete, and, with a core client, core's answer with its tools.\<close>
theorem container_ready_only_if_tools:
  assumes "run_state (handlePodRunning E R s incomplete p) t = (a, t')"
    and "server_state_of t \<noteq> Ready" and "server_state_of t' = Ready"
  shows "list_all cs_ready (pod_containers p) \<and> \<not> incomplete
    \<and> (\<forall>c. sr_client R = Some c \<longrightarrow> said_tools E c s (length (st_log t)) (st_log t'))"
proof -
  have 1: "list_all cs_ready (pod_containers p)" "\<not> incomplete"
    using assms by (auto simp: handlePodRunning_def upd_status_def SetMCPServerState_def run_bind split: if_splits)
  have "said_tools E c s (length (st_log t)) (st_log t')" if c: "sr_client R = Some c" for c
  proof -
    obtain r t1 where r: "run_state (GetMCPServerTools E c (s_name s) (s_ns s)) t = (r, t1)"
      by (cases "run_state (GetMCPServerTools E c (s_name s) (s_ns s)) t")
    obtain es where "st_log t1 = st_log t @ es"
      using emitsD [OF grows_call r [unfolded GetMCPServerTools_def]] by blast
    from tripleD(1) [OF call_answered [where n = "length (st_log t)"] _ r [unfolded GetMCPServerTools_def] this]
    have ans: "r = Inr x \<Longrightarrow> said_tools E c s (length (st_log t)) (st_log t1)" for x
      unfolding said_tools_def by fastforce
    show ?thesis
    proof (cases r)
      case (Inl e)
      then have "server_state_of t' = Degraded"
        using assms(1) 1 c r by (auto simp: handlePodRunning_def run_bind tools_failed_def upd_status_def SetMCPServerState_def)
      then show ?thesis using assms(3) by simp
    next
      case (Inr tools)
      then have run: "run_state (do { set_tools s tools; mark_ready E s }) t1 = (a, t')"
        using assms(1) 1 c r by (simp add: handlePodRunning_def run_bind)
      have g: "grows (do { set_tools s tools; mark_ready E s })" by (intro emits_intro TrueI)
      obtain es where "st_log t' = st_log t1 @ es" using emitsD [OF g run] by blast
      then show ?thesis using ans [OF Inr] said_append(2) by simp
    qed
  qed
  then show ?thesis using 1 by blast
qed

text \<open>C6 Deletion in order: the finalizer is released only after the Deployment of a
  container-mode server is gone and, with a core client and claims, the claim on
  its name could be read; and the update does release it.\<close>
theorem finalizer_released_last:
  assumes "lib_finalizers E" and "run_state (reconcileDelete E R s) t = (a, t')"
    and "st_log t' = st_log t @ es" and "i < length es" and "es ! i = Update (KServer ob)"
  shows "cleaned E s (length (st_log t)) (st_log t @ take i es)
    \<and> claim_read E R s (length (st_log t)) (st_log t @ take i es)
    \<and> \<not> contains_finalizer E (m_finalizers (s_meta ob)) finalizerName"
proof -
  have "release_rule E R s (length (st_log t)) (st_log t @ take i es) (es ! i)"
    by (rule tripleD(2) [OF delete_ordered [OF assms(1)] _ assms(2-4)]) simp
  then show ?thesis using assms(5) by (simp add: release_rule_def)
qed

text \<open>C15 A stranger's Deployment is safe: what a reconcile applies is a Deployment of
  the server's own name, and only after this reconcile read that name and found
  nothing or a Deployment this MCPServer controls; the only pod it deletes is the
  fixed-name pod it read and controls.\<close>
theorem deployment_written_only_if_controlled:
  assumes "lib_owners E" and "run_state (reconcileDeployment E R s incomplete) t = (a, t')"
    and "st_log t' = st_log t @ es" and "i < length es"
  shows "deploy_rule E s (length (st_log t)) (st_log t @ take i es) (es ! i)"
  by (rule tripleD(2) [OF deployment_rule [OF assms(1)] _ assms(2-4)]) simp

text \<open>The pod the status is taken from is the newest live one: not terminating,
  not the legacy pod, and created no earlier than any other such pod; there is
  none exactly when no listed pod is live.\<close>
theorem current_pod_is_newest:
  assumes "list_pods E (st_log t) (s_ns s) (Some (match_labels (DeploymentSelector s))) = Inr pods"
  shows "(case fst (run_state (currentPod E s) t) of
      Inl _ \<Rightarrow> False
    | Inr None \<Rightarrow> list_all (\<lambda>q. \<not> live_pod E s q) pods
    | Inr (Some p) \<Rightarrow> p \<in> set pods \<and> live_pod E s p
        \<and> list_all (\<lambda>q. \<not> live_pod E s q \<or> m_creation (pod_meta q) \<le> m_creation (pod_meta p)) pods)"
proof -
  have some: "foldl (newer L s) (Some b) ps \<noteq> None" for L :: "'a env_scheme" and b ps
    by (induction ps arbitrary: b) (auto simp: newer_cases)
  have none: "foldl (newer L s) best ps = None \<Longrightarrow> list_all (\<lambda>q. \<not> live_pod L s q) ps" for L :: "'a env_scheme" and best ps
    by (induction ps arbitrary: best) (auto simp: newer_cases some split: if_splits option.splits)
  show ?thesis
    using assms newest_fold [of E s None pods] none [of E None pods]
    by (auto simp: currentPod_def run_bind list_all_iff split: option.split)
qed

text \<open>A key-pinned container that cannot be registered does not run: without a core
  client or without claims a reconcile applies no Deployment.\<close>
theorem held_server_does_not_run:
  assumes "keyPinned s" and "IsContainerMode s" and "sr_client R = None \<or> sr_claims R = None"
    and "run_state (reconcileNormal E R s) t = (a, t')"
  shows "\<exists>es. st_log t' = st_log t @ es \<and> list_all (\<lambda>e. case e of Apply (KDeploy _) \<Rightarrow> False | _ \<Rightarrow> True) es"
proof -
  have m: "sp_mode (s_spec s) = ModeContainer" using assms(2) by (simp add: IsContainerMode_def)
  have "emits (\<lambda>e. case e of Apply (KDeploy _) \<Rightarrow> False | _ \<Rightarrow> True) (reconcileProviderIngress E R s)"
    unfolding reconcileProviderIngress_def remove_fence_def write_fence_def record_ingress_def Let_def
    by (intro emits_intro) (simp_all add: applyUnstructured_def)
  then have "emits (\<lambda>e. case e of Apply (KDeploy _) \<Rightarrow> False | _ \<Rightarrow> True) (reconcileNormal E R s)"
    unfolding reconcileNormal_def using assms(1-3) by (simp, intro emits_intro) simp_all
  from emitsD [OF this assms(4)] show ?thesis .
qed

section \<open>Concrete runs\<close>

text \<open>A core that knows every server: healthy, with one tool.\<close>
definition healthy_core :: "history \<Rightarrow> http_req \<Rightarrow> gerr + http_resp" where
  "healthy_core l rq = Inr \<lparr>hs_code = 200, hs_body = [], hs_json =
     Some (JObj [(''tools'', JArr [JStr ''t''])])\<rparr>"

definition healthy_env :: env where "healthy_env = std_env\<lparr>http_result := healthy_core\<rparr>"

definition mirror_reconciler :: server_reconciler where
  "mirror_reconciler = demo_reconciler\<lparr>sr_claims := None\<rparr>"

lemmas core_evals = run_bind demo_defs healthy_env_def healthy_core_def mirror_reconciler_def start_state_def
  zero_server_status_def run_demo_call demo_steps client_defs answer_tools_def answer_health_def decode_health_def
  decode_object_def jfield_def decode_list_def decode_tool_def decode_string_def decode_int_def decode_number_def
  decode_bool_def to_i64_def

definition mirror_run :: "outcome \<times> (mcp_server, server_status, kept) st" where
  "mirror_run = run_state (reconcileRemoteProvider healthy_env mirror_reconciler demo_remote)
     (start_state demo_remote zero_server_status)"

lemma mirror_run_ready:
  "7 < length (st_log (snd mirror_run)) \<and> writes_ready (st_log (snd mirror_run) ! 7)"
  unfolding mirror_run_def reconcileRemoteProvider_def reconcileRegistration_def registration_def not_done_def
    check_health_def remote_healthy_def finish_remote_def write_and_requeue_def setServerCondition_def
    the_conditions_def upd_status_def set_tools_def SetMCPServerState_def writeStatus_def
  by (simp add: core_evals conditionChanges_def upsertCondition_def writes_ready_def)

theorem remote_ready_only_if_core_says_witness:
  "said_healthy healthy_env demo_client demo_remote 0 (take 7 (st_log (snd mirror_run)))"
  using remote_ready_only_if_core_says [of mirror_reconciler demo_client healthy_env demo_remote
      "start_state demo_remote zero_server_status" "fst mirror_run" "snd mirror_run" "st_log (snd mirror_run)" 7]
    mirror_run_ready
  by (simp add: mirror_run_def start_state_def mirror_reconciler_def demo_reconciler_def)

text \<open>A running pod with one ready container, and two pods of one server.\<close>
definition demo_pod :: "string \<Rightarrow> int \<Rightarrow> pod" where
  "demo_pod n at = \<lparr>pod_meta = empty_meta\<lparr>m_name := n, m_namespace := ''n'', m_creation := at\<rparr>,
     pod_spec = \<lparr>psp_containers = [], psp_volumes = [], psp_restart = RestartAlways, psp_service_account = [],
       psp_automount = None, psp_node_selector = [], psp_pull_secrets = [], psp_priority_class = [],
       psp_runtime_class = None, psp_grace = None, psp_tolerations = [], psp_affinity = None, psp_sc = []\<rparr>,
     pod_phase = PhaseRunning, pod_reason = [], pod_message = [], pod_ip = ''10.0.0.1'',
     pod_containers = [\<lparr>cs_ready = True, cs_restarts = 0, cs_waiting = None, cs_last_exit = None\<rparr>],
     pod_conditions = []\<rparr>"

definition running_run :: "int \<times> (mcp_server, server_status, kept) st" where
  "running_run = run_state (handlePodRunning healthy_env mirror_reconciler (demo_container ''i'') False (demo_pod ''p'' 1))
     (start_state (demo_container ''i'') zero_server_status)"

lemma mark_ready_state: "server_state_of (snd (run_state (mark_ready E s) t)) = Ready"
  by (simp add: mark_ready_def run_bind upd_status_def SetMCPServerState_def Let_def)

lemma running_run_ready: "server_state_of (snd running_run) = Ready"
  unfolding running_run_def handlePodRunning_def set_tools_def upd_status_def
  by (simp add: core_evals demo_container_def demo_pod_def mark_ready_state)

theorem container_ready_only_if_tools_witness:
  "said_tools healthy_env demo_client (demo_container ''i'') 0 (st_log (snd running_run))"
proof -
  have run: "run_state (handlePodRunning healthy_env mirror_reconciler (demo_container ''i'') False (demo_pod ''p'' 1))
      (start_state (demo_container ''i'') zero_server_status) = (fst running_run, snd running_run)"
    by (simp add: running_run_def)
  have "server_state_of (start_state (demo_container ''i'') zero_server_status) \<noteq> Ready"
    by (simp add: start_state_def demo_container_def zero_server_def zero_server_status_def)
  from container_ready_only_if_tools [OF run this running_run_ready] show ?thesis
    by (simp add: mirror_reconciler_def demo_reconciler_def start_state_def)
qed

definition two_pods_env :: env where
  "two_pods_env = std_env\<lparr>list_pods := (\<lambda>l ns sel. Inr [demo_pod ''old'' 1, demo_pod ''new'' 2])\<rparr>"

theorem current_pod_is_newest_witness:
  "fst (run_state (currentPod two_pods_env (demo_container ''i'')) (start_state (demo_container ''i'') zero_server_status))
     = Inr (Some (demo_pod ''new'' 2))"
proof -
  let ?r = "fst (run_state (currentPod two_pods_env (demo_container ''i'')) (start_state (demo_container ''i'') zero_server_status))"
  have live: "live_pod two_pods_env (demo_container ''i'') (demo_pod n at)" for n at
    by (simp add: live_pod_def two_pods_env_def demo_pod_def std_controlled_def empty_meta_def)
  have at: "m_creation (pod_meta (demo_pod n at)) = at" for n at by (simp add: demo_pod_def)
  have "list_pods two_pods_env (st_log (start_state (demo_container ''i'') zero_server_status))
      (s_ns (demo_container ''i'')) (Some (match_labels (DeploymentSelector (demo_container ''i''))))
    = Inr [demo_pod ''old'' 1, demo_pod ''new'' 2]" by (simp add: two_pods_env_def)
  from current_pod_is_newest [OF this] show ?thesis
    by (cases ?r) (auto simp: live at split: option.splits)
qed

text \<open>Deletion of a container-mode server whose name nobody claimed.\<close>
definition deleting :: mcp_server where
  "deleting = (demo_container ''i'')\<lparr>s_meta := (s_meta (demo_container ''i''))\<lparr>m_finalizers := [finalizerName]\<rparr>\<rparr>"

definition delete_run :: "outcome \<times> (mcp_server, server_status, kept) st" where
  "delete_run = run_state (reconcileDelete std_env demo_reconciler deleting) (start_state deleting zero_server_status)"

lemma delete_run_releases:
  "5 < length (st_log (snd delete_run)) \<and> (\<exists>ob. st_log (snd delete_run) ! 5 = Update (KServer ob))"
  unfolding delete_run_def reconcileDelete_def clean_container_def removeLegacyPod_def deregisterOwned_def
    claim_get_def release_server_def ClearProviderMetrics_def
  by (simp add: core_evals demo_container_def deleting_def IsContainerMode_def is_not_found_def holds_def)

theorem finalizer_released_last_witness:
  "cleaned std_env deleting 0 (take 5 (st_log (snd delete_run)))
     \<and> claim_read std_env demo_reconciler deleting 0 (take 5 (st_log (snd delete_run)))"
proof -
  obtain ob where ob: "st_log (snd delete_run) ! 5 = Update (KServer ob)" using delete_run_releases by blast
  have "lib_finalizers std_env" by (simp add: std_fins.finalizer_list_axioms)
  from finalizer_released_last [OF this, of demo_reconciler deleting "start_state deleting zero_server_status"
      "fst delete_run" "snd delete_run" "st_log (snd delete_run)" 5 ob] ob delete_run_releases
  show ?thesis by (simp add: delete_run_def start_state_def)
qed

text \<open>A Deployment created where there was none, and a server that must not run.\<close>
definition create_run :: "outcome \<times> (mcp_server, server_status, kept) st" where
  "create_run = run_state (reconcileDeployment std_env demo_reconciler (demo_container ''i'') False)
     (start_state (demo_container ''i'') zero_server_status)"

lemma create_run_applies:
  "2 < length (st_log (snd create_run)) \<and> (case st_log (snd create_run) ! 2 of Apply (KDeploy d) \<Rightarrow> True | _ \<Rightarrow> False)"
  unfolding create_run_def reconcileDeployment_def removeLegacyPod_def write_deployment_def applyOwned_def
    report_pod_def currentPod_def upd_status_def setServerCondition_def SetMCPServerState_def
    write_and_requeue_def writeStatus_def
  by (simp add: core_evals demo_container_def BuildDeploymentForMCPServer_def BuildPodForMCPServer_def Let_def
    std_set_controller_def mk_meta_def deploymentHash_def is_not_found_def annotate_dep_def IsCold_def GetReplicas_def
    applyUnstructured_def)

theorem deployment_written_only_if_controlled_witness:
  "deploy_rule std_env (demo_container ''i'') 0 (take 2 (st_log (snd create_run))) (st_log (snd create_run) ! 2)"
  using deployment_written_only_if_controlled [OF std_env_laws(2), of demo_reconciler "demo_container ''i''" False
      "start_state (demo_container ''i'') zero_server_status" "fst create_run" "snd create_run"
      "st_log (snd create_run)" 2] create_run_applies
  by (simp add: create_run_def start_state_def)

definition pinned_container :: mcp_server where
  "pinned_container = (demo_container ''i'')\<lparr>s_spec := (s_spec (demo_container ''i''))\<lparr>sp_tls :=
     Some \<lparr>tls_peer = Some \<lparr>pi_key_ref = ''r'', pi_spki = [''p''], pi_issuance = []\<rparr>, tls_max_age = None\<rparr>\<rparr>\<rparr>"

theorem held_server_does_not_run_witness:
  "list_all (\<lambda>e. case e of Apply (KDeploy _) \<Rightarrow> False | _ \<Rightarrow> True)
     (st_log (snd (run_state (reconcileNormal std_env mirror_reconciler pinned_container)
        (start_state pinned_container zero_server_status))))"
  using held_server_does_not_run [of pinned_container mirror_reconciler std_env
      "start_state pinned_container zero_server_status"
      "fst (run_state (reconcileNormal std_env mirror_reconciler pinned_container)
        (start_state pinned_container zero_server_status))"
      "snd (run_state (reconcileNormal std_env mirror_reconciler pinned_container)
        (start_state pinned_container zero_server_status))"]
  by (simp add: pinned_container_def demo_container_def keyPinned_def IsContainerMode_def mirror_reconciler_def
      start_state_def)

end
