(* ===== verification/NamespaceEgress.thy ===== *)
theory NamespaceEgress
  imports ServerPolicy
begin

text \<open>
  \<open>internal/controller/namespace_egress_controller.go\<close>: the default-deny egress
  NetworkPolicy of a namespace that opts in by label.  The Namespace has no status,
  so the object of a run is the Namespace and its status type is \<open>unit\<close>.  Beside the
  safety of a stranger's policy under the name, the property here is that an
  opted-in namespace is fenced when a reconcile ends with nothing to report.
\<close>

section \<open>The reconciler\<close>

record namespace_reconciler =
  nr_probe :: "probe_config option"
  nr_dns :: dns_config

type_synonym 'a nsp = "(namespace_obj, unit, 'a) prog"

definition ReasonDefaultDenyNotOwned :: string where
  "ReasonDefaultDenyNotOwned = ''DefaultDenyNotOwned''"
definition foreignDefaultDenyRequeue :: int where "foreignDefaultDenyRequeue = seconds 300"
definition ReasonDefaultDenyUnenforced :: string where
  "ReasonDefaultDenyUnenforced = ''DefaultDenyUnenforced''"

definition defaultDenyOwnedByOperator ::
  "'e klib_scheme \<Rightarrow> namespace_obj \<Rightarrow> network_policy \<Rightarrow> bool" where
  "defaultDenyOwnedByOperator L ns np =
     (if is_controlled_by L (np_meta np) (ns_meta ns) then True
      else controller_of L (np_meta np) = None
        \<and> label_of (m_labels (np_meta np)) LabelManagedBy = DefaultManagerName)"

definition msg_unenforced :: "namespace_obj \<Rightarrow> signal \<Rightarrow> string" where
  "msg_unenforced ns sg = ''default-deny egress NetworkPolicy '' @ m_name (ns_meta ns) @ ''/''
     @ DefaultDenyEgressName @ '' was written but nothing here enforces it: '' @ sg_source sg"
definition msg_not_owned :: "network_policy \<Rightarrow> string" where
  "msg_not_owned np = ''NetworkPolicy '' @ m_namespace (np_meta np) @ ''/'' @ m_name (np_meta np)
     @ '' exists but is not managed by the operator; the operator's default-deny egress backstop ''
     @ ''is not applied until it is removed''"

definition warnIfUnenforced :: "'e env_scheme \<Rightarrow> namespace_reconciler \<Rightarrow> namespace_obj \<Rightarrow> unit nsp" where
  "warnIfUnenforced E R ns = do {
     sg \<leftarrow> Signal E (nr_probe R);
     whenM (sg_verdict sg = NotObserved)
       (event Warning ReasonDefaultDenyUnenforced (msg_unenforced ns sg)) }"

definition write_default_deny ::
  "'e env_scheme \<Rightarrow> namespace_reconciler \<Rightarrow> namespace_obj \<Rightarrow> network_policy \<Rightarrow> string \<Rightarrow> outcome nsp" where
  "write_default_deny E R ns desired what = do {
     x \<leftarrow> applyOwned E (KNetPol desired);
     (case x of
        Some e \<Rightarrow> ret (0, Some (Wrap what e))
      | None \<Rightarrow> do { warnIfUnenforced E R ns; ret (0, None) }) }"

definition remove_default_deny ::
  "'e env_scheme \<Rightarrow> namespace_obj \<Rightarrow> gerr + network_policy \<Rightarrow> outcome nsp" where
  "remove_default_deny E ns existing = (case existing of
     Inl e \<Rightarrow> ret (0, None)
   | Inr np \<Rightarrow>
      (if \<not> defaultDenyOwnedByOperator E ns np then ret (0, None)
       else do {
         x \<leftarrow> perform E (Delete NetPolKind (m_namespace (np_meta np)) (m_name (np_meta np)));
         ret (0, (case (case x of None \<Rightarrow> None | Some e \<Rightarrow> ignore_not_found e) of
            None \<Rightarrow> None | Some e \<Rightarrow> Some (Wrap ''delete default-deny egress: '' e))) }))"

definition default_deny_drifted ::
  "'e klib_scheme \<Rightarrow> namespace_obj \<Rightarrow> network_policy \<Rightarrow> network_policy \<Rightarrow> bool" where
  "default_deny_drifted L ns existing desired =
     (np_spec existing \<noteq> np_spec desired
      \<or> \<not> labelsContain (m_labels (np_meta existing)) (m_labels (np_meta desired))
      \<or> \<not> is_controlled_by L (np_meta existing) (ns_meta ns))"

text \<open>The opted-in half, from the policy as it is to be written.\<close>
definition keep_default_deny ::
  "'e env_scheme \<Rightarrow> namespace_reconciler \<Rightarrow> namespace_obj \<Rightarrow> gerr + network_policy
     \<Rightarrow> network_policy \<Rightarrow> outcome nsp" where
  "keep_default_deny E R ns existing desired = (case existing of
     Inl e \<Rightarrow>
       (if is_not_found e then write_default_deny E R ns desired ''create default-deny egress: ''
        else ret (0, Some (Wrap ''get default-deny egress: '' e)))
   | Inr np \<Rightarrow>
      (if \<not> defaultDenyOwnedByOperator E ns np then do {
         event Warning ReasonDefaultDenyNotOwned (msg_not_owned np);
         ret (foreignDefaultDenyRequeue, None) }
       else if default_deny_drifted E ns np desired
         then write_default_deny E R ns desired ''update default-deny egress: ''
       else ret (0, None)))"

definition opted_in :: "namespace_obj \<Rightarrow> bool" where
  "opted_in ns = (label_of (m_labels (ns_meta ns)) EnforceEgressLabel = str_true)"

definition namespace_Reconcile ::
  "'e env_scheme \<Rightarrow> namespace_reconciler \<Rightarrow> string \<Rightarrow> outcome nsp" where
  "namespace_Reconcile E R n = do {
     r \<leftarrow> fetch NamespaceKind (get_namespace E) [] n;
     (case r of
        Inl e \<Rightarrow> ret (0, ignore_not_found e)
      | Inr ns \<Rightarrow>
         (if m_deletion (ns_meta ns) \<noteq> None then ret (0, None)
          else do {
            existing \<leftarrow> fetch NetPolKind (get_netpol E) (m_name (ns_meta ns)) DefaultDenyEgressName;
            (if \<not> opted_in ns then remove_default_deny E ns existing
             else (let d = BuildNamespaceDefaultDenyEgress (nr_dns R) (m_name (ns_meta ns)) in
               case set_controller E (ns_meta ns) (np_meta d) of
                 Inl e \<Rightarrow> ret (0, Some (Wrap ''set owner reference on default-deny egress: '' e))
               | Inr m \<Rightarrow> keep_default_deny E R ns existing (d\<lparr>np_meta := m\<rparr>))) })) }"

section \<open>The contract of an owned policy\<close>

definition stamp_namespace ::
  "'e klib_scheme \<Rightarrow> namespace_obj \<Rightarrow> network_policy \<Rightarrow> gerr + network_policy" where
  "stamp_namespace L ns p = (case set_controller L (ns_meta ns) (np_meta p) of
     Inl e \<Rightarrow> Inl e | Inr m \<Rightarrow> Inr (p\<lparr>np_meta := m\<rparr>))"

lemma namespace_policy_managed:
  assumes "lib_owners L"
  shows "managed_policy (defaultDenyOwnedByOperator L) (stamp_namespace L)"
proof
  fix ns p p'
  assume "stamp_namespace L ns p = Inr p'"
  then obtain m where m: "set_controller L (ns_meta ns) (np_meta p) = Inr m" "p' = p\<lparr>np_meta := m\<rparr>"
    by (auto simp: stamp_namespace_def split: sum.splits)
  show "defaultDenyOwnedByOperator L ns p'"
    using owner_refs.setref_controlled [OF assms m(1)] m(2) by (simp add: defaultDenyOwnedByOperator_def)
  have "m\<lparr>m_owners := m_owners (np_meta p)\<rparr> = np_meta p" by (rule owner_refs.setref_frame [OF assms m(1)])
  then show "np_spec p' = np_spec p \<and> m_name (np_meta p') = m_name (np_meta p)
      \<and> m_namespace (np_meta p') = m_namespace (np_meta p)
      \<and> m_labels (np_meta p') = m_labels (np_meta p) \<and> m_annotations (np_meta p') = m_annotations (np_meta p)"
    using m(2) by (cases m; cases "np_meta p") simp
qed

interpretation default_deny: managed_policy "defaultDenyOwnedByOperator std_lib" "stamp_namespace std_lib"
  by (rule namespace_policy_managed [OF std_lib_owners])


section \<open>Writes after reads\<close>

abbreviation default_deny_seen where
  "default_deny_seen E ns \<equiv> seen (get_netpol E) NetPolKind (m_name (ns_meta ns)) DefaultDenyEgressName"

text \<open>The rule for the writes of a reconcile of the namespace \<open>nm\<close>: the namespace was
  read, it is opted in for an apply and not for a delete, and the policy's name was
  read after that.\<close>
definition fence_rule :: "'e env_scheme \<Rightarrow> string \<Rightarrow> nat \<Rightarrow> history \<Rightarrow> effect \<Rightarrow> bool" where
  "fence_rule E nm n l e = (case e of
     Apply k \<Rightarrow> (\<exists>ns p. k = KNetPol p \<and> m_name (np_meta p) = DefaultDenyEgressName
       \<and> m_namespace (np_meta p) = m_name (ns_meta ns) \<and> opted_in ns \<and> m_deletion (ns_meta ns) = None
       \<and> seen (get_namespace E) NamespaceKind [] nm n ((=) (Inr ns)) l
       \<and> default_deny_seen E ns n
           (\<lambda>r. case r of Inl x \<Rightarrow> is_not_found x | Inr np \<Rightarrow> defaultDenyOwnedByOperator E ns np) l)
   | Delete k a b \<Rightarrow> (\<exists>ns np. k = NetPolKind \<and> \<not> opted_in ns \<and> defaultDenyOwnedByOperator E ns np
       \<and> seen (get_namespace E) NamespaceKind [] nm n ((=) (Inr ns)) l
       \<and> default_deny_seen E ns n ((=) (Inr np)) l
       \<and> a = m_namespace (np_meta np) \<and> b = m_name (np_meta np))
   | Create _ \<Rightarrow> False | Update _ \<Rightarrow> False
   | _ \<Rightarrow> True)"

lemma harmless_fence: "harmless e \<Longrightarrow> fence_rule E nm n l e"
  by (auto simp: harmless_def fence_rule_def split: effect.splits)

lemma fence_quiet:
  assumes "emits harmless m"
  shows "triple (fence_rule E nm n) P m (\<lambda>a t. True)"
  by (rule triple_weaken [OF triple_pre [OF assms]]) (simp_all add: harmless_fence)

lemma quiet_warning: "emits harmless (warnIfUnenforced E R ns)"
  unfolding warnIfUnenforced_def by (intro emits_intro) simp_all

text \<open>Both reads were made, with these answers.\<close>
abbreviation both_read where
  "both_read E nm n ns r t \<equiv> seen (get_namespace E) NamespaceKind [] nm n ((=) (Inr ns)) (st_log t)
     \<and> default_deny_seen E ns n ((=) r) (st_log t)"

lemma fence_write:
  assumes "m_name (np_meta p) = DefaultDenyEgressName" "m_namespace (np_meta p) = m_name (ns_meta ns)"
    and "opted_in ns" "m_deletion (ns_meta ns) = None"
    and "case r of Inl x \<Rightarrow> is_not_found x | Inr np \<Rightarrow> defaultDenyOwnedByOperator E ns np"
  shows "triple (fence_rule E nm n) (both_read E nm n ns r) (write_default_deny E R ns p w) (\<lambda>a t. True)"
  unfolding write_default_deny_def
proof (rule triple_bind)
  show "triple (fence_rule E nm n) (both_read E nm n ns r) (applyOwned E (KNetPol p)) (\<lambda>a t. True)"
    unfolding applyOwned_def
    by (intro triple_cases triple_return TrueI triple_pre [OF triple_perform])
      (use assms in \<open>auto simp: fence_rule_def applyUnstructured_def strip_meta_def elim!: seen_known\<close>)
qed (intro triple_cases triple_return TrueI triple_bind [OF fence_quiet [OF quiet_warning]])

lemma fence_remove:
  assumes "\<not> opted_in ns"
  shows "triple (fence_rule E nm n) (both_read E nm n ns r) (remove_default_deny E ns r) (\<lambda>a t. True)"
  unfolding remove_default_deny_def
  by (intro triple_cases triple_return TrueI triple_bind [where R = "\<lambda>a t. True"] triple_pre [OF triple_perform])
    (use assms in \<open>auto simp: fence_rule_def\<close>)

lemma fence_keep:
  assumes "m_name (np_meta p) = DefaultDenyEgressName" "m_namespace (np_meta p) = m_name (ns_meta ns)"
    and "opted_in ns" "m_deletion (ns_meta ns) = None"
  shows "triple (fence_rule E nm n) (both_read E nm n ns r) (keep_default_deny E R ns r p) (\<lambda>a t. True)"
  unfolding keep_default_deny_def
  by (intro triple_cases triple_return TrueI fence_write assms fence_quiet
      triple_bind [where R = "\<lambda>a t. True"] emits_intro) simp_all

lemma fence_reconcile:
  assumes "lib_owners E"
  shows "triple (fence_rule E nm n) (\<lambda>t. n \<le> length (st_log t)) (namespace_Reconcile E R nm) (\<lambda>a t. True)"
proof -
  have stamped: "m_name m = DefaultDenyEgressName \<and> m_namespace m = m_name (ns_meta ns)"
    if "set_controller E (ns_meta ns) (np_meta (BuildNamespaceDefaultDenyEgress (nr_dns R) (m_name (ns_meta ns)))) = Inr m"
    for ns m
    using owner_refs.setref_name [OF assms that] by (simp add: BuildNamespaceDefaultDenyEgress_def mk_meta_def)
  have second: "triple (fence_rule E nm n)
     (\<lambda>t. n \<le> length (st_log t) \<and> seen (get_namespace E) NamespaceKind [] nm n ((=) (Inr ns)) (st_log t))
     (fetch NetPolKind (get_netpol E) (m_name (ns_meta ns)) DefaultDenyEgressName) (both_read E nm n ns)" for ns
    by (rule triple_pre, rule wp) (simp add: harmless_fence seen_now seen_append)
  have first: "triple (fence_rule E nm n) (\<lambda>t. n \<le> length (st_log t))
     (fetch NamespaceKind (get_namespace E) [] nm)
     (\<lambda>r t. n \<le> length (st_log t) \<and> seen (get_namespace E) NamespaceKind [] nm n ((=) r) (st_log t))"
    by (rule triple_seen) (simp add: harmless_fence)
  show ?thesis unfolding namespace_Reconcile_def Let_def
    by (rule triple_bind [OF first], rule triple_sum;
      (intro triple_cases triple_return TrueI triple_bind [OF second] fence_remove fence_keep;
        simp add: stamped)+)
qed

section \<open>What a quiet end means\<close>

text \<open>The default-deny of this namespace, with this specification, was accepted by the API
  server in the run that began at history \<open>h\<close>.\<close>
definition written_ok :: "'e env_scheme \<Rightarrow> string \<Rightarrow> np_spec \<Rightarrow> history \<Rightarrow> history \<Rightarrow> bool" where
  "written_ok E ns sp h l = (\<exists>es p fs. l = h @ es @ Apply (KNetPol p) # fs
     \<and> m_namespace (np_meta p) = ns \<and> m_name (np_meta p) = DefaultDenyEgressName \<and> np_spec p = sp
     \<and> write_result E (h @ es) (Apply (KNetPol p)) = None)"

lemma write_default_deny_quiet:
  assumes "run_state (write_default_deny E R ns p w) t = ((0, None), t')" "st_log t = h @ es"
    and "m_name (np_meta p) = DefaultDenyEgressName"
  shows "written_ok E (m_namespace (np_meta p)) (np_spec p) h (st_log t')"
proof -
  let ?q = "p\<lparr>np_meta := strip_meta (np_meta p)\<rparr>"
  let ?t = "t\<lparr>st_log := st_log t @ [Apply (KNetPol ?q)]\<rparr>"
  have acc: "write_result E (st_log t) (Apply (KNetPol ?q)) = None"
    and run: "run_state (warnIfUnenforced E R ns) ?t = ((), t')"
    using assms(1) by (auto simp: write_default_deny_def applyOwned_def applyUnstructured_def run_bind
        split: option.splits prod.splits)
  have "emits harmless (warnIfUnenforced E R ns)" by (rule quiet_warning)
  from emitsD [OF this run] obtain fs where "st_log t' = st_log ?t @ fs" by blast
  then show ?thesis unfolding written_ok_def using acc assms(2,3)
    by (intro exI [of _ es] exI [of _ ?q] exI [of _ fs]) (simp add: strip_meta_def)
qed

lemma keep_default_deny_quiet:
  assumes "run_state (keep_default_deny E R ns r p) t = ((0, None), t')" "st_log t = h @ es"
    and "m_name (np_meta p) = DefaultDenyEgressName"
  shows "written_ok E (m_namespace (np_meta p)) (np_spec p) h (st_log t')
    \<or> (\<exists>np. r = Inr np \<and> defaultDenyOwnedByOperator E ns np \<and> np_spec np = np_spec p)"
  using assms
  by (auto simp: keep_default_deny_def run_bind foreignDefaultDenyRequeue_def seconds_def default_deny_drifted_def
      dest: write_default_deny_quiet split: sum.splits if_splits)

section \<open>Properties\<close>

text \<open>C19 A stranger's default-deny is safe: a reconcile applies only the policy of the
  default-deny's name in the namespace it read as opted in, and deletes only in one
  it read as opted out; either only after it read that name and found nothing there
  or a policy that is the operator's.\<close>
theorem default_deny_written_only_if_owned:
  assumes "lib_owners E" and "run_state (namespace_Reconcile E R nm) t = (r, t')"
    and "st_log t' = st_log t @ es" and "i < length es"
  shows "fence_rule E nm (length (st_log t)) (st_log t @ take i es) (es ! i)"
  by (rule tripleD(2) [OF fence_reconcile [OF assms(1)] _ assms(2-4)]) simp

text \<open>C20 An opted-in namespace that is not being deleted is fenced: a reconcile of it that
  reports no error and asks for no retry has had the default-deny, under its name, in that
  namespace and with its specification, accepted by the API server, or read it there with that
  specification in a policy that is the operator's.\<close>
theorem opted_in_is_fenced:
  assumes "lib_owners E" and "get_namespace E (st_log t) [] nm = Inr ns" and "m_deletion (ns_meta ns) = None"
    and "opted_in ns" and "run_state (namespace_Reconcile E R nm) t = ((0, None), t')"
  shows "written_ok E (m_name (ns_meta ns)) (np_spec (BuildNamespaceDefaultDenyEgress (nr_dns R) (m_name (ns_meta ns))))
      (st_log t) (st_log t')
    \<or> (\<exists>np. get_netpol E (st_log t @ [ReadObj NamespaceKind [] nm]) (m_name (ns_meta ns)) DefaultDenyEgressName = Inr np
        \<and> defaultDenyOwnedByOperator E ns np
        \<and> np_spec np = np_spec (BuildNamespaceDefaultDenyEgress (nr_dns R) (m_name (ns_meta ns))))"
proof -
  let ?d = "BuildNamespaceDefaultDenyEgress (nr_dns R) (m_name (ns_meta ns))"
  let ?r = "get_netpol E (st_log t @ [ReadObj NamespaceKind [] nm]) (m_name (ns_meta ns)) DefaultDenyEgressName"
  let ?t = "t\<lparr>st_log := st_log t @ [ReadObj NamespaceKind [] nm, ReadObj NetPolKind (m_name (ns_meta ns)) DefaultDenyEgressName]\<rparr>"
  obtain m where m: "set_controller E (ns_meta ns) (np_meta ?d) = Inr m"
    and run: "run_state (keep_default_deny E R ns ?r (?d\<lparr>np_meta := m\<rparr>)) ?t = ((0, None), t')"
    using assms(2-5) by (auto simp: namespace_Reconcile_def run_bind Let_def split: sum.splits)
  have "m_name m = DefaultDenyEgressName" "m_namespace m = m_name (ns_meta ns)"
    using owner_refs.setref_name [OF assms(1) m] by (simp_all add: BuildNamespaceDefaultDenyEgress_def mk_meta_def)
  then show ?thesis using keep_default_deny_quiet [OF run, of "st_log t"] by simp
qed

text \<open>A namespace that is not opted in and whose policy cannot be read is left as it
  is, and the reconcile reports success.\<close>
lemma unread_default_deny_stays:
  assumes "get_namespace E (st_log t) [] nm = Inr ns" "m_deletion (ns_meta ns) = None" "\<not> opted_in ns"
    and "get_netpol E (st_log t @ [ReadObj NamespaceKind [] nm]) (m_name (ns_meta ns)) DefaultDenyEgressName = Inl e"
  shows "run_state (namespace_Reconcile E R nm) t = ((0, None), t\<lparr>st_log := st_log t
     @ [ReadObj NamespaceKind [] nm, ReadObj NetPolKind (m_name (ns_meta ns)) DefaultDenyEgressName]\<rparr>)"
  using assms by (simp add: namespace_Reconcile_def run_bind remove_default_deny_def)

section \<open>A concrete run\<close>

definition fenced_ns :: namespace_obj where
  "fenced_ns = \<lparr>ns_meta = mk_meta ''n'' [] [(EnforceEgressLabel, str_true)] []\<rparr>"

definition fence_env :: env where
  "fence_env = std_env\<lparr>get_namespace := (\<lambda>l ns n. Inr fenced_ns)\<rparr>"

definition fence_reconciler :: namespace_reconciler where
  "fence_reconciler = \<lparr>nr_probe = None, nr_dns = \<lparr>dc_peers = [], dc_selectors = []\<rparr>\<rparr>"

definition fence_start :: "(namespace_obj, unit, kept) st" where
  "fence_start = \<lparr>st_obj = fenced_ns, st_base = None, st_kept = nothing_kept, st_log = []\<rparr>"

definition fence_run :: "outcome \<times> (namespace_obj, unit, kept) st" where
  "fence_run = run_state (namespace_Reconcile fence_env fence_reconciler ''n'') fence_start"

lemma fence_run_log: "fst fence_run = (0, None) \<and> 2 < length (st_log (snd fence_run))
    \<and> (case st_log (snd fence_run) ! 2 of Apply (KNetPol p) \<Rightarrow> True | _ \<Rightarrow> False)"
  by (simp add: fence_run_def fence_env_def namespace_Reconcile_def run_bind fence_start_def fenced_ns_def
      mk_meta_def empty_meta_def opted_in_def label_of_def BuildNamespaceDefaultDenyEgress_def std_set_controller_def
      keep_default_deny_def is_not_found_def write_default_deny_def applyOwned_def applyUnstructured_def
      warnIfUnenforced_def Signal_def fence_reconciler_def)

theorem default_deny_written_only_if_owned_witness:
  "fence_rule fence_env ''n'' 0 (take 2 (st_log (snd fence_run))) (st_log (snd fence_run) ! 2)"
  using default_deny_written_only_if_owned [of fence_env fence_reconciler "''n''" fence_start "fst fence_run"
      "snd fence_run" "st_log (snd fence_run)" 2] fence_run_log std_owners.owner_refs_axioms
  by (simp add: fence_run_def fence_start_def fence_env_def)

theorem opted_in_is_fenced_witness:
  "written_ok fence_env ''n'' (np_spec (BuildNamespaceDefaultDenyEgress \<lparr>dc_peers = [], dc_selectors = []\<rparr> ''n''))
     [] (st_log (snd fence_run))"
proof -
  have "run_state (namespace_Reconcile fence_env fence_reconciler ''n'') fence_start = ((0, None), snd fence_run)"
    using fence_run_log by (simp add: fence_run_def prod_eq_iff)
  moreover have "lib_owners fence_env" using std_owners.owner_refs_axioms by (simp add: fence_env_def)
  ultimately show ?thesis
    using opted_in_is_fenced [of fence_env fence_start "''n''" fenced_ns fence_reconciler "snd fence_run"]
    by (simp add: fence_env_def fence_start_def fenced_ns_def mk_meta_def empty_meta_def opted_in_def
        label_of_def fence_reconciler_def)
qed

end
