(* ===== verification/EgressCompile.thy ===== *)
theory EgressCompile
  imports HangarClient Webhooks Enforcement
begin

text \<open>
  The pure part of \<open>internal/controller/mcpegresspolicy_controller.go\<close>: how the rules
  of an MCPEgressPolicy are flattened into the one L7 policy core enforces per server,
  which servers a backstop selector names, and the notes that explain a backstop.  The
  compiled policy is related to its reference: per list, the entries of all upstreams in
  order with repeats dropped, and the smallest positive payload limit.
\<close>

section \<open>Lists without repeats\<close>

text \<open>\<open>appendUnique\<close> and \<open>appendUniqueHeaders\<close>.\<close>
definition appendUnique :: "string list \<Rightarrow> string list \<Rightarrow> string list" where
  "appendUnique dst values = foldl (\<lambda>d v. if v \<in> set d then d else d @ [v]) dst values"

definition appendUniqueHeaders :: "header_match list \<Rightarrow> header_match list \<Rightarrow> header_match list" where
  "appendUniqueHeaders dst values = foldl (\<lambda>d v. let candidate = \<lparr>hm_name = hm_name v, hm_values = hm_values v\<rparr> in
     if list_ex (\<lambda>x. hm_name x = hm_name candidate \<and> hm_values x = hm_values candidate) d
     then d else d @ [candidate]) dst values"

section \<open>The compiled policy\<close>

text \<open>What the loop over the upstreams accumulates.\<close>
record l7_acc =
  la_allow :: "string list"
  la_deny :: "string list"
  la_approval :: "string list"
  la_secrets :: "string list"
  la_max :: "int option"
  la_headers :: header_rules

definition no_headers :: header_rules where
  "no_headers = \<lparr>hr_allow = [], hr_deny = [], hr_approval = []\<rparr>"

definition l7_start :: l7_acc where
  "l7_start = \<lparr>la_allow = [], la_deny = [], la_approval = [], la_secrets = [], la_max = None,
     la_headers = no_headers\<rparr>"

definition add_tools :: "l7_acc \<Rightarrow> upstream_rule \<Rightarrow> l7_acc" where
  "add_tools a u = (case u_tools u of
     None \<Rightarrow> a
   | Some t \<Rightarrow> a\<lparr>la_allow := appendUnique (la_allow a) (tl_allow t),
       la_deny := appendUnique (la_deny a) (tl_deny t),
       la_approval := appendUnique (la_approval a) (tl_approval t)\<rparr>)"

definition add_headers :: "l7_acc \<Rightarrow> upstream_rule \<Rightarrow> l7_acc" where
  "add_headers a u = (case u_headers u of
     None \<Rightarrow> a
   | Some h \<Rightarrow> a\<lparr>la_headers := \<lparr>
       hr_allow = appendUniqueHeaders (hr_allow (la_headers a)) (hr_allow h),
       hr_deny = appendUniqueHeaders (hr_deny (la_headers a)) (hr_deny h),
       hr_approval = appendUniqueHeaders (hr_approval (la_headers a)) (hr_approval h)\<rparr>\<rparr>)"

definition add_arguments :: "l7_acc \<Rightarrow> upstream_rule \<Rightarrow> l7_acc" where
  "add_arguments a u = (case u_arg_deny u of
     Some (Some d) \<Rightarrow> (let b = ad_max_bytes d in
       a\<lparr>la_secrets := appendUnique (la_secrets a) (ad_secrets d),
         la_max := (if b > 0 \<and> (case la_max a of None \<Rightarrow> True | Some n \<Rightarrow> b < n) then Some b else la_max a)\<rparr>)
   | _ \<Rightarrow> a)"

definition compile_upstream :: "l7_acc \<Rightarrow> upstream_rule \<Rightarrow> l7_acc" where
  "compile_upstream a u = add_arguments (add_headers (add_tools a u) u) u"

definition action_name :: "policy_action \<Rightarrow> string" where
  "action_name a = (case a of ActionUnset \<Rightarrow> [] | Deny \<Rightarrow> ''Deny'' | Allow \<Rightarrow> ''Allow'')"
definition mode_name :: "policy_mode \<Rightarrow> string" where
  "mode_name m = (case m of PModeUnset \<Rightarrow> [] | Audit \<Rightarrow> ''Audit'' | Enforce \<Rightarrow> ''Enforce'')"

definition compileL7Policy :: "egress_policy \<Rightarrow> l7_payload" where
  "compileL7Policy p =
     (let a = foldl compile_upstream l7_start (ps_upstreams (p_spec p)); h = la_headers a in
      \<lparr>l7_tools = \<lparr>tl_allow = la_allow a, tl_deny = la_deny a, tl_approval = la_approval a\<rparr>,
       l7_secrets = la_secrets a, l7_max_bytes = la_max a,
       l7_headers = (if hr_allow h \<noteq> [] \<or> hr_deny h \<noteq> [] \<or> hr_approval h \<noteq> [] then Some h else None),
       l7_default = (if action_name (ps_default (p_spec p)) = [] then ''Deny''
                     else action_name (ps_default (p_spec p))),
       l7_mode = (if mode_name (ps_mode (p_spec p)) = [] then ''Audit'' else mode_name (ps_mode (p_spec p)))\<rparr>)"

section \<open>The servers a selector names\<close>

definition provider_requirement :: "label_req \<Rightarrow> bool" where
  "provider_requirement e = (lr_key e = LabelProvider \<and> lr_op e = ''In'')"

definition providerNamesFromSelector :: "label_selector \<Rightarrow> string list" where
  "providerNamesFromSelector sel = (case map_of (ls_labels sel) LabelProvider of
     Some v \<Rightarrow> [v]
   | None \<Rightarrow> (case List.find provider_requirement (ls_exprs sel) of
       Some e \<Rightarrow> lr_values e | None \<Rightarrow> []))"

text \<open>The two selectors \<open>resolveTargetSelector\<close> builds.\<close>
definition server_selector :: "string \<Rightarrow> label_selector" where
  "server_selector n = \<lparr>ls_labels = [(LabelProvider, n)], ls_exprs = []\<rparr>"
definition members_selector :: "string list \<Rightarrow> label_selector" where
  "members_selector ns = \<lparr>ls_labels = [],
     ls_exprs = [\<lparr>lr_key = LabelProvider, lr_op = ''In'', lr_values = ns\<rparr>]\<rparr>"

section \<open>Notes\<close>

definition fqdnLookupsUnobserved :: "dns_config \<Rightarrow> signal \<Rightarrow> string" where
  "fqdnLookupsUnobserved cfg sg =
     (if sg_dns_host sg \<noteq> [] then
        ''NodeLocal DNSCache '' @ sg_dns_host sg @ '' runs on the host network, so Cilium's DNS proxy never sees ''
        @ ''the lookups; run the cache as a pod behind a CiliumLocalRedirectPolicy''
      else (case sg_dns_pod sg of
        None \<Rightarrow> []
      | Some c \<Rightarrow>
         (if SelectedByExtraDNSSelectors cfg c then []
          else ''NodeLocal DNSCache '' @ nl_namespace c @ ''/'' @ nl_name c
            @ '' answers redirected lookups, and the DNS rule does not ''
            @ ''select its pods, so Cilium's DNS proxy does not inspect them; start the operator with ''
            @ ''--dns-egress-selectors='' @ (case map_of (nl_labels c) ''k8s-app'' of
                 Some v \<Rightarrow> nl_namespace c @ ''/k8s-app='' @ v
               | None \<Rightarrow> nl_namespace c @ ''/<label>=<value>''))))"

definition ciliumNotRunningNote :: "bool \<Rightarrow> signal \<Rightarrow> string" where
  "ciliumNotRunningNote crd sg =
     (if \<not> crd \<or> sg_cilium sg then []
      else ''; the CiliumNetworkPolicy CRD is served but no cilium agent was observed ('' @ sg_source sg
        @ ''), so the Cilium flavor was not used'')"

definition ciliumCIDRCaveat :: "egress_policy \<Rightarrow> bool \<Rightarrow> string" where
  "ciliumCIDRCaveat p running =
     (let internal = filter LooksClusterInternal (map (um_host \<circ> u_match) (ps_upstreams (p_spec p))) in
      if \<not> running \<or> internal = [] then []
      else ''. NOTE for '' @ join '', '' internal @ '': '' @ CiliumCIDRMatchNote)"

section \<open>The reference\<close>

definition tools_of :: "(tool_rules \<Rightarrow> string list) \<Rightarrow> upstream_rule \<Rightarrow> string list" where
  "tools_of f u = (case u_tools u of None \<Rightarrow> [] | Some t \<Rightarrow> f t)"
definition headers_of :: "(header_rules \<Rightarrow> header_match list) \<Rightarrow> upstream_rule \<Rightarrow> header_match list" where
  "headers_of f u = (case u_headers u of None \<Rightarrow> [] | Some h \<Rightarrow> f h)"
definition denied_of :: "upstream_rule \<Rightarrow> argument_deny list" where
  "denied_of u = (case u_arg_deny u of Some (Some d) \<Rightarrow> [d] | _ \<Rightarrow> [])"

text \<open>The entries of all upstreams, in order, each once.\<close>
definition union_of :: "(upstream_rule \<Rightarrow> 'a list) \<Rightarrow> egress_policy \<Rightarrow> 'a list" where
  "union_of f p = dedup [] (concat (map f (ps_upstreams (p_spec p))))"

definition payload_limits :: "upstream_rule list \<Rightarrow> int list" where
  "payload_limits us = filter (\<lambda>b. b > 0) (map ad_max_bytes (concat (map denied_of us)))"

section \<open>Facts\<close>

text \<open>The loops of \<open>appendUnique\<close> are the reference \<open>dedup\<close>, started with what is there.\<close>

lemma dedup_seen: "set s = set s' \<Longrightarrow> dedup s xs = dedup s' xs"
proof (induction xs arbitrary: s s')
  case (Cons x xs)
  have "dedup (x # s) xs = dedup (x # s') xs" by (rule Cons.IH) (simp add: Cons.prems)
  then show ?case using Cons.IH [OF Cons.prems] Cons.prems by simp
qed simp

lemma dedup_append: "dedup s (xs @ ys) = dedup s xs @ dedup (s @ xs) ys"
proof (induction xs arbitrary: s)
  case (Cons x xs)
  have "dedup (s @ x # xs) ys = dedup (x # s @ xs) ys" "x \<in> set s \<Longrightarrow> dedup (x # s @ xs) ys = dedup (s @ xs) ys"
    by (rule dedup_seen; auto)+
  then show ?case using Cons [of s] Cons [of "x # s"] by simp
qed simp

lemma fold_unique: "foldl (\<lambda>d v. if v \<in> set d then d else d @ [v]) dst vs = dst @ dedup dst vs"
proof (induction vs arbitrary: dst)
  case (Cons v vs)
  have "dedup (dst @ [v]) vs = dedup (v # dst) vs" by (rule dedup_seen) simp
  then show ?case using Cons by simp
qed simp

lemma appendUnique_eq: "appendUnique dst vs = dst @ dedup dst vs"
  by (simp add: appendUnique_def fold_unique)

lemma appendUniqueHeaders_eq: "appendUniqueHeaders dst vs = dst @ dedup dst vs"
proof -
  have eq: "hm_name x = hm_name v \<and> hm_values x = hm_values v \<longleftrightarrow> x = v" for x v :: header_match
    by (cases x; cases v) auto
  have eta: "\<lparr>hm_name = hm_name v, hm_values = hm_values v\<rparr> = v" for v by (cases v) simp
  have "list_ex (\<lambda>x. x = v) d \<longleftrightarrow> v \<in> set d" for d and v :: header_match
    by (auto simp: list_ex_iff)
  then show ?thesis unfolding appendUniqueHeaders_def Let_def eta eq by (simp add: fold_unique)
qed

text \<open>A step that appends what \<open>f\<close> gives to the field \<open>g\<close>, over a list.\<close>
lemma fold_dedup:
  assumes "\<And>a u. g (step a u) = g a @ dedup (g a) (f u)"
  shows "g (foldl step a us) = g a @ dedup (g a) (concat (map f us))"
proof (induction us arbitrary: a)
  case (Cons u us)
  have "dedup (g a @ dedup (g a) (f u)) xs = dedup (g a @ f u) xs" for xs
    by (rule dedup_seen) (auto simp: set_dedup)
  then show ?case using Cons assms by (simp add: dedup_append)
qed simp

lemma compile_step:
  "la_allow (compile_upstream a u) = la_allow a @ dedup (la_allow a) (tools_of tl_allow u)"
  "la_deny (compile_upstream a u) = la_deny a @ dedup (la_deny a) (tools_of tl_deny u)"
  "la_approval (compile_upstream a u) = la_approval a @ dedup (la_approval a) (tools_of tl_approval u)"
  "la_secrets (compile_upstream a u)
     = la_secrets a @ dedup (la_secrets a) (concat (map ad_secrets (denied_of u)))"
  "hr_allow (la_headers (compile_upstream a u))
     = hr_allow (la_headers a) @ dedup (hr_allow (la_headers a)) (headers_of hr_allow u)"
  "hr_deny (la_headers (compile_upstream a u))
     = hr_deny (la_headers a) @ dedup (hr_deny (la_headers a)) (headers_of hr_deny u)"
  "hr_approval (la_headers (compile_upstream a u))
     = hr_approval (la_headers a) @ dedup (hr_approval (la_headers a)) (headers_of hr_approval u)"
  by (simp_all add: compile_upstream_def add_tools_def add_headers_def add_arguments_def tools_of_def
      headers_of_def denied_of_def appendUnique_eq appendUniqueHeaders_eq Let_def split: option.split)

lemmas compile_lists =
  fold_dedup [where g = "la_allow" and f = "tools_of tl_allow" and step = compile_upstream, OF compile_step(1)]
  fold_dedup [where g = "la_deny" and f = "tools_of tl_deny" and step = compile_upstream, OF compile_step(2)]
  fold_dedup [where g = "la_approval" and f = "tools_of tl_approval" and step = compile_upstream, OF compile_step(3)]
  fold_dedup [where g = "la_secrets" and f = "\<lambda>u. concat (map ad_secrets (denied_of u))" and step = compile_upstream, OF compile_step(4)]
  fold_dedup [where g = "\<lambda>a. hr_allow (la_headers a)" and f = "headers_of hr_allow" and step = compile_upstream, OF compile_step(5)]
  fold_dedup [where g = "\<lambda>a. hr_deny (la_headers a)" and f = "headers_of hr_deny" and step = compile_upstream, OF compile_step(6)]
  fold_dedup [where g = "\<lambda>a. hr_approval (la_headers a)" and f = "headers_of hr_approval" and step = compile_upstream, OF compile_step(7)]

text \<open>The smaller of a limit so far and the positive ones that follow.\<close>
definition least_limit :: "int option \<Rightarrow> int list \<Rightarrow> int option" where
  "least_limit m bs = foldl (\<lambda>m b. if case m of None \<Rightarrow> True | Some n \<Rightarrow> b < n then Some b else m) m bs"

lemma least_limit_Some: "least_limit (Some n) bs = Some (Min (set (n # bs)))"
proof (induction bs arbitrary: n)
  case (Cons b bs)
  have "Min (insert n (insert b (set bs))) = Min (insert (min n b) (set bs))"
    by (cases "bs = []") (simp_all add: min.assoc)
  then show ?case using Cons [of b] Cons [of n] by (simp add: least_limit_def min_def)
qed (simp add: least_limit_def)

lemma least_limit_None: "least_limit None bs = (if bs = [] then None else Some (Min (set bs)))"
  using least_limit_Some by (cases bs) (auto simp: least_limit_def)

lemma compile_limit: "la_max (foldl compile_upstream a us) = least_limit (la_max a) (payload_limits us)"
proof (induction us arbitrary: a)
  case Nil
  show ?case by (simp add: payload_limits_def least_limit_def)
next
  case (Cons u us)
  have "la_max (compile_upstream a u) = least_limit (la_max a) (payload_limits [u])"
    by (simp add: compile_upstream_def add_tools_def add_headers_def add_arguments_def payload_limits_def
        denied_of_def least_limit_def Let_def split: option.split)
  then show ?case using Cons
    by (simp add: payload_limits_def least_limit_def)
qed

lemma names_of_selectors [simp]:
  "providerNamesFromSelector (server_selector n) = [n]"
  "providerNamesFromSelector (members_selector ns) = ns"
  by (simp_all add: providerNamesFromSelector_def server_selector_def members_selector_def provider_requirement_def)

section \<open>Properties\<close>

text \<open>C10 The compiled L7 policy is the union of the upstreams' rules: each list holds
  the entries of all upstreams, in order and once; the payload limit is the smallest
  positive one; headers are left out exactly when no upstream has a header rule; an
  unset default action is Deny and an unset mode is Audit.\<close>
theorem compiled_policy_is_union:
  "tl_allow (l7_tools (compileL7Policy p)) = union_of (tools_of tl_allow) p
   \<and> tl_deny (l7_tools (compileL7Policy p)) = union_of (tools_of tl_deny) p
   \<and> tl_approval (l7_tools (compileL7Policy p)) = union_of (tools_of tl_approval) p
   \<and> l7_secrets (compileL7Policy p) = union_of (\<lambda>u. concat (map ad_secrets (denied_of u))) p
   \<and> l7_max_bytes (compileL7Policy p) = (let ls = payload_limits (ps_upstreams (p_spec p)) in
        if ls = [] then None else Some (Min (set ls)))
   \<and> (let h = \<lparr>hr_allow = union_of (headers_of hr_allow) p, hr_deny = union_of (headers_of hr_deny) p,
          hr_approval = union_of (headers_of hr_approval) p\<rparr> in
        l7_headers (compileL7Policy p) = (if h = no_headers then None else Some h))
   \<and> l7_default (compileL7Policy p) = (case ps_default (p_spec p) of Allow \<Rightarrow> ''Allow'' | _ \<Rightarrow> ''Deny'')
   \<and> l7_mode (compileL7Policy p) = (case ps_mode (p_spec p) of Enforce \<Rightarrow> ''Enforce'' | _ \<Rightarrow> ''Audit'')"
proof -
  let ?a = "foldl compile_upstream l7_start (ps_upstreams (p_spec p))"
  have h: "la_headers ?a = \<lparr>hr_allow = union_of (headers_of hr_allow) p, hr_deny = union_of (headers_of hr_deny) p,
      hr_approval = union_of (headers_of hr_approval) p\<rparr>"
    by (cases "la_headers ?a") (use compile_lists(5-7) [where a = l7_start and us = "ps_upstreams (p_spec p)"] in
      \<open>simp add: l7_start_def no_headers_def union_of_def\<close>)
  have l: "la_max ?a = (let ls = payload_limits (ps_upstreams (p_spec p)) in
      if ls = [] then None else Some (Min (set ls)))"
    by (simp add: compile_limit l7_start_def least_limit_None Let_def)
  have none: "hr_allow h \<noteq> [] \<or> hr_deny h \<noteq> [] \<or> hr_approval h \<noteq> [] \<longleftrightarrow> h \<noteq> no_headers" for h
    by (cases h) (auto simp: no_headers_def)
  have names: "(if action_name d = [] then ''Deny'' else action_name d) = (case d of Allow \<Rightarrow> ''Allow'' | _ \<Rightarrow> ''Deny'')"
    "(if mode_name m = [] then ''Audit'' else mode_name m) = (case m of Enforce \<Rightarrow> ''Enforce'' | _ \<Rightarrow> ''Audit'')"
    for d m by (simp_all add: action_name_def mode_name_def split: policy_action.split policy_mode.split)
  show ?thesis unfolding compileL7Policy_def Let_def none names h l [unfolded Let_def]
    by (simp add: compile_lists(1-4) l7_start_def union_of_def)
qed

end
