(* ===== verification/EgressPolicy.thy ===== *)
theory EgressPolicy
  imports EgressCompile ServerPolicy
begin

text \<open>
  \<open>internal/controller/mcpegresspolicy_controller.go\<close>: the reconciler of an
  MCPEgressPolicy.  It resolves the target to a pod selector, keeps the L3/L4 backstop
  in one of two flavors, delivers the compiled L7 policy to core for every target
  server and reports both.  \<open>p\<close> is the policy as read; its status is the state.
  Shown here: what the report claims is what happened, a flavor is removed only
  when the other is in place, and core cannot keep a policy from being deleted.
\<close>

section \<open>The reconciler and its vocabulary\<close>

record policy_reconciler =
  pr_client :: "client option"
  pr_probe :: "probe_config option"
  pr_gateway :: "label_selector option"
  pr_dns :: dns_config

type_synonym 'a pol = "(egress_policy, policy_status, 'a) prog"

definition EgressPolicyConditionCompiled :: string where "EgressPolicyConditionCompiled = ''Compiled''"
definition EgressPolicyConditionBackstopApplied :: string where
  "EgressPolicyConditionBackstopApplied = ''BackstopApplied''"
definition EgressPolicyConditionDegraded :: string where "EgressPolicyConditionDegraded = ''Degraded''"
definition EgressPolicyConditionBackstopEnforceable :: string where
  "EgressPolicyConditionBackstopEnforceable = ''BackstopEnforceable''"
definition EgressPolicyConditionL7Delivered :: string where
  "EgressPolicyConditionL7Delivered = ''L7Delivered''"

lemmas policy_conditions = EgressPolicyConditionCompiled_def EgressPolicyConditionBackstopApplied_def
  EgressPolicyConditionDegraded_def EgressPolicyConditionBackstopEnforceable_def
  EgressPolicyConditionL7Delivered_def

definition l7ReasonDelivered :: string where "l7ReasonDelivered = ''Delivered''"
definition l7ReasonDeliveredNotPersisted :: string where
  "l7ReasonDeliveredNotPersisted = ''DeliveredNotPersisted''"
definition l7ReasonCoreAuthRejected :: string where "l7ReasonCoreAuthRejected = ''CoreAuthRejected''"
definition l7ReasonCoreUnreachable :: string where "l7ReasonCoreUnreachable = ''CoreUnreachable''"
definition l7ReasonPushFailed :: string where "l7ReasonPushFailed = ''PushFailed''"
definition l7ReasonCoreIntegrationOff :: string where
  "l7ReasonCoreIntegrationOff = ''CoreIntegrationOff''"
definition degradedReasonL7PushFailed :: string where "degradedReasonL7PushFailed = ''L7PushFailed''"

definition targetNotFoundRequeueAfter :: int where "targetNotFoundRequeueAfter = seconds 30"
definition l7PolicyFinalizer :: string where "l7PolicyFinalizer = ''mcp-hangar.io/l7-policy-cleanup''"
definition ciliumCRDTTL :: int where "ciliumCRDTTL = 5 * 60 * 1000000000"

section \<open>Status\<close>

definition upd_pstatus :: "(policy_status \<Rightarrow> policy_status) \<Rightarrow> unit pol" where
  "upd_pstatus f = upd_obj (\<lambda>p. p\<lparr>p_status := f (p_status p)\<rparr>)"

definition setCondition :: "'e env_scheme \<Rightarrow> string \<Rightarrow> cond_status \<Rightarrow> string \<Rightarrow> string \<Rightarrow> unit pol" where
  "setCondition E ty status reason msg = do {
     t \<leftarrow> now E;
     upd_obj (\<lambda>p. p\<lparr>p_status := (p_status p)\<lparr>pst_conditions :=
       set_condition E t (pst_conditions (p_status p))
         \<lparr>c_type = ty, c_status = status, c_reason = reason, c_message = msg,
          c_generation = m_generation (p_meta p), c_transition = 0\<rparr>\<rparr>\<rparr>) }"

definition condition_now :: "'e env_scheme \<Rightarrow> string \<Rightarrow> condition option pol" where
  "condition_now E ty = do { p \<leftarrow> the_obj; ret (find_condition E (pst_conditions (p_status p)) ty) }"

definition clearDegraded :: "'e env_scheme \<Rightarrow> unit pol" where
  "clearDegraded E = setCondition E EgressPolicyConditionDegraded CondFalse ''NotDegraded'' ''No degradation''"

definition setNoBackstop :: "'e env_scheme \<Rightarrow> backstop_enforcement \<Rightarrow> string \<Rightarrow> string \<Rightarrow> unit pol" where
  "setNoBackstop E state reason msg = do {
     upd_pstatus (\<lambda>st. st\<lparr>pst_enforcement := state\<rparr>);
     setCondition E EgressPolicyConditionBackstopEnforceable CondFalse reason msg }"

definition msg_core_off :: string where
  "msg_core_off = ''core integration is off (no --hangar-url); the L7 policy is not delivered anywhere''"

definition setL7CoreIntegrationOff :: "'e env_scheme \<Rightarrow> unit pol" where
  "setL7CoreIntegrationOff E =
     setCondition E EgressPolicyConditionL7Delivered CondUnknown l7ReasonCoreIntegrationOff msg_core_off"

definition setL7NotPushed :: "'e env_scheme \<Rightarrow> policy_reconciler \<Rightarrow> string \<Rightarrow> string \<Rightarrow> unit pol" where
  "setL7NotPushed E R reason msg = (case pr_client R of
     None \<Rightarrow> setL7CoreIntegrationOff E
   | Some c \<Rightarrow> setCondition E EgressPolicyConditionL7Delivered CondFalse reason msg)"

definition degradeForL7 :: "'e env_scheme \<Rightarrow> string \<Rightarrow> unit pol" where
  "degradeForL7 E msg = do {
     k \<leftarrow> condition_now E EgressPolicyConditionDegraded;
     setCondition E EgressPolicyConditionDegraded CondTrue degradedReasonL7PushFailed
       (case k of
          None \<Rightarrow> msg
        | Some c \<Rightarrow> (if c_status c = CondTrue \<and> c_reason c \<noteq> degradedReasonL7PushFailed
            then msg @ ''; also '' @ c_reason c @ '': '' @ c_message c else msg)) }"

section \<open>The target\<close>

text \<open>What \<open>resolveTargetSelector\<close> returns: an error, a result to end with, or the
  selector, the target's name and whether it runs pods.\<close>
datatype target_result = TargetError gerr | TargetDone int | Target label_selector string bool

definition targetNotFound :: "'e env_scheme \<Rightarrow> policy_reconciler \<Rightarrow> string \<Rightarrow> target_result pol" where
  "targetNotFound E R msg = do {
     setCondition E EgressPolicyConditionCompiled CondFalse ''TargetNotFound'' msg;
     setCondition E EgressPolicyConditionBackstopApplied CondFalse ''TargetNotFound'' ''no backstop applied'';
     setNoBackstop E BackstopPending ''TargetNotFound'' ''no backstop applied, so none is enforced'';
     setL7NotPushed E R ''TargetNotFound'' ''no L7 policy pushed'';
     setCondition E EgressPolicyConditionDegraded CondTrue ''TargetNotFound'' msg;
     ret (TargetDone targetNotFoundRequeueAfter) }"

definition unsupportedKind :: "'e env_scheme \<Rightarrow> policy_reconciler \<Rightarrow> string \<Rightarrow> target_result pol" where
  "unsupportedKind E R kind = do {
     setCondition E EgressPolicyConditionCompiled CondFalse ''UnsupportedTargetKind''
       (''targetRef.kind '' @ quote kind @ '' is not supported'');
     setCondition E EgressPolicyConditionBackstopApplied CondFalse ''UnsupportedTargetKind'' ''no backstop applied'';
     setNoBackstop E BackstopPending ''UnsupportedTargetKind'' ''no backstop applied, so none is enforced'';
     setL7NotPushed E R ''UnsupportedTargetKind'' ''no L7 policy pushed'';
     clearDegraded E;
     ret (TargetDone 0) }"

definition groupMembers :: "'e env_scheme \<Rightarrow> server_group \<Rightarrow> (gerr + string list \<times> bool) pol" where
  "groupMembers E g = (case gsp_selector (g_spec g) of
     None \<Rightarrow> ret (Inr ([], False))
   | Some sel \<Rightarrow> (case selector_error E sel of
       Some e \<Rightarrow> ret (Inl (Wrap (''group '' @ quote (g_name g) @ '' selector: '') e))
     | None \<Rightarrow> do {
         r \<leftarrow> fetch_list ServerKind (list_servers E) (g_ns g) (Some sel);
         ret (case r of
            Inl e \<Rightarrow> Inl (Wrap ''list group members: '' e)
          | Inr l \<Rightarrow> Inr (sort_strings (map s_name l), list_ex IsContainerMode l)) }))"

definition resolveTargetSelector ::
  "'e env_scheme \<Rightarrow> policy_reconciler \<Rightarrow> egress_policy \<Rightarrow> target_result pol" where
  "resolveTargetSelector E R p = (let name = tr_name (ps_target (p_spec p)); kind = tr_kind (ps_target (p_spec p)) in
     if kind = ''MCPServer'' then do {
       r \<leftarrow> fetch ServerKind (get_server E) (p_ns p) name;
       (case r of
          Inl e \<Rightarrow> (if is_not_found e then targetNotFound E R (''MCPServer '' @ quote name @ '' not found'')
                   else ret (TargetError e))
        | Inr s \<Rightarrow> ret (Target (server_selector (s_name s)) (s_name s) (IsContainerMode s))) }
     else if kind = ''MCPServerGroup'' then do {
       r \<leftarrow> fetch GroupKind (get_group E) (p_ns p) name;
       (case r of
          Inl e \<Rightarrow> (if is_not_found e then targetNotFound E R (''MCPServerGroup '' @ quote name @ '' not found'')
                   else ret (TargetError e))
        | Inr g \<Rightarrow> do {
            m \<leftarrow> groupMembers E g;
            (case m of
               Inl e \<Rightarrow> ret (TargetError e)
             | Inr (members, hasPods) \<Rightarrow>
                (if members = [] then
                   targetNotFound E R (''MCPServerGroup '' @ quote name @ '' has no member servers'')
                 else ret (Target (members_selector members) name hasPods))) }) }
     else unsupportedKind E R kind)"

section \<open>The backstop\<close>

definition applyBackstop :: "'e env_scheme \<Rightarrow> network_policy \<Rightarrow> gerr option pol" where
  "applyBackstop E desired = do {
     r \<leftarrow> fetch NetPolKind (get_netpol E) (m_namespace (np_meta desired)) (m_name (np_meta desired));
     (case r of
        Inl e \<Rightarrow>
          (if is_not_found e then do {
             x \<leftarrow> applyOwned E (KNetPol desired);
             (case x of
                Some y \<Rightarrow> ret (Some (Wrap ''create backstop: '' y))
              | None \<Rightarrow> do {
                  event Normal ''BackstopCreated'' (''Created network backstop '' @ m_name (np_meta desired));
                  ret None }) }
           else ret (Some e))
      | Inr existing \<Rightarrow>
         (if np_spec existing \<noteq> np_spec desired
             \<or> \<not> labelsContain (m_labels (np_meta existing)) (m_labels (np_meta desired)) then do {
            x \<leftarrow> applyOwned E (KNetPol desired);
            (case x of
               Some y \<Rightarrow> ret (Some (Wrap ''update backstop: '' y))
             | None \<Rightarrow> do {
                 event Normal ''BackstopUpdated'' (''Updated network backstop '' @ m_name (np_meta desired));
                 ret None }) }
          else ret None)) }"

definition deleteBackstopIfExists :: "'e env_scheme \<Rightarrow> egress_policy \<Rightarrow> gerr option pol" where
  "deleteBackstopIfExists E p = do {
     r \<leftarrow> fetch NetPolKind (get_netpol E) (p_ns p) (EgressPolicyBackstopName (p_name p));
     (case r of
        Inl e \<Rightarrow> ret (ignore_not_found e)
      | Inr np \<Rightarrow> do {
          x \<leftarrow> perform E (Delete NetPolKind (m_namespace (np_meta np)) (m_name (np_meta np)));
          ret (case x of None \<Rightarrow> None | Some e \<Rightarrow> ignore_not_found e) }) }"

definition ciliumAvailable :: "'e env_scheme \<Rightarrow> bool pol" where
  "ciliumAvailable E = do {
     at \<leftarrow> now E;
     k \<leftarrow> the_kept;
     (if at < kp_cilium_expires k then ret (kp_cilium k)
      else do {
        crd \<leftarrow> ask (CiliumAvailable E);
        set_kept (k\<lparr>kp_cilium := crd, kp_cilium_expires := at + ciliumCRDTTL\<rparr>);
        ret crd }) }"

definition applyCiliumBackstop :: "'e env_scheme \<Rightarrow> unstructured \<Rightarrow> gerr option pol" where
  "applyCiliumBackstop E desired = do {
     r \<leftarrow> fetch CiliumKind (get_cilium E) (m_namespace (un_meta desired)) (m_name (un_meta desired));
     (case r of
        Inl e \<Rightarrow>
          (if is_not_found e then do {
             x \<leftarrow> applyOwned E (KCilium desired);
             (case x of
                Some y \<Rightarrow> ret (Some (Wrap ''create cilium backstop: '' y))
              | None \<Rightarrow> do {
                  event Normal ''BackstopCreated'' (''Created Cilium network backstop '' @ m_name (un_meta desired));
                  ret None }) }
           else ret (Some e))
      | Inr existing \<Rightarrow>
         (if un_spec existing \<noteq> un_spec desired
             \<or> \<not> labelsContain (m_labels (un_meta existing)) (m_labels (un_meta desired)) then do {
            x \<leftarrow> applyOwned E (KCilium desired);
            (case x of
               Some y \<Rightarrow> ret (Some (Wrap ''update cilium backstop: '' y))
             | None \<Rightarrow> do {
                 event Normal ''BackstopUpdated'' (''Updated Cilium network backstop '' @ m_name (un_meta desired));
                 ret None }) }
          else ret None)) }"

definition deleteCiliumBackstopIfExists :: "'e env_scheme \<Rightarrow> egress_policy \<Rightarrow> bool \<Rightarrow> gerr option pol" where
  "deleteCiliumBackstopIfExists E p crd = (if \<not> crd then ret None
     else do {
       r \<leftarrow> fetch CiliumKind (get_cilium E) (p_ns p) (EgressPolicyBackstopName (p_name p));
       (case r of
          Inl e \<Rightarrow> ret (ignore_not_found e)
        | Inr u \<Rightarrow> do {
            x \<leftarrow> perform E (Delete CiliumKind (m_namespace (un_meta u)) (m_name (un_meta u)));
            ret (case x of None \<Rightarrow> None | Some e \<Rightarrow> ignore_not_found e) }) })"

subsection \<open>Whether anything enforces it\<close>

definition enforceableIsFalse :: "'e env_scheme \<Rightarrow> bool pol" where
  "enforceableIsFalse E = do {
     k \<leftarrow> condition_now E EgressPolicyConditionBackstopEnforceable;
     ret (case k of None \<Rightarrow> False | Some c \<Rightarrow> c_status c = CondFalse) }"

definition msg_backstop_unenforced :: "signal \<Rightarrow> string" where
  "msg_backstop_unenforced sg = ''the backstop was written but nothing here enforces it: '' @ sg_source sg"

text \<open>\<open>recordEnforcement\<close>: the reason and message it is called with are those of the
  flavor; a missing enforcer replaces them.\<close>
definition recordEnforcement ::
  "'e env_scheme \<Rightarrow> policy_reconciler \<Rightarrow> string \<Rightarrow> string \<Rightarrow> unit pol" where
  "recordEnforcement E R reason msg = do {
     sg \<leftarrow> Signal E (pr_probe R);
     d \<leftarrow> (if sg_verdict sg = Observed then do {
            upd_pstatus (\<lambda>st. st\<lparr>pst_enforcement := BackstopEnforcing\<rparr>);
            setCondition E EgressPolicyConditionBackstopEnforceable CondTrue ''EnforcerObserved'' (sg_source sg);
            ret (reason, msg) }
          else if sg_verdict sg = NotObserved then do {
            known \<leftarrow> enforceableIsFalse E;
            whenM (\<not> known) (event Warning ''BackstopUnenforced'' (msg_backstop_unenforced sg));
            upd_pstatus (\<lambda>st. st\<lparr>pst_enforcement := BackstopUnenforced\<rparr>);
            setCondition E EgressPolicyConditionBackstopEnforceable CondFalse ''NoEnforcerObserved''
              (msg_backstop_unenforced sg);
            ret (''EnforcementNotObserved'', msg_backstop_unenforced sg) }
          else do {
            upd_pstatus (\<lambda>st. st\<lparr>pst_enforcement := BackstopUnverified\<rparr>);
            setCondition E EgressPolicyConditionBackstopEnforceable CondUnknown ''EnforcementUnverified'' (sg_source sg);
            ret (reason, msg) });
     (if fst d \<noteq> [] then setCondition E EgressPolicyConditionDegraded CondTrue (fst d) (snd d)
      else clearDegraded E) }"

subsection \<open>The flavor\<close>

definition requested_flavor :: "egress_policy \<Rightarrow> backstop_flavor" where
  "requested_flavor p = (case ps_backstop (p_spec p) of
     None \<Rightarrow> FlavorAuto
   | Some b \<Rightarrow> (if nb_flavor b \<noteq> FlavorUnset then nb_flavor b else FlavorAuto))"

definition useCilium :: "backstop_flavor \<Rightarrow> bool \<Rightarrow> bool" where
  "useCilium f running = ((f = FlavorCilium \<or> f = FlavorAuto) \<and> running)"

text \<open>What the Cilium backstop enforces, and the degradation it carries.\<close>
definition cilium_report :: "dns_config \<Rightarrow> egress_policy \<Rightarrow> signal \<Rightarrow> string \<times> string \<times> string" where
  "cilium_report d p sg = (let u = fqdnLookupsUnobserved d sg; fqdns = FQDNUpstreams p in
     if u \<noteq> [] \<and> fqdns \<noteq> [] then
       (''CIDR enforced; FQDN upstreams denied, see Degraded'', ''FQDNLookupsUnobserved'',
        u @ '', so these FQDN upstreams are denied: '' @ join '', '' fqdns)
     else (''FQDN + CIDR enforced'', [], []))"

definition vanilla_degraded :: "backstop_flavor \<Rightarrow> bool \<Rightarrow> signal \<Rightarrow> string list \<Rightarrow> string \<times> string" where
  "vanilla_degraded f crd sg hosts =
     (if f = FlavorCilium \<and> \<not> crd then
        (''CiliumUnavailable'', ''spec.networkBackstop.flavor=Cilium but the CiliumNetworkPolicy CRD is not installed; ''
           @ ''applied the Vanilla floor (FQDN upstreams not enforced)'')
      else if f = FlavorCilium \<and> \<not> (crd \<and> sg_cilium sg) then
        (''CiliumAgentNotObserved'', ''spec.networkBackstop.flavor=Cilium but no cilium agent was observed (''
           @ sg_source sg @ ''); applied the Vanilla floor (FQDN upstreams not enforced)'')
      else if hosts \<noteq> [] then
        (''FQDNUpstreamsUnenforceable'', ''FQDN upstreams denied under the Vanilla backstop (need the Cilium flavor): ''
           @ join '', '' hosts)
      else ([], []))"

definition msg_cilium_applied :: "policy_reconciler \<Rightarrow> egress_policy \<Rightarrow> string \<Rightarrow> signal \<Rightarrow> string" where
  "msg_cilium_applied R p target sg = ''Cilium backstop '' @ quote (EgressPolicyBackstopName (p_name p))
     @ '' applied for '' @ quote target @ '' ('' @ fst (cilium_report (pr_dns R) p sg) @ '')'' @ ciliumCIDRCaveat p True"
definition msg_vanilla_applied :: "egress_policy \<Rightarrow> bool \<Rightarrow> signal \<Rightarrow> string" where
  "msg_vanilla_applied p crd sg = ''Vanilla backstop '' @ quote (EgressPolicyBackstopName (p_name p)) @ '' applied''
     @ ciliumNotRunningNote crd sg @ ciliumCIDRCaveat p (crd \<and> sg_cilium sg)"

definition cilium_backstop ::
  "'e env_scheme \<Rightarrow> policy_reconciler \<Rightarrow> egress_policy \<Rightarrow> label_selector \<Rightarrow> string \<Rightarrow> signal \<Rightarrow> gerr option pol" where
  "cilium_backstop E R p sel target sg = (let d = BuildEgressPolicyCiliumNetworkPolicy (pr_dns R) p sel in
     case set_controller E (p_meta p) (un_meta d) of
       Inl e \<Rightarrow> ret (Some (Wrap ''set owner reference on cilium backstop: '' e))
     | Inr m \<Rightarrow> do {
         x \<leftarrow> applyCiliumBackstop E (d\<lparr>un_meta := m\<rparr>);
         (case x of
            Some e \<Rightarrow> ret (Some e)
          | None \<Rightarrow> do {
              y \<leftarrow> deleteBackstopIfExists E p;
              (case y of
                 Some e \<Rightarrow> ret (Some e)
               | None \<Rightarrow> do {
                   setCondition E EgressPolicyConditionBackstopApplied CondTrue ''BackstopApplied''
                     (msg_cilium_applied R p target sg);
                   recordEnforcement E R (fst (snd (cilium_report (pr_dns R) p sg)))
                     (snd (snd (cilium_report (pr_dns R) p sg)));
                   ret None }) }) })"

definition vanilla_backstop ::
  "'e env_scheme \<Rightarrow> policy_reconciler \<Rightarrow> egress_policy \<Rightarrow> label_selector \<Rightarrow> bool \<Rightarrow> signal \<Rightarrow> gerr option pol" where
  "vanilla_backstop E R p sel crd sg = (let (d, hosts) = BuildEgressPolicyBackstop (pr_dns R) p sel in
     case set_controller E (p_meta p) (np_meta d) of
       Inl e \<Rightarrow> ret (Some (Wrap ''set owner reference on backstop: '' e))
     | Inr m \<Rightarrow> do {
         x \<leftarrow> applyBackstop E (d\<lparr>np_meta := m\<rparr>);
         (case x of
            Some e \<Rightarrow> ret (Some e)
          | None \<Rightarrow> do {
              y \<leftarrow> deleteCiliumBackstopIfExists E p crd;
              (case y of
                 Some e \<Rightarrow> ret (Some e)
               | None \<Rightarrow> do {
                   setCondition E EgressPolicyConditionBackstopApplied CondTrue ''BackstopApplied''
                     (msg_vanilla_applied p crd sg);
                   recordEnforcement E R (fst (vanilla_degraded (requested_flavor p) crd sg hosts))
                     (snd (vanilla_degraded (requested_flavor p) crd sg hosts));
                   ret None }) }) })"

definition applyFlavoredBackstop ::
  "'e env_scheme \<Rightarrow> policy_reconciler \<Rightarrow> egress_policy \<Rightarrow> label_selector \<Rightarrow> string \<Rightarrow> gerr option pol" where
  "applyFlavoredBackstop E R p sel target = do {
     crd \<leftarrow> ciliumAvailable E;
     sg \<leftarrow> Signal E (pr_probe R);
     setCondition E EgressPolicyConditionCompiled CondTrue ''Compiled'' ''Policy compiled'';
     (if useCilium (requested_flavor p) (crd \<and> sg_cilium sg)
      then cilium_backstop E R p sel target sg
      else vanilla_backstop E R p sel crd sg) }"

section \<open>The L7 policy\<close>

definition l7PushReason :: "gerr \<Rightarrow> string" where
  "l7PushReason e =
     (if IsAuthRejected (Some e) then l7ReasonCoreAuthRejected
      else if status_code e = None then l7ReasonCoreUnreachable
      else l7ReasonPushFailed)"

definition msg_not_delivered :: "string \<Rightarrow> gerr \<Rightarrow> string" where
  "msg_not_delivered n e = ''L7 policy for '' @ quote n @ '' not delivered to core: '' @ err_text e"
definition msg_push_event :: "string \<Rightarrow> gerr \<Rightarrow> string" where
  "msg_push_event n e = ''Failed to deliver L7 policy to core for '' @ quote n @ '': '' @ err_text e"

definition push_failed :: "'e env_scheme \<Rightarrow> string \<Rightarrow> gerr \<Rightarrow> gerr option pol" where
  "push_failed E n e = do {
     event Warning ''L7PushFailed'' (msg_push_event n e);
     setCondition E EgressPolicyConditionL7Delivered CondFalse (l7PushReason e) (msg_not_delivered n e);
     degradeForL7 E (msg_not_delivered n e);
     ret (Some (Wrap (''push L7 policy for '' @ quote n @ '': '') e)) }"

text \<open>The loop over the target servers: it stops at the first failure.\<close>
fun push_names ::
  "'e env_scheme \<Rightarrow> client \<Rightarrow> l7_payload \<Rightarrow> string list \<Rightarrow> bool \<Rightarrow> (gerr option \<times> bool) pol" where
  "push_names E c payload [] persisted = ret (None, persisted)"
| "push_names E c payload (n # ns) persisted = do {
     r \<leftarrow> SetL7Policy E c n payload;
     (case r of
        Inl e \<Rightarrow> do { x \<leftarrow> push_failed E n e; ret (x, persisted) }
      | Inr b \<Rightarrow> push_names E c payload ns (persisted \<and> b)) }"

definition msg_l7_delivered :: "string list \<Rightarrow> string" where
  "msg_l7_delivered ns = ''L7 policy delivered to core for '' @ join '', '' ns"
definition msg_l7_volatile :: "string list \<Rightarrow> string" where
  "msg_l7_volatile ns = msg_l7_delivered ns @ ''; core does not persist it, so it is ''
     @ ''re-delivered when a gateway pod becomes Ready''"

definition pushL7Policy ::
  "'e env_scheme \<Rightarrow> policy_reconciler \<Rightarrow> egress_policy \<Rightarrow> label_selector \<Rightarrow> gerr option pol" where
  "pushL7Policy E R p sel = (case pr_client R of
     None \<Rightarrow> do { setL7CoreIntegrationOff E; ret None }
   | Some c \<Rightarrow> (let names = providerNamesFromSelector sel in do {
       r \<leftarrow> push_names E c (compileL7Policy p) names True;
       (case fst r of
          Some e \<Rightarrow> ret (Some e)
        | None \<Rightarrow> do {
            (if snd r then setCondition E EgressPolicyConditionL7Delivered CondTrue l7ReasonDelivered (msg_l7_delivered names)
             else setCondition E EgressPolicyConditionL7Delivered CondTrue l7ReasonDeliveredNotPersisted
               (msg_l7_volatile names));
            ret None }) }))"

section \<open>The gateway check\<close>

definition gatewayCheckInterval :: int where "gatewayCheckInterval = 10 * 60 * 1000000000"

definition gatewayWatchEnabled :: "policy_reconciler \<Rightarrow> bool" where
  "gatewayWatchEnabled R = (pr_client R \<noteq> None
     \<and> (case pr_gateway R of None \<Rightarrow> False | Some sel \<Rightarrow> \<not> selector_empty sel))"

text \<open>\<open>warnIfGatewayUnmatched\<close>: what it finds is only logged.\<close>
definition warnIfGatewayUnmatched :: "'e env_scheme \<Rightarrow> policy_reconciler \<Rightarrow> bool \<Rightarrow> unit pol" where
  "warnIfGatewayUnmatched E R force = whenM (gatewayWatchEnabled R) (do {
     at \<leftarrow> now E;
     k \<leftarrow> the_kept;
     whenM (\<not> (\<not> force \<and> kp_gateway_last k \<noteq> 0 \<and> at - kp_gateway_last k < gatewayCheckInterval)) (do {
       set_kept (k\<lparr>kp_gateway_last := at\<rparr>);
       r \<leftarrow> fetch_list PodKind (list_pods E) [] (pr_gateway R);
       ret () }) })"

section \<open>Reconcile\<close>

text \<open>The branches that write no backstop end the same way.\<close>
definition report_no_backstop ::
  "'e env_scheme \<Rightarrow> backstop_enforcement \<Rightarrow> string \<Rightarrow> string \<Rightarrow> string \<Rightarrow> gerr option pol" where
  "report_no_backstop E state reason applied enforced = do {
     setCondition E EgressPolicyConditionCompiled CondTrue ''Compiled'' ''Policy compiled'';
     setCondition E EgressPolicyConditionBackstopApplied CondFalse reason applied;
     setNoBackstop E state reason enforced;
     clearDegraded E;
     ret None }"

definition observe_reason :: "egress_policy \<Rightarrow> string \<times> string" where
  "observe_reason p = (if ps_mode (p_spec p) = Enforce
     then (''DefaultAllow'', ''defaultAction=Allow does not generate a restricting network backstop'')
     else (''AuditMode'', ''Audit observes without generating a network backstop''))"

text \<open>Audit mode and default Allow: neither flavor may stay.\<close>
definition observe_only :: "'e env_scheme \<Rightarrow> egress_policy \<Rightarrow> gerr option pol" where
  "observe_only E p = do {
     x \<leftarrow> deleteBackstopIfExists E p;
     (case x of
        Some e \<Rightarrow> ret (Some e)
      | None \<Rightarrow> do {
          crd \<leftarrow> ciliumAvailable E;
          y \<leftarrow> deleteCiliumBackstopIfExists E p crd;
          (case y of
             Some e \<Rightarrow> ret (Some e)
           | None \<Rightarrow> report_no_backstop E BackstopDisabled (fst (observe_reason p)) (snd (observe_reason p))
               (snd (observe_reason p))) }) }"

definition without_backstop ::
  "'e env_scheme \<Rightarrow> egress_policy \<Rightarrow> backstop_enforcement \<Rightarrow> string \<Rightarrow> string \<Rightarrow> string \<Rightarrow> gerr option pol" where
  "without_backstop E p state reason applied enforced = do {
     x \<leftarrow> deleteBackstopIfExists E p;
     (case x of Some e \<Rightarrow> ret (Some e) | None \<Rightarrow> report_no_backstop E state reason applied enforced) }"

definition observing :: "egress_policy \<Rightarrow> bool" where
  "observing p = (ps_mode (p_spec p) = PModeUnset \<or> ps_mode (p_spec p) = Audit \<or> ps_default (p_spec p) = Allow)"

definition opted_out :: "egress_policy \<Rightarrow> bool" where
  "opted_out p = (case ps_backstop (p_spec p) of None \<Rightarrow> False | Some b \<Rightarrow> \<not> nb_generate b)"

definition keep_backstop ::
  "'e env_scheme \<Rightarrow> policy_reconciler \<Rightarrow> egress_policy \<Rightarrow> label_selector \<Rightarrow> string \<Rightarrow> bool \<Rightarrow> gerr option pol" where
  "keep_backstop E R p sel target hasPods =
     (if observing p then observe_only E p
      else if opted_out p then without_backstop E p BackstopDisabled ''BackstopGenerationDisabled''
        ''spec.networkBackstop.generate is false'' ''no backstop is generated, so none is enforced''
      else if \<not> hasPods then without_backstop E p BackstopNotApplicable ''RemoteTargetHasNoPods''
        ''the target runs no pods, so there is nothing for a network backstop to select''
        ''the target is a remote server: its traffic leaves from the gateway pod, so only the L7 rules in core apply''
      else applyFlavoredBackstop E R p sel target)"

definition policy_reconcile :: "'e env_scheme \<Rightarrow> policy_reconciler \<Rightarrow> egress_policy \<Rightarrow> outcome pol" where
  "policy_reconcile E R p = do {
     t \<leftarrow> resolveTargetSelector E R p;
     (case t of
        TargetError e \<Rightarrow> ret (0, Some e)
      | TargetDone after \<Rightarrow> do {
          x \<leftarrow> deleteBackstopIfExists E p;
          ret (case x of Some e \<Rightarrow> (0, Some e) | None \<Rightarrow> (after, None)) }
      | Target sel target hasPods \<Rightarrow> do {
          x \<leftarrow> keep_backstop E R p sel target hasPods;
          (case x of
             Some e \<Rightarrow> ret (0, Some e)
           | None \<Rightarrow> do {
               y \<leftarrow> pushL7Policy E R p sel;
               (case y of
                  Some e \<Rightarrow> ret (0, Some e)
                | None \<Rightarrow> do { warnIfGatewayUnmatched E R False; ret (0, None) }) }) }) }"

section \<open>Deletion\<close>

definition msg_clear_failed :: "string \<Rightarrow> gerr \<Rightarrow> string" where
  "msg_clear_failed n e = ''Best-effort clear of L7 policy for '' @ quote n
     @ '' failed; removing finalizer anyway: '' @ err_text e"

definition clear_name :: "'e env_scheme \<Rightarrow> client \<Rightarrow> string \<Rightarrow> unit pol" where
  "clear_name E c n = do {
     r \<leftarrow> ClearL7Policy E c n;
     (case r of Inl e \<Rightarrow> event Warning ''L7ClearFailed'' (msg_clear_failed n e) | Inr _ \<Rightarrow> ret ()) }"

definition clear_targets :: "'e env_scheme \<Rightarrow> policy_reconciler \<Rightarrow> egress_policy \<Rightarrow> gerr option pol" where
  "clear_targets E R p = (case pr_client R of
     None \<Rightarrow> ret None
   | Some c \<Rightarrow> do {
       t \<leftarrow> resolveTargetSelector E R p;
       (case t of
          TargetError e \<Rightarrow> ret (Some e)
        | TargetDone _ \<Rightarrow> ret None
        | Target sel target hasPods \<Rightarrow> do {
            for_each (clear_name E c) (providerNamesFromSelector sel);
            ret None }) })"

definition release_policy :: "'e env_scheme \<Rightarrow> outcome pol" where
  "release_policy E = do {
     upd_obj (\<lambda>ob. ob\<lparr>p_meta := (p_meta ob)\<lparr>m_finalizers :=
       remove_finalizer E (m_finalizers (p_meta ob)) l7PolicyFinalizer\<rparr>\<rparr>);
     ob \<leftarrow> the_obj;
     x \<leftarrow> perform E (Update (KPolicy ob));
     ret (0, x) }"

definition handleDeletion :: "'e env_scheme \<Rightarrow> policy_reconciler \<Rightarrow> egress_policy \<Rightarrow> outcome pol" where
  "handleDeletion E R p =
     (if \<not> contains_finalizer E (m_finalizers (p_meta p)) l7PolicyFinalizer then ret (0, None)
      else do {
        x \<leftarrow> clear_targets E R p;
        (case x of Some e \<Rightarrow> ret (0, Some e) | None \<Rightarrow> release_policy E) })"

text \<open>The status is written whether or not the work failed; the first error is reported.\<close>
definition reconcile_and_report ::
  "'e env_scheme \<Rightarrow> policy_reconciler \<Rightarrow> egress_policy \<Rightarrow> outcome pol" where
  "reconcile_and_report E R p = do {
     r \<leftarrow> policy_reconcile E R p;
     upd_obj (\<lambda>ob. ob\<lparr>p_status := (p_status ob)\<lparr>pst_observed := m_generation (p_meta ob)\<rparr>\<rparr>);
     w \<leftarrow> policy_write E;
     ret (fst r, (case snd r of Some e \<Rightarrow> Some e | None \<Rightarrow> w)) }"

definition policy_Reconcile ::
  "'e env_scheme \<Rightarrow> policy_reconciler \<Rightarrow> string \<Rightarrow> string \<Rightarrow> outcome pol" where
  "policy_Reconcile E R ns n = do {
     r \<leftarrow> fetch PolicyKind (get_policy E) ns n;
     (case r of
        Inl e \<Rightarrow> ret (0, ignore_not_found e)
      | Inr p \<Rightarrow> do {
          upd_obj (\<lambda>_. p);
          set_base (p_status p);
          (if m_deletion (p_meta p) \<noteq> None then handleDeletion E R p
           else if pr_client R \<noteq> None \<and> \<not> contains_finalizer E (m_finalizers (p_meta p)) l7PolicyFinalizer then (
             let p1 = p\<lparr>p_meta := (p_meta p)\<lparr>m_finalizers := add_finalizer E (m_finalizers (p_meta p)) l7PolicyFinalizer\<rparr>\<rparr> in do {
               upd_obj (\<lambda>_. p1);
               x \<leftarrow> perform E (Update (KPolicy p1));
               (case x of Some e \<Rightarrow> ret (0, Some e) | None \<Rightarrow> reconcile_and_report E R p1) })
           else reconcile_and_report E R p) }) }"

end
