(* ===== verification/EgressReport.thy ===== *)
theory EgressReport
  imports EgressPolicy
begin

text \<open>
  What a reconcile of an MCPEgressPolicy does and claims: a flavor of the backstop is
  removed only when the other is in place, Enforcing is reported only of a backstop in
  place under an observed enforcer, L7Delivered only of a policy core accepted for every
  target server, and core cannot keep a policy from being deleted.
\<close>

section \<open>Facts\<close>

subsection \<open>Status and effects of the steps\<close>

lemma run_setCondition [simp]:
  "run_state (setCondition E ty status reason msg) t =
     ((), t\<lparr>st_obj := (st_obj t)\<lparr>p_status := (p_status (st_obj t))\<lparr>pst_conditions :=
       set_condition E (clock E (st_log t)) (pst_conditions (p_status (st_obj t)))
         \<lparr>c_type = ty, c_status = status, c_reason = reason, c_message = msg,
          c_generation = m_generation (p_meta (st_obj t)), c_transition = 0\<rparr>\<rparr>\<rparr>\<rparr>)"
  by (simp add: setCondition_def run_bind)

lemma run_upd_pstatus [simp]:
  "run_state (upd_pstatus f) t = ((), t\<lparr>st_obj := (st_obj t)\<lparr>p_status := f (p_status (st_obj t))\<rparr>\<rparr>)"
  by (simp add: upd_pstatus_def)

lemma run_condition_now [simp]:
  "run_state (condition_now E ty) t = (find_condition E (pst_conditions (p_status (st_obj t))) ty, t)"
  by (simp add: condition_now_def run_bind)

lemma emits_status [emits_intro]:
  "emits A (setCondition E ty status reason msg)" "emits A (upd_pstatus f)" "emits A (condition_now E ty)"
  "emits A (clearDegraded E)" "emits A (setNoBackstop E state reason msg)" "emits A (setL7CoreIntegrationOff E)"
  "emits A (setL7NotPushed E R reason msg)" "emits A (degradeForL7 E msg)" "emits A (enforceableIsFalse E)"
  "emits A (report_no_backstop E state reason applied enforced)" "emits A (targetNotFound E R msg)"
  "emits A (unsupportedKind E R kind)" "emits A (ciliumAvailable E)"
  unfolding setCondition_def upd_pstatus_def condition_now_def clearDegraded_def setNoBackstop_def
    setL7CoreIntegrationOff_def setL7NotPushed_def degradeForL7_def enforceableIsFalse_def
    report_no_backstop_def targetNotFound_def unsupportedKind_def ciliumAvailable_def
  by (intro emits_intro)+

lemma emits_record [emits_intro]:
  "A (ListObjs DaemonSetKind [] None) \<Longrightarrow> (\<And>r m. A (Event Warning r m)) \<Longrightarrow> emits A (recordEnforcement E R reason msg)"
  unfolding recordEnforcement_def by (intro emits_intro)

lemma emits_gateway [emits_intro]: "(\<And>sel. A (ListObjs PodKind [] sel)) \<Longrightarrow> emits A (warnIfGatewayUnmatched E R force)"
  unfolding warnIfGatewayUnmatched_def by (intro emits_intro)

subsection \<open>A backstop in place\<close>

text \<open>A policy of this name with this specification was accepted, or read, since
  position \<open>n\<close>; and the same for the CiliumNetworkPolicy.\<close>
definition vanilla_in_place :: "'e env_scheme \<Rightarrow> string \<Rightarrow> string \<Rightarrow> np_spec \<Rightarrow> nat \<Rightarrow> history \<Rightarrow> bool" where
  "vanilla_in_place E ns nm sp n l \<longleftrightarrow>
     accepted E (\<lambda>e. \<exists>q. e = Apply (KNetPol q) \<and> m_namespace (np_meta q) = ns \<and> m_name (np_meta q) = nm
        \<and> np_spec q = sp) n l
   \<or> seen (get_netpol E) NetPolKind ns nm n (\<lambda>r. case r of Inl _ \<Rightarrow> False | Inr q \<Rightarrow> np_spec q = sp) l"

definition cilium_in_place :: "'e env_scheme \<Rightarrow> string \<Rightarrow> string \<Rightarrow> json \<Rightarrow> nat \<Rightarrow> history \<Rightarrow> bool" where
  "cilium_in_place E ns nm sp n l \<longleftrightarrow>
     accepted E (\<lambda>e. \<exists>q. e = Apply (KCilium q) \<and> m_namespace (un_meta q) = ns \<and> m_name (un_meta q) = nm
        \<and> un_spec q = sp) n l
   \<or> seen (get_cilium E) CiliumKind ns nm n (\<lambda>r. case r of Inl _ \<Rightarrow> False | Inr q \<Rightarrow> un_spec q = sp) l"

text \<open>There is none: it was read as absent, or the one read was deleted.\<close>
definition vanilla_removed :: "'e env_scheme \<Rightarrow> string \<Rightarrow> string \<Rightarrow> nat \<Rightarrow> history \<Rightarrow> bool" where
  "vanilla_removed E ns nm n l \<longleftrightarrow>
     seen (get_netpol E) NetPolKind ns nm n (\<lambda>r. case r of Inl x \<Rightarrow> is_not_found x | Inr _ \<Rightarrow> False) l
   \<or> (\<exists>np. seen (get_netpol E) NetPolKind ns nm n ((=) (Inr np)) l
        \<and> gone E (Delete NetPolKind (m_namespace (np_meta np)) (m_name (np_meta np))) n l)"

definition cilium_removed :: "'e env_scheme \<Rightarrow> string \<Rightarrow> string \<Rightarrow> nat \<Rightarrow> history \<Rightarrow> bool" where
  "cilium_removed E ns nm n l \<longleftrightarrow>
     seen (get_cilium E) CiliumKind ns nm n (\<lambda>r. case r of Inl x \<Rightarrow> is_not_found x | Inr _ \<Rightarrow> False) l
   \<or> (\<exists>u. seen (get_cilium E) CiliumKind ns nm n ((=) (Inr u)) l
        \<and> gone E (Delete CiliumKind (m_namespace (un_meta u)) (m_name (un_meta u))) n l)"

lemma place_append:
  "vanilla_in_place E ns nm sp n l \<Longrightarrow> vanilla_in_place E ns nm sp n (l @ l')"
  "cilium_in_place E ns nm j n l \<Longrightarrow> cilium_in_place E ns nm j n (l @ l')"
  "vanilla_removed E ns nm n l \<Longrightarrow> vanilla_removed E ns nm n (l @ l')"
  "cilium_removed E ns nm n l \<Longrightarrow> cilium_removed E ns nm n (l @ l')"
  unfolding vanilla_in_place_def cilium_in_place_def vanilla_removed_def cilium_removed_def
  by (auto intro: accepted_append seen_append gone_append)

text \<open>The NetworkPolicy, or CiliumNetworkPolicy, with this namespace and name is the one a
  read of the policy's own name returned since position \<open>n\<close>.\<close>
definition own_vanilla :: "'e env_scheme \<Rightarrow> egress_policy \<Rightarrow> string \<Rightarrow> string \<Rightarrow> nat \<Rightarrow> history \<Rightarrow> bool" where
  "own_vanilla E p ns nm n l \<longleftrightarrow> (\<exists>q. m_namespace (np_meta q) = ns \<and> m_name (np_meta q) = nm
     \<and> seen (get_netpol E) NetPolKind (p_ns p) (EgressPolicyBackstopName (p_name p)) n ((=) (Inr q)) l)"

definition own_cilium :: "'e env_scheme \<Rightarrow> egress_policy \<Rightarrow> string \<Rightarrow> string \<Rightarrow> nat \<Rightarrow> history \<Rightarrow> bool" where
  "own_cilium E p ns nm n l \<longleftrightarrow> (\<exists>u. m_namespace (un_meta u) = ns \<and> m_name (un_meta u) = nm
     \<and> seen (get_cilium E) CiliumKind (p_ns p) (EgressPolicyBackstopName (p_name p)) n ((=) (Inr u)) l)"

text \<open>A step that reads, records or applies this object but never deletes, and one that
  never applies, and deletes only an object of this kind that it may.\<close>
definition only_apply :: "kobj \<Rightarrow> effect \<Rightarrow> bool" where
  "only_apply k e = (case e of Apply k' \<Rightarrow> k' = k | Delete _ _ _ \<Rightarrow> False | Create _ \<Rightarrow> False | Update _ \<Rightarrow> False
     | _ \<Rightarrow> True)"
definition only_delete :: "kind \<Rightarrow> (string \<Rightarrow> string \<Rightarrow> bool) \<Rightarrow> effect \<Rightarrow> bool" where
  "only_delete kd ok e = (case e of Delete kd' a b \<Rightarrow> kd' = kd \<and> ok a b | Apply _ \<Rightarrow> False | Create _ \<Rightarrow> False | Update _ \<Rightarrow> False
     | _ \<Rightarrow> True)"

lemma only_simps [simp]:
  "only_apply k (Apply k)" "only_apply k (ReadObj kd a b)" "only_apply k (Event ty r m)" "only_apply k (ListObjs kd a sel)"
  "only_delete kd ok (Delete kd a b) = ok a b" "only_delete kd ok (ReadObj kd' a b)" "only_delete kd ok (Event ty r m)"
  "only_delete kd ok (ListObjs kd' a sel)"
  by (simp_all add: only_apply_def only_delete_def)

text \<open>One write, and the event that follows it.\<close>
lemma apply_places:
  assumes "\<And>l. n \<le> length l \<Longrightarrow> write_result E l (Apply (applyUnstructured k)) = None \<Longrightarrow>
      I (l @ [Apply (applyUnstructured k)])" and keep: "\<And>l l'. I l \<Longrightarrow> I (l @ l')"
  shows "triple (\<lambda>l e. only_apply (applyUnstructured k) e) (\<lambda>t. n \<le> length (st_log t))
     (do { x \<leftarrow> applyOwned E k;
           (case x of Some y \<Rightarrow> ret (Some (Wrap w y)) | None \<Rightarrow> do { event ty rs m; ret None }) })
     (\<lambda>r t. n \<le> length (st_log t) \<and> (r = None \<longrightarrow> I (st_log t)))"
proof (rule triple_bind)
  show "triple (\<lambda>l e. only_apply (applyUnstructured k) e) (\<lambda>t. n \<le> length (st_log t)) (applyOwned E k)
     (\<lambda>r t. n \<le> length (st_log t) \<and> (r = None \<longrightarrow> I (st_log t)))"
    unfolding applyOwned_def
    by (intro triple_option triple_return triple_pre [OF triple_perform]) (simp_all add: assms(1))
  show "triple (\<lambda>l e. only_apply (applyUnstructured k) e) (\<lambda>t. n \<le> length (st_log t) \<and> (x = None \<longrightarrow> I (st_log t)))
     (case x of Some y \<Rightarrow> ret (Some (Wrap w y)) | None \<Rightarrow> do { event ty rs m; ret None })
     (\<lambda>r t. n \<le> length (st_log t) \<and> (r = None \<longrightarrow> I (st_log t)))" for x
    by (cases x) (auto intro!: triple_pre [OF triple_ret]
        triple_pre [OF triple_bind [OF triple_event triple_ret]] intro: keep)
qed

lemma apply_vanilla:
  "triple (\<lambda>l e. only_apply (applyUnstructured (KNetPol d)) e) (\<lambda>t. n \<le> length (st_log t)) (applyBackstop E d)
     (\<lambda>r t. n \<le> length (st_log t) \<and> (r = None \<longrightarrow>
        vanilla_in_place E (m_namespace (np_meta d)) (m_name (np_meta d)) (np_spec d) n (st_log t)))"
proof -
  let ?I = "vanilla_in_place E (m_namespace (np_meta d)) (m_name (np_meta d)) (np_spec d) n"
  have put: "triple (\<lambda>l e. only_apply (applyUnstructured (KNetPol d)) e) (\<lambda>t. n \<le> length (st_log t) \<and> P t)
     (do { x \<leftarrow> applyOwned E (KNetPol d);
           (case x of Some y \<Rightarrow> ret (Some (Wrap w y)) | None \<Rightarrow> do { event ty rs m; ret None }) })
     (\<lambda>r t. n \<le> length (st_log t) \<and> (r = None \<longrightarrow> ?I (st_log t)))" for P w ty rs m
    by (rule triple_pre [OF apply_places [where I = ?I]])
      (auto simp: vanilla_in_place_def applyUnstructured_def strip_meta_def intro: accepted_now accepted_append seen_append)
  show ?thesis unfolding applyBackstop_def
    by (rule triple_bind, rule triple_seen, simp, intro triple_cases put triple_return)
      (auto simp: vanilla_in_place_def intro: seen_known)
qed

lemma apply_cilium:
  "triple (\<lambda>l e. only_apply (applyUnstructured (KCilium d)) e) (\<lambda>t. n \<le> length (st_log t)) (applyCiliumBackstop E d)
     (\<lambda>r t. n \<le> length (st_log t) \<and> (r = None \<longrightarrow>
        cilium_in_place E (m_namespace (un_meta d)) (m_name (un_meta d)) (un_spec d) n (st_log t)))"
proof -
  let ?I = "cilium_in_place E (m_namespace (un_meta d)) (m_name (un_meta d)) (un_spec d) n"
  have put: "triple (\<lambda>l e. only_apply (applyUnstructured (KCilium d)) e) (\<lambda>t. n \<le> length (st_log t) \<and> P t)
     (do { x \<leftarrow> applyOwned E (KCilium d);
           (case x of Some y \<Rightarrow> ret (Some (Wrap w y)) | None \<Rightarrow> do { event ty rs m; ret None }) })
     (\<lambda>r t. n \<le> length (st_log t) \<and> (r = None \<longrightarrow> ?I (st_log t)))" for P w ty rs m
    by (rule triple_pre [OF apply_places [where I = ?I]])
      (auto simp: cilium_in_place_def applyUnstructured_def strip_meta_def intro: accepted_now accepted_append seen_append)
  show ?thesis unfolding applyCiliumBackstop_def
    by (rule triple_bind, rule triple_seen, simp, intro triple_cases put triple_return)
      (auto simp: cilium_in_place_def intro: seen_known)
qed

lemma delete_vanilla:
  "triple (\<lambda>l e. only_delete NetPolKind (\<lambda>a b. own_vanilla E p a b n l) e) (\<lambda>t. n \<le> length (st_log t)) (deleteBackstopIfExists E p)
     (\<lambda>r t. n \<le> length (st_log t) \<and> (r = None \<longrightarrow>
        vanilla_removed E (p_ns p) (EgressPolicyBackstopName (p_name p)) n (st_log t)))"
  unfolding deleteBackstopIfExists_def
  by (rule triple_bind, rule triple_seen, simp,
      intro triple_cases triple_return triple_pre [OF triple_bind [OF triple_perform triple_ret]])
    (auto simp: vanilla_removed_def own_vanilla_def ignore_not_found_def intro!: gone_now intro: seen_append elim: seen_known
      split: if_splits option.splits)

lemma delete_cilium:
  "triple (\<lambda>l e. only_delete CiliumKind (\<lambda>a b. own_cilium E p a b n l) e) (\<lambda>t. n \<le> length (st_log t)) (deleteCiliumBackstopIfExists E p crd)
     (\<lambda>r t. n \<le> length (st_log t) \<and> (r = None \<longrightarrow> crd \<longrightarrow>
        cilium_removed E (p_ns p) (EgressPolicyBackstopName (p_name p)) n (st_log t)))"
  unfolding deleteCiliumBackstopIfExists_def
  by (rule triple_if, simp add: triple_return, rule triple_bind, rule triple_seen, simp,
      intro triple_cases triple_return triple_pre [OF triple_bind [OF triple_perform triple_ret]])
    (auto simp: cilium_removed_def own_cilium_def ignore_not_found_def intro!: gone_now intro: seen_append elim: seen_known
      split: if_splits option.splits)

subsection \<open>One flavor\<close>

abbreviation "backstop_name p \<equiv> EgressPolicyBackstopName (p_name p)"
abbreviation "vanilla_spec R p sel \<equiv> np_spec (fst (BuildEgressPolicyBackstop (pr_dns R) p sel))"
abbreviation "cilium_spec R p sel \<equiv> un_spec (BuildEgressPolicyCiliumNetworkPolicy (pr_dns R) p sel)"
abbreviation "the_vanilla E R p sel \<equiv> vanilla_in_place E (p_ns p) (backstop_name p) (vanilla_spec R p sel)"
abbreviation "the_cilium E R p sel \<equiv> cilium_in_place E (p_ns p) (backstop_name p) (cilium_spec R p sel)"
abbreviation "no_vanilla E p \<equiv> vanilla_removed E (p_ns p) (backstop_name p)"
abbreviation "no_cilium E p \<equiv> cilium_removed E (p_ns p) (backstop_name p)"

text \<open>The rule of the writes that keep a backstop: only the policy's own two objects are
  applied; what is deleted is one of the two, the object a read of the policy's own name
  returned in this run, and only when the other is in place.\<close>
definition flavor_rule ::
  "'e env_scheme \<Rightarrow> policy_reconciler \<Rightarrow> egress_policy \<Rightarrow> label_selector \<Rightarrow> nat \<Rightarrow> history \<Rightarrow> effect \<Rightarrow> bool" where
  "flavor_rule E R p sel n l e = (case e of
     Apply k \<Rightarrow> (case k of
         KNetPol q \<Rightarrow> m_namespace (np_meta q) = p_ns p \<and> m_name (np_meta q) = backstop_name p
       | KCilium q \<Rightarrow> m_namespace (un_meta q) = p_ns p \<and> m_name (un_meta q) = backstop_name p
       | _ \<Rightarrow> False)
   | Delete k ns nm \<Rightarrow> k = NetPolKind \<and> own_vanilla E p ns nm n l \<and> the_cilium E R p sel n l
       \<or> k = CiliumKind \<and> own_cilium E p ns nm n l \<and> the_vanilla E R p sel n l
   | Create _ \<Rightarrow> False | Update _ \<Rightarrow> False
   | _ \<Rightarrow> True)"

lemma harmless_flavor: "harmless e \<Longrightarrow> flavor_rule E R p sel n l e"
  by (auto simp: harmless_def flavor_rule_def split: effect.splits)

lemma flavor_keep:
  assumes "emits harmless m" "\<And>l l'. I l \<Longrightarrow> I (l @ l')"
  shows "triple (flavor_rule E R p sel n) (\<lambda>s. I (st_log s)) m (\<lambda>a s. I (st_log s))"
  by (rule triple_keep, rule emits_mono [OF assms(1)]) (auto simp: harmless_flavor intro: assms(2))

text \<open>What holds when the backstop step reports no error.\<close>
definition one_flavor ::
  "'e env_scheme \<Rightarrow> policy_reconciler \<Rightarrow> egress_policy \<Rightarrow> label_selector \<Rightarrow> bool \<Rightarrow> nat \<Rightarrow> history \<Rightarrow> bool" where
  "one_flavor E R p sel crd n l \<longleftrightarrow> (the_cilium E R p sel n l \<and> no_vanilla E p n l)
     \<or> (the_vanilla E R p sel n l \<and> (crd \<longrightarrow> no_cilium E p n l))"

lemma one_flavor_append: "one_flavor E R p sel crd n l \<Longrightarrow> one_flavor E R p sel crd n (l @ l')"
  unfolding one_flavor_def by (blast intro: place_append)

text \<open>A delete of one flavor while the other is in place.\<close>
lemma flavor_delete_vanilla:
  "triple (flavor_rule E R p sel n) (\<lambda>t. n \<le> length (st_log t) \<and> the_cilium E R p sel n (st_log t))
     (deleteBackstopIfExists E p) (\<lambda>r t. r = None \<longrightarrow> one_flavor E R p sel crd n (st_log t))"
  by (rule triple_post, rule triple_frame [OF delete_vanilla, where I = "the_cilium E R p sel n"])
    (auto simp: one_flavor_def flavor_rule_def only_delete_def place_append split: effect.splits)

lemma flavor_delete_cilium:
  "triple (flavor_rule E R p sel n) (\<lambda>t. n \<le> length (st_log t) \<and> the_vanilla E R p sel n (st_log t))
     (deleteCiliumBackstopIfExists E p crd) (\<lambda>r t. r = None \<longrightarrow> one_flavor E R p sel crd n (st_log t))"
  by (rule triple_post, rule triple_frame [OF delete_cilium, where I = "the_vanilla E R p sel n"])
    (auto simp: one_flavor_def flavor_rule_def only_delete_def place_append split: effect.splits)

lemma flavor_apply_vanilla:
  assumes "m_name (np_meta d) = backstop_name p" "m_namespace (np_meta d) = p_ns p" "np_spec d = vanilla_spec R p sel"
  shows "triple (flavor_rule E R p sel n) (\<lambda>t. n \<le> length (st_log t)) (applyBackstop E d)
     (\<lambda>r t. n \<le> length (st_log t) \<and> (r = None \<longrightarrow> the_vanilla E R p sel n (st_log t)))"
  using apply_vanilla [where n = n and E = E and d = d] unfolding assms
  by (rule triple_weaken) (auto simp: flavor_rule_def only_apply_def applyUnstructured_def strip_meta_def assms
      split: effect.splits)

lemma flavor_apply_cilium:
  assumes "m_name (un_meta d) = backstop_name p" "m_namespace (un_meta d) = p_ns p" "un_spec d = cilium_spec R p sel"
  shows "triple (flavor_rule E R p sel n) (\<lambda>t. n \<le> length (st_log t)) (applyCiliumBackstop E d)
     (\<lambda>r t. n \<le> length (st_log t) \<and> (r = None \<longrightarrow> the_cilium E R p sel n (st_log t)))"
  using apply_cilium [where n = n and E = E and d = d] unfolding assms
  by (rule triple_weaken) (auto simp: flavor_rule_def only_apply_def applyUnstructured_def strip_meta_def assms
      split: effect.splits)

text \<open>The two ways to keep a backstop; the report at the end is harmless.\<close>
lemma harmless_report:
  "emits harmless (do { setCondition E ty status reason msg; recordEnforcement E R dr dm; ret (None :: gerr option) })"
  by (intro emits_intro) simp_all

lemma flavor_report:
  "triple (flavor_rule E R p sel n) (\<lambda>t. one_flavor E R p sel crd n (st_log t))
     (do { setCondition E ty status reason msg; recordEnforcement E R dr dm; ret (None :: gerr option) })
     (\<lambda>r t. r = None \<longrightarrow> one_flavor E R p sel crd n (st_log t))"
  by (rule triple_post, rule flavor_keep [where I = "one_flavor E R p sel crd n"], rule harmless_report)
    (auto intro: one_flavor_append)

lemma flavor_cilium:
  assumes "lib_owners E"
  shows "triple (flavor_rule E R p sel n) (\<lambda>t. n \<le> length (st_log t)) (cilium_backstop E R p sel target sg)
     (\<lambda>r t. r = None \<longrightarrow> one_flavor E R p sel crd n (st_log t))"
proof -
  let ?d = "BuildEgressPolicyCiliumNetworkPolicy (pr_dns R) p sel"
  have named: "m_name m = backstop_name p \<and> m_namespace m = p_ns p"
    if "set_controller E (p_meta p) (un_meta ?d) = Inr m" for m
    using owner_refs.setref_name [OF assms that] by (simp add: BuildEgressPolicyCiliumNetworkPolicy_def mk_meta_def)
  show ?thesis unfolding cilium_backstop_def Let_def
    by (rule triple_sum; (rule triple_return, simp; fail)?;
        rule triple_bind [OF flavor_apply_cilium]; (frule named, simp; fail)?;
        rule triple_option; (rule triple_return, simp; fail)?;
        rule triple_bind [OF triple_pre [OF flavor_delete_vanilla]]; (simp; fail)?;
        rule triple_option; (rule triple_return, simp; fail)?;
        rule triple_pre [OF flavor_report]; simp)
qed

lemma flavor_vanilla:
  assumes "lib_owners E"
  shows "triple (flavor_rule E R p sel n) (\<lambda>t. n \<le> length (st_log t)) (vanilla_backstop E R p sel crd sg)
     (\<lambda>r t. r = None \<longrightarrow> one_flavor E R p sel crd n (st_log t))"
proof -
  have named: "m_name m = backstop_name p \<and> m_namespace m = p_ns p"
    if "set_controller E (p_meta p) (np_meta (fst (BuildEgressPolicyBackstop (pr_dns R) p sel))) = Inr m" for m
    using owner_refs.setref_name [OF assms that]
    by (simp add: BuildEgressPolicyBackstop_def mk_meta_def case_prod_unfold Let_def)
  show ?thesis unfolding vanilla_backstop_def Let_def case_prod_unfold
    by (rule triple_sum; (rule triple_return, simp; fail)?;
        rule triple_bind [OF flavor_apply_vanilla]; (frule named, simp; fail)?;
        rule triple_option; (rule triple_return, simp; fail)?;
        rule triple_bind [OF triple_pre [OF flavor_delete_cilium]]; (simp; fail)?;
        rule triple_option; (rule triple_return, simp; fail)?;
        rule triple_pre [OF flavor_report]; simp)
qed

text \<open>The answer about the CRD is the one that is kept.\<close>
lemma kept_crd: "run_state (ciliumAvailable E) t = (crd, t') \<Longrightarrow> kp_cilium (st_kept t') = crd"
  by (auto simp: ciliumAvailable_def run_bind split: if_splits)

lemma flavor_length:
  "emits harmless m \<Longrightarrow>
   triple (flavor_rule E R p sel n) (\<lambda>t. n \<le> length (st_log t)) m (\<lambda>a t. n \<le> length (st_log t))"
  by (rule flavor_keep [where I = "\<lambda>l. n \<le> length l"]) simp_all

lemma flavor_applies:
  assumes "lib_owners E"
  shows "triple (flavor_rule E R p sel n) (\<lambda>t. n \<le> length (st_log t)) (applyFlavoredBackstop E R p sel target)
     (\<lambda>r t. r = None \<longrightarrow> (\<exists>crd. one_flavor E R p sel crd n (st_log t)))"
  unfolding applyFlavoredBackstop_def
  apply (rule triple_bind [OF flavor_length])
   apply (intro emits_intro)
  apply (rule triple_bind [OF flavor_length])
   apply (intro emits_intro, simp)
  apply (rule triple_bind [OF flavor_length])
   apply (intro emits_intro)
  apply (rule triple_post, rule triple_if)
  apply (rule flavor_cilium [OF assms], rule flavor_vanilla [OF assms], blast)
  done

subsection \<open>The target of a run\<close>

text \<open>The selector comes from the server that was read, or from the members that were
  listed with the selector of the group that was read.\<close>
definition resolves_to ::
  "'e env_scheme \<Rightarrow> egress_policy \<Rightarrow> label_selector \<Rightarrow> string \<Rightarrow> bool \<Rightarrow> nat \<Rightarrow> history \<Rightarrow> bool" where
  "resolves_to E p sel target hp n l = (let name = tr_name (ps_target (p_spec p)); kind = tr_kind (ps_target (p_spec p)) in
     (kind = ''MCPServer'' \<and> (\<exists>s. seen (get_server E) ServerKind (p_ns p) name n ((=) (Inr s)) l
        \<and> sel = server_selector (s_name s) \<and> target = s_name s \<and> hp = IsContainerMode s))
   \<or> (kind = ''MCPServerGroup'' \<and> (\<exists>g sl ss. seen (get_group E) GroupKind (p_ns p) name n ((=) (Inr g)) l
        \<and> gsp_selector (g_spec g) = Some sl \<and> members_listed E (g_ns g) sl ss n l \<and> ss \<noteq> []
        \<and> sel = members_selector (sort_strings (map s_name ss)) \<and> target = name
        \<and> hp = list_ex IsContainerMode ss)))"

lemma resolves_to_append: "resolves_to E p sel target hp n l \<Longrightarrow> resolves_to E p sel target hp n (l @ l')"
  unfolding resolves_to_def Let_def by (blast intro: seen_append members_listed_append)

lemma str_insert_ne [simp]: "str_insert x xs \<noteq> []" by (cases xs) auto
lemma sort_strings_Nil [simp]: "sort_strings xs = [] \<longleftrightarrow> xs = []" by (cases xs) (simp_all add: sort_strings_def)

lemma emits_resolve [emits_intro]:
  "(\<And>k ns n. A (ReadObj k ns n)) \<Longrightarrow> (\<And>k ns sel. A (ListObjs k ns sel)) \<Longrightarrow> emits A (resolveTargetSelector E R p)"
  unfolding resolveTargetSelector_def groupMembers_def Let_def by (intro emits_intro)

lemma members_read:
  "triple (\<lambda>l e. True) (\<lambda>t. n \<le> length (st_log t) \<and> seen f k ns nm n ((=) r) (st_log t)) (groupMembers E g)
     (\<lambda>m t. n \<le> length (st_log t) \<and> seen f k ns nm n ((=) r) (st_log t)
        \<and> (\<forall>ms hp. m = Inr (ms, hp) \<longrightarrow> ms \<noteq> [] \<longrightarrow> (\<exists>sl ss. gsp_selector (g_spec g) = Some sl
             \<and> members_listed E (g_ns g) sl ss n (st_log t) \<and> ms = sort_strings (map s_name ss)
             \<and> hp = list_ex IsContainerMode ss)))"
  unfolding groupMembers_def
  by (intro triple_option triple_return triple_pre [OF triple_bind [OF triple_fetch_list triple_ret]])
    (auto intro!: seen_append members_listed_now split: sum.split)

lemma target_read:
  "triple (\<lambda>l e. True) (\<lambda>t. n \<le> length (st_log t)) (resolveTargetSelector E R p)
     (\<lambda>r t. n \<le> length (st_log t) \<and> (\<forall>sel target hp. r = Target sel target hp \<longrightarrow> resolves_to E p sel target hp n (st_log t)))"
proof -
  let ?Q = "\<lambda>r t. n \<le> length (st_log t) \<and> (\<forall>sel target hp. r = Target sel target hp \<longrightarrow> resolves_to E p sel target hp n (st_log t))"
  have miss: "triple (\<lambda>l e. True) (\<lambda>t. n \<le> length (st_log t) \<and> P t) (targetNotFound E R msg) ?Q" for P msg
    by (rule triple_pre [OF triple_silent]) (simp_all add: targetNotFound_def setNoBackstop_def setL7NotPushed_def
        setL7CoreIntegrationOff_def run_bind split: option.split)
  have odd: "triple (\<lambda>l e. True) (\<lambda>t. n \<le> length (st_log t)) (unsupportedKind E R kd) ?Q" for kd
    by (rule triple_pre [OF triple_silent]) (simp_all add: unsupportedKind_def setNoBackstop_def setL7NotPushed_def
        setL7CoreIntegrationOff_def clearDegraded_def run_bind split: option.split)
  show ?thesis unfolding resolveTargetSelector_def Let_def
    apply (rule triple_if)
     apply (rule triple_bind, rule triple_seen, simp)
     apply (intro triple_sum triple_if miss triple_return)
      apply (simp)
     apply (auto simp: resolves_to_def)[1]
    apply (rule triple_if)
     apply (rule triple_bind, rule triple_seen, simp)
     apply (intro triple_sum triple_if miss triple_return, simp)
     apply (rule triple_bind, rule triple_pre, rule members_read, assumption)
     apply (intro triple_sum triple_prod triple_if triple_return triple_pre [OF miss])
       apply (simp, simp)
     apply (clarsimp simp: resolves_to_def, blast)
    apply (rule odd)
    done
qed

subsection \<open>What the enforcement report rests on\<close>

text \<open>The enforcement in the status, and the signal it was taken from.\<close>
definition claim_of :: "(egress_policy, policy_status, kept) st \<Rightarrow> backstop_enforcement \<times> signal" where
  "claim_of t = (pst_enforcement (p_status (st_obj t)), kp_signal (st_kept t))"

definition keeps_claim :: "'a pol \<Rightarrow> bool" where
  "keeps_claim m = (\<forall>t. claim_of (snd (run_state m t)) = claim_of t)"

lemma keeps_ret: "keeps_claim (ret x)" by (simp add: keeps_claim_def)
lemma keeps_bind: "keeps_claim m \<Longrightarrow> (\<And>a. keeps_claim (f a)) \<Longrightarrow> keeps_claim (State_Monad.bind m f)"
  by (simp add: keeps_claim_def run_bind case_prod_unfold)
lemma keeps_log_only: "log_only m \<Longrightarrow> keeps_claim m"
  unfolding keeps_claim_def claim_of_def by (metis log_onlyD prod.collapse)
lemma keeps_condition: "keeps_claim (setCondition E ty status reason msg)"
  by (simp add: keeps_claim_def claim_of_def)
lemma keeps_cases:
  "keeps_claim m \<Longrightarrow> keeps_claim n \<Longrightarrow> keeps_claim (if b then m else n)"
  "keeps_claim m \<Longrightarrow> (\<And>y. keeps_claim (f y)) \<Longrightarrow> keeps_claim (case x of None \<Rightarrow> m | Some y \<Rightarrow> f y)"
  "(\<And>y. keeps_claim (g y)) \<Longrightarrow> (\<And>y. keeps_claim (h y)) \<Longrightarrow> keeps_claim (case z of Inl y \<Rightarrow> g y | Inr y \<Rightarrow> h y)"
  by (simp_all split: option.split sum.split)

lemmas keeps_rules = keeps_ret keeps_bind keeps_condition keeps_cases

lemma log_only_policy_calls [log_only_intro]: "log_only (SetL7Policy E c n payload)" "log_only (condition_now E ty)"
  unfolding SetL7Policy_def condition_now_def by (intro log_only_intro)+

lemma keeps_push_names: "keeps_claim (push_names E c payload ns b)"
proof (induction ns arbitrary: b)
  case (Cons n ns)
  have "keeps_claim (push_failed E n e)" for e
    unfolding push_failed_def degradeForL7_def by (intro keeps_rules keeps_log_only log_only_intro)
  moreover have "keeps_claim (SetL7Policy E c n payload)" by (intro keeps_log_only log_only_intro)
  ultimately show ?case unfolding push_names.simps by (intro keeps_rules Cons.IH)
qed (simp add: keeps_ret)

lemma keeps_push: "keeps_claim (pushL7Policy E R p sel)"
  unfolding pushL7Policy_def setL7CoreIntegrationOff_def Let_def by (intro keeps_rules keeps_push_names)

lemma keeps_gateway: "keeps_claim (warnIfGatewayUnmatched E R force)"
  by (simp add: keeps_claim_def claim_of_def warnIfGatewayUnmatched_def run_bind)

text \<open>Enforcing is claimed only of an observed enforcer.\<close>
definition backed :: "policy_reconciler \<Rightarrow> backstop_enforcement \<times> signal \<Rightarrow> bool" where
  "backed R c = (fst c = BackstopEnforcing \<longrightarrow> probe_observed (pr_probe R) (nothing_kept\<lparr>kp_signal := snd c\<rparr>))"

lemma probe_observed_signal: "probe_observed pc (nothing_kept\<lparr>kp_signal := kp_signal k\<rparr>) = probe_observed pc k"
  by (simp add: probe_observed_def split: option.split)

lemma keeps_backed: "keeps_claim m \<Longrightarrow> triple (\<lambda>l e. True) (\<lambda>t. True) m (\<lambda>r t. True) \<Longrightarrow>
   triple (\<lambda>l e. True) (\<lambda>t. I (claim_of t)) m (\<lambda>r t. I (claim_of t))"
  unfolding triple_def keeps_claim_def by auto

lemma record_backed:
  "triple (\<lambda>l e. True) (\<lambda>t. True) (recordEnforcement E R reason msg) (\<lambda>r t. backed R (claim_of t))"
proof -
  have fin: "triple (\<lambda>l e. True) (\<lambda>t. backed R (claim_of t))
     (if fst d \<noteq> [] then setCondition E EgressPolicyConditionDegraded CondTrue (fst d) (snd d) else clearDegraded E)
     (\<lambda>r t. backed R (claim_of t))" for d
    unfolding clearDegraded_def
    by (rule keeps_backed [where I = "backed R"], intro keeps_cases keeps_condition, intro emits_intro)
  have mid: "triple (\<lambda>l e. True) (\<lambda>t. sg_verdict sg = Observed \<longrightarrow> probe_observed (pr_probe R) (st_kept t))
     (if sg_verdict sg = Observed then do {
            upd_pstatus (\<lambda>st. st\<lparr>pst_enforcement := BackstopEnforcing\<rparr>);
            setCondition E EgressPolicyConditionBackstopEnforceable CondTrue ''EnforcerObserved'' (sg_source sg);
            ret (reason, msg) }
          else if sg_verdict sg = NotObserved then do {
            known \<leftarrow> enforceableIsFalse E;
            whenM (\<not> known) (event Warning ''BackstopUnenforced'' (msg_backstop_unenforced sg));
            upd_pstatus (\<lambda>st. st\<lparr>pst_enforcement := BackstopUnenforced\<rparr>);
            setCondition E EgressPolicyConditionBackstopEnforceable CondFalse ''NoEnforcerObserved''
              (msg_backstop_unenforced sg);
            ret (''EnforcementNotObserved'', msg_backstop_unenforced sg) }
          else do {
            upd_pstatus (\<lambda>st. st\<lparr>pst_enforcement := BackstopUnverified\<rparr>);
            setCondition E EgressPolicyConditionBackstopEnforceable CondUnknown ''EnforcementUnverified'' (sg_source sg);
            ret (reason, msg) }) (\<lambda>d t. backed R (claim_of t))" for sg
    by (rule triple_run, intro emits_intro)
      (auto simp: run_bind backed_def claim_of_def probe_observed_signal enforceableIsFalse_def)
  show ?thesis unfolding recordEnforcement_def
    by (rule triple_bind [OF Signal_observed triple_bind [OF mid fin]])
qed

text \<open>The claim, over the steps that may leave a backstop.\<close>
lemma backed_state: "fst c \<noteq> BackstopEnforcing \<Longrightarrow> backed R c" by (simp add: backed_def)

lemma flavored_backed:
  "triple (\<lambda>l e. True) (\<lambda>t. True) (applyFlavoredBackstop E R p sel target)
     (\<lambda>r t. r = None \<longrightarrow> backed R (claim_of t))"
proof -
  have bind: "triple (\<lambda>l e. True) (\<lambda>t. True) (State_Monad.bind m f) (\<lambda>r t. r = None \<longrightarrow> backed R (claim_of t))"
    if "emits (\<lambda>e. True) m" "\<And>x. triple (\<lambda>l e. True) (\<lambda>t. True) (f x) (\<lambda>r t. r = None \<longrightarrow> backed R (claim_of t))"
    for m :: "'b pol" and f :: "'b \<Rightarrow> gerr option pol"
    by (rule triple_bind [OF that])
  have fin: "triple (\<lambda>l e. True) (\<lambda>t. True) (do { recordEnforcement E R dr dm; ret None })
     (\<lambda>r t. r = None \<longrightarrow> backed R (claim_of t))" for dr dm
    by (rule triple_bind [OF record_backed triple_return]) simp
  have steps: "emits (\<lambda>e. True) (applyCiliumBackstop E u)" "emits (\<lambda>e. True) (applyBackstop E d)"
    "emits (\<lambda>e. True) (deleteBackstopIfExists E p)" "emits (\<lambda>e. True) (deleteCiliumBackstopIfExists E p crd)" for u d crd
    unfolding applyCiliumBackstop_def applyBackstop_def deleteBackstopIfExists_def deleteCiliumBackstopIfExists_def
    by (intro emits_intro TrueI)+
  have "triple (\<lambda>l e. True) (\<lambda>t. True) (cilium_backstop E R p sel target sg) (\<lambda>r t. r = None \<longrightarrow> backed R (claim_of t))"
    "triple (\<lambda>l e. True) (\<lambda>t. True) (vanilla_backstop E R p sel crd sg) (\<lambda>r t. r = None \<longrightarrow> backed R (claim_of t))" for crd sg
    unfolding cilium_backstop_def vanilla_backstop_def Let_def case_prod_unfold
    by (intro triple_sum triple_return bind steps fin triple_option emits_status; simp)+
  then show ?thesis unfolding applyFlavoredBackstop_def
    by (intro bind triple_if emits_status emits_Signal TrueI)
qed

lemma no_backstop_backed:
  assumes "state \<noteq> BackstopEnforcing"
  shows "triple (\<lambda>l e. True) (\<lambda>t. True) (report_no_backstop E state reason applied enforced)
     (\<lambda>r t. fst (claim_of t) = state)"
  by (rule triple_run, intro emits_intro)
    (simp add: report_no_backstop_def setNoBackstop_def clearDegraded_def run_bind claim_of_def)

lemma keeps_claim_and_log:
  assumes "keeps_claim m" "emits (\<lambda>e. True) m" "\<And>c l l'. I c l \<Longrightarrow> I c (l @ l')"
  shows "triple (\<lambda>l e. True) (\<lambda>t. I (claim_of t) (st_log t)) m (\<lambda>r t. I (claim_of t) (st_log t))"
  using assms unfolding triple_def keeps_claim_def by (metis)

lemma pending_when_done:
  "triple (\<lambda>l e. True) (\<lambda>t. True) (resolveTargetSelector E R p)
     (\<lambda>r t. \<forall>a. r = TargetDone a \<longrightarrow> fst (claim_of t) = BackstopPending)"
proof -
  have miss: "triple (\<lambda>l e. True) (\<lambda>t. True) (targetNotFound E R msg) (\<lambda>r t. \<forall>a. r = TargetDone a \<longrightarrow> fst (claim_of t) = BackstopPending)"
    "triple (\<lambda>l e. True) (\<lambda>t. True) (unsupportedKind E R kd) (\<lambda>r t. \<forall>a. r = TargetDone a \<longrightarrow> fst (claim_of t) = BackstopPending)"
    for msg kd
    by (rule triple_run, intro emits_intro, simp add: targetNotFound_def unsupportedKind_def setNoBackstop_def
        setL7NotPushed_def setL7CoreIntegrationOff_def clearDegraded_def run_bind claim_of_def split: option.split)+
  have bind: "triple (\<lambda>l e. True) (\<lambda>t. True) (State_Monad.bind m f) (\<lambda>r t. \<forall>a. r = TargetDone a \<longrightarrow> fst (claim_of t) = BackstopPending)"
    if "emits (\<lambda>e. True) m"
      "\<And>x. triple (\<lambda>l e. True) (\<lambda>t. True) (f x) (\<lambda>r t. \<forall>a. r = TargetDone a \<longrightarrow> fst (claim_of t) = BackstopPending)"
    for m :: "'b pol" and f :: "'b \<Rightarrow> target_result pol"
    by (rule triple_bind [OF that])
  show ?thesis unfolding resolveTargetSelector_def groupMembers_def Let_def
    by (intro triple_cases bind miss triple_return emits_intro) simp_all
qed

text \<open>What a claim of Enforcing rests on.\<close>
definition enforcing_backed ::
  "'e env_scheme \<Rightarrow> policy_reconciler \<Rightarrow> egress_policy \<Rightarrow> nat \<Rightarrow> backstop_enforcement \<times> signal \<Rightarrow> history \<Rightarrow> bool" where
  "enforcing_backed E R p n c l = (fst c = BackstopEnforcing \<longrightarrow> backed R c
     \<and> (\<exists>sel target hp crd. resolves_to E p sel target hp n l \<and> one_flavor E R p sel crd n l))"

lemma enforcing_backed_append: "enforcing_backed E R p n c l \<Longrightarrow> enforcing_backed E R p n c (l @ l')"
  unfolding enforcing_backed_def by (blast intro: resolves_to_append one_flavor_append)

lemma log_only_deletes [log_only_intro]:
  "log_only (deleteBackstopIfExists E p)" "log_only (deleteCiliumBackstopIfExists E p crd)"
  unfolding deleteBackstopIfExists_def deleteCiliumBackstopIfExists_def by (intro log_only_intro)+

lemmas keeps_deletes = log_only_deletes [THEN keeps_log_only]

lemma emits_deletes [emits_intro]:
  "(\<And>k a b. A (ReadObj k a b)) \<Longrightarrow> (\<And>k a b. A (Delete k a b)) \<Longrightarrow> emits A (deleteBackstopIfExists E p)"
  "(\<And>k a b. A (ReadObj k a b)) \<Longrightarrow> (\<And>k a b. A (Delete k a b)) \<Longrightarrow> emits A (deleteCiliumBackstopIfExists E p crd)"
  unfolding deleteBackstopIfExists_def deleteCiliumBackstopIfExists_def by (intro emits_intro; simp)+

lemma emits_push_names:
  assumes "\<And>h. A (Http h)" "\<And>ty r m. A (Event ty r m)" "\<And>d. A (Sleep d)" "\<And>k ls. A (Metric k ls)"
  shows "emits A (push_names E c payload ns b)"
proof (induction ns arbitrary: b)
  case (Cons n ns)
  have "emits A (SetL7Policy E c n payload)"
    unfolding SetL7Policy_def by (rule emits_mono [OF call_emits]) (auto simp: call_effect_def assms split: effect.splits)
  moreover have "emits A (push_failed E n e)" for e
    unfolding push_failed_def by (intro emits_intro assms)
  ultimately show ?case unfolding push_names.simps by (intro emits_intro Cons.IH)
qed (simp add: emits_ret)

lemma emits_push:
  assumes "\<And>h. A (Http h)" "\<And>ty r m. A (Event ty r m)" "\<And>d. A (Sleep d)" "\<And>k ls. A (Metric k ls)"
  shows "emits A (pushL7Policy E R p sel)"
  unfolding pushL7Policy_def Let_def by (intro emits_intro emits_push_names assms)

lemma keep_backstop_backed:
  assumes "lib_owners E"
  shows "triple (\<lambda>l e. True) (\<lambda>t. n \<le> length (st_log t) \<and> resolves_to E p sel target hp n (st_log t))
     (keep_backstop E R p sel target hp)
     (\<lambda>r t. r = None \<longrightarrow> enforcing_backed E R p n (claim_of t) (st_log t))"
proof -
  let ?Q = "\<lambda>r t. r = None \<longrightarrow> enforcing_backed E R p n (claim_of t) (st_log t)"
  have none: "triple (\<lambda>l e. True) P (report_no_backstop E state reason applied enforced) ?Q"
    if "state \<noteq> BackstopEnforcing" for P state reason applied enforced
    by (rule triple_pre, rule triple_post, rule no_backstop_backed [OF that])
      (simp_all add: enforcing_backed_def that)
  have wo: "triple (\<lambda>l e. True) P (without_backstop E p state reason applied enforced) ?Q"
    if "state \<noteq> BackstopEnforcing" for P state reason applied enforced
    unfolding without_backstop_def
    by (rule triple_pre, rule triple_bind [where P = "\<lambda>s. True" and R = "\<lambda>a t. True"], intro emits_intro TrueI,
        intro triple_option triple_return none that) simp_all
  have ob: "triple (\<lambda>l e. True) P (observe_only E p) ?Q" for P
    unfolding observe_only_def
    by (rule triple_pre, rule triple_bind [where P = "\<lambda>s. True" and R = "\<lambda>a t. True"], intro emits_intro TrueI,
        intro triple_option triple_return triple_bind [where R = "\<lambda>a t. True"] none emits_intro TrueI) simp_all
  have fl: "triple (\<lambda>l e. True) (\<lambda>t. n \<le> length (st_log t) \<and> resolves_to E p sel target hp n (st_log t))
     (applyFlavoredBackstop E R p sel target) ?Q"
  proof -
    have "triple (\<lambda>l e. True) (\<lambda>t. n \<le> length (st_log t)) (applyFlavoredBackstop E R p sel target)
       (\<lambda>r t. r = None \<longrightarrow> (\<exists>crd. one_flavor E R p sel crd n (st_log t)))"
      by (rule triple_weaken [OF flavor_applies [OF assms]]) simp
    from triple_frame [OF triple_conj [OF this flavored_backed [of E R p sel target], simplified],
        where I = "resolves_to E p sel target hp n" and G = "\<lambda>l e. True"]
    show ?thesis
      by (rule triple_post [OF triple_pre]) (auto simp: enforcing_backed_def resolves_to_append)
  qed
  show ?thesis unfolding keep_backstop_def
    by (intro triple_if ob wo fl) simp_all
qed

lemma reconcile_backed:
  assumes "lib_owners E"
  shows "triple (\<lambda>l e. True) (\<lambda>t. n \<le> length (st_log t)) (policy_reconcile E R p)
     (\<lambda>r t. snd r = None \<longrightarrow> enforcing_backed E R p n (claim_of t) (st_log t))"
proof -
  let ?I = "enforcing_backed E R p n"
  let ?Q = "\<lambda>r t. snd r = None \<longrightarrow> ?I (claim_of t) (st_log t)"
  note first = triple_conj [OF target_read [of n E R p] pending_when_done [of E R p], simplified]
  have gone_away: "triple (\<lambda>l e. True) (\<lambda>t. fst (claim_of t) = BackstopPending)
     (do { x \<leftarrow> deleteBackstopIfExists E p;
           ret (case x of Some e \<Rightarrow> (0, Some e) | None \<Rightarrow> (after, None)) }) ?Q" for after
    by (rule triple_bind, rule keeps_claim_and_log [where I = "\<lambda>c l. fst c = BackstopPending"],
        rule keeps_deletes, intro emits_intro TrueI, simp, rule triple_return, simp add: enforcing_backed_def)
  have keep: "triple (\<lambda>l e. True) (\<lambda>t. ?I (claim_of t) (st_log t)) m (\<lambda>r t. ?I (claim_of t) (st_log t))"
    if "keeps_claim m" "emits (\<lambda>e. True) m" for m :: "'b pol"
    by (rule keeps_claim_and_log [where I = ?I, OF that]) (rule enforcing_backed_append)
  have push: "emits (\<lambda>e. True) (pushL7Policy E R p sel)" for sel
    by (rule emits_push) simp_all
  show ?thesis unfolding policy_reconcile_def
  proof (rule triple_bind [OF first])
    fix r
    show "triple (\<lambda>l e. True) (\<lambda>t. n \<le> length (st_log t)
         \<and> (\<forall>sel target hp. r = Target sel target hp \<longrightarrow> resolves_to E p sel target hp n (st_log t))
         \<and> ((\<exists>a. r = TargetDone a) \<longrightarrow> fst (claim_of t) = BackstopPending))
       (case r of
          TargetError e \<Rightarrow> ret (0, Some e)
        | TargetDone after \<Rightarrow> do {
            x \<leftarrow> deleteBackstopIfExists E p;
            ret (case x of Some e \<Rightarrow> (0, Some e) | None \<Rightarrow> (after, None)) }
        | Target sel target hasPods \<Rightarrow> do {
            x \<leftarrow> keep_backstop E R p sel target hasPods;
            (case x of
               Some e \<Rightarrow> ret (0, Some e)
             | None \<Rightarrow> do {
                 y \<leftarrow> pushL7Policy E R p sel;
                 (case y of
                    Some e \<Rightarrow> ret (0, Some e)
                  | None \<Rightarrow> do { warnIfGatewayUnmatched E R False; ret (0, None) }) }) }) ?Q"
    proof (cases r)
      case (Target sel target hp)
      show ?thesis unfolding Target target_result.case
        by (rule triple_bind [OF triple_pre [OF keep_backstop_backed [OF assms]]], simp,
            rule triple_option; (rule triple_return, simp; fail)?;
            rule triple_bind [OF triple_pre [OF keep [OF keeps_push push]]]; (simp; fail)?;
            rule triple_option; (rule triple_return, simp; fail)?;
            rule triple_bind [OF keep [OF keeps_gateway]]; (intro emits_intro TrueI; fail)?;
            rule triple_return; simp)
    next
      case (TargetDone after)
      show ?thesis unfolding TargetDone target_result.case by (rule triple_pre [OF gone_away]) simp
    next
      case (TargetError e)
      show ?thesis unfolding TargetError target_result.case by (rule triple_return) simp
    qed
  qed
qed

subsection \<open>What the delivery report rests on\<close>

text \<open>Core accepted this policy's L7 rules for one server.\<close>
definition delivered :: "'e env_scheme \<Rightarrow> client \<Rightarrow> egress_policy \<Rightarrow> nat \<Rightarrow> history \<Rightarrow> string \<Rightarrow> bool" where
  "delivered E c p n l name = (\<exists>resp. answered E n (mk_request c ''POST'' (servers_url c @ name @ ''/l7_policy'')
       (Some (l7_json (compileL7Policy p)))) l resp \<and> (hs_code resp = 200 \<or> hs_code resp = 201))"

lemma delivered_append: "delivered E c p n l name \<Longrightarrow> delivered E c p n (l @ l') name"
  unfolding delivered_def by (blast intro: answered_append)

text \<open>The status of a condition of the policy.\<close>
definition cond_of :: "'e env_scheme \<Rightarrow> string \<Rightarrow> (egress_policy, policy_status, kept) st \<Rightarrow> (cond_status \<times> string) option" where
  "cond_of E ty t = map_option (\<lambda>c. (c_status c, c_reason c)) (find_condition E (pst_conditions (p_status (st_obj t))) ty)"

lemma cond_set:
  assumes "lib_conds E"
  shows "map_option (\<lambda>c. (c_status c, c_reason c)) (find_condition E (set_condition E t cs c) ty) =
    (if ty = c_type c then Some (c_status c, c_reason c)
     else map_option (\<lambda>c. (c_status c, c_reason c)) (find_condition E cs ty))"
  using condition_list.verdict_set [OF assms] by (simp add: condition_list.verdict_def [OF assms])

lemma cond_of_frame:
  "cond_of E ty (t\<lparr>st_log := l\<rparr>) = cond_of E ty t" "cond_of E ty (t\<lparr>st_kept := k\<rparr>) = cond_of E ty t"
  by (simp_all add: cond_of_def)

lemma push_names_delivered:
  "triple (\<lambda>l e. True) (\<lambda>t. n \<le> length (st_log t)) (push_names E c (compileL7Policy p) ns b)
     (\<lambda>r t. n \<le> length (st_log t) \<and> (fst r = None \<longrightarrow> list_all (delivered E c p n (st_log t)) ns))"
proof (induction ns arbitrary: b)
  case (Cons name ns)
  have call: "triple (\<lambda>l e. True) (\<lambda>t. n \<le> length (st_log t)) (SetL7Policy E c name (compileL7Policy p))
     (\<lambda>r t. n \<le> length (st_log t) \<and> (\<forall>x. r = Inr x \<longrightarrow> delivered E c p n (st_log t) name))"
    unfolding SetL7Policy_def
    by (rule triple_post [OF call_answered]) (auto simp: delivered_def answer_l7_def split: if_splits)
  have fail: "triple (\<lambda>l e. True) (\<lambda>t. n \<le> length (st_log t) \<and> P t)
     (do { x \<leftarrow> push_failed E name e; ret (x, b) })
     (\<lambda>r t. n \<le> length (st_log t) \<and> (fst r = None \<longrightarrow> list_all (delivered E c p n (st_log t)) (name # ns)))" for e P
    by (rule triple_run) (auto intro!: emits_intro simp: push_failed_def degradeForL7_def run_bind)
  have rest: "triple (\<lambda>l e. True) (\<lambda>t. n \<le> length (st_log t) \<and> delivered E c p n (st_log t) name)
     (push_names E c (compileL7Policy p) ns x)
     (\<lambda>r t. n \<le> length (st_log t) \<and> (fst r = None \<longrightarrow> list_all (delivered E c p n (st_log t)) (name # ns)))" for x
    by (rule triple_post, rule triple_frame [OF Cons.IH, where I = "\<lambda>l. delivered E c p n l name"])
      (auto intro: delivered_append)
  show ?case unfolding push_names.simps
    by (rule triple_bind [OF call], rule triple_sum, rule fail, rule triple_pre [OF rest], simp)
qed (simp add: triple_return)

text \<open>The push, when core integration is on: it reports a delivery exactly when every
  server's was accepted, and a failure on both conditions.\<close>
definition push_told ::
  "'e env_scheme \<Rightarrow> client \<Rightarrow> egress_policy \<Rightarrow> label_selector \<Rightarrow> nat \<Rightarrow> gerr option \<Rightarrow> (egress_policy, policy_status, kept) st \<Rightarrow> bool" where
  "push_told E c p sel n r t = (case r of
     None \<Rightarrow> list_all (delivered E c p n (st_log t)) (providerNamesFromSelector sel)
       \<and> map_option fst (cond_of E EgressPolicyConditionL7Delivered t) = Some CondTrue
   | Some e \<Rightarrow> cond_of E EgressPolicyConditionL7Delivered t = Some (CondFalse, l7PushReason e)
       \<and> cond_of E EgressPolicyConditionDegraded t = Some (CondTrue, degradedReasonL7PushFailed))"

lemma l7PushReason_wrap [simp]: "l7PushReason (Wrap w e) = l7PushReason e"
  by (simp add: l7PushReason_def IsAuthRejected_def status_code_def)

lemma push_names_failed:
  assumes "lib_conds E"
  shows "triple (\<lambda>l e. True) (\<lambda>t. True) (push_names E c payload ns b)
     (\<lambda>r t. \<forall>e. fst r = Some e \<longrightarrow> cond_of E EgressPolicyConditionL7Delivered t = Some (CondFalse, l7PushReason e)
        \<and> cond_of E EgressPolicyConditionDegraded t = Some (CondTrue, degradedReasonL7PushFailed))"
proof (induction ns arbitrary: b)
  case (Cons name ns)
  have fail: "triple (\<lambda>l e. True) (\<lambda>t. True) (do { x \<leftarrow> push_failed E name e; ret (x, b) })
     (\<lambda>r t. \<forall>e. fst r = Some e \<longrightarrow> cond_of E EgressPolicyConditionL7Delivered t = Some (CondFalse, l7PushReason e)
        \<and> cond_of E EgressPolicyConditionDegraded t = Some (CondTrue, degradedReasonL7PushFailed))" for e
    by (rule triple_run) (auto intro!: emits_intro simp: push_failed_def degradeForL7_def run_bind cond_of_def
        cond_set [OF assms] policy_conditions)
  have call: "emits (\<lambda>e. True) (SetL7Policy E c name payload)"
    unfolding SetL7Policy_def by (rule emits_call) simp_all
  show ?case unfolding push_names.simps
    by (rule triple_bind [OF call], rule triple_sum, rule fail, rule Cons.IH)
qed (simp add: triple_return)

lemma push_tells:
  assumes "lib_conds E" "pr_client R = Some c"
  shows "triple (\<lambda>l e. True) (\<lambda>t. n \<le> length (st_log t)) (pushL7Policy E R p sel) (push_told E c p sel n)"
proof -
  note names = triple_conj [OF push_names_delivered [of n E c p "providerNamesFromSelector sel" True]
      push_names_failed [OF assms(1), of c "compileL7Policy p" "providerNamesFromSelector sel" True], simplified]
  show ?thesis unfolding pushL7Policy_def assms option.case Let_def
    apply (rule triple_bind [OF names])
    apply (rule triple_option)
     apply (rule triple_run, intro emits_intro)
     apply (auto simp: run_bind push_told_def cond_of_def cond_set [OF assms(1)] policy_conditions)[1]
    apply (rule triple_return)
    apply (auto simp: push_told_def)[1]
    done
qed

lemma emits_backstop: "emits (\<lambda>e. True) (keep_backstop E R p sel target hp)"
  unfolding keep_backstop_def observe_only_def without_backstop_def applyFlavoredBackstop_def cilium_backstop_def
    vanilla_backstop_def applyCiliumBackstop_def applyBackstop_def Let_def case_prod_unfold
  by (intro emits_intro TrueI)

lemma not_pushed_when_done:
  assumes "lib_conds E" "pr_client R = Some c"
  shows "triple (\<lambda>l e. True) (\<lambda>t. True) (resolveTargetSelector E R p)
     (\<lambda>r t. (\<exists>a. r = TargetDone a) \<longrightarrow> map_option fst (cond_of E EgressPolicyConditionL7Delivered t) = Some CondFalse)"
proof -
  let ?Q = "\<lambda>r t. (\<exists>a. r = TargetDone a) \<longrightarrow> map_option fst (cond_of E EgressPolicyConditionL7Delivered t) = Some CondFalse"
  have miss: "triple (\<lambda>l e. True) (\<lambda>t. True) (targetNotFound E R msg) ?Q"
    "triple (\<lambda>l e. True) (\<lambda>t. True) (unsupportedKind E R kd) ?Q" for msg kd
    by (rule triple_run, intro emits_intro, simp add: targetNotFound_def unsupportedKind_def setNoBackstop_def
        setL7NotPushed_def assms(2) clearDegraded_def run_bind cond_of_def cond_set [OF assms(1)] policy_conditions)+
  have bind: "triple (\<lambda>l e. True) (\<lambda>t. True) (State_Monad.bind m f) ?Q"
    if "emits (\<lambda>e. True) m" "\<And>x. triple (\<lambda>l e. True) (\<lambda>t. True) (f x) ?Q"
    for m :: "'b pol" and f :: "'b \<Rightarrow> target_result pol"
    by (rule triple_bind [OF that])
  show ?thesis unfolding resolveTargetSelector_def groupMembers_def Let_def
    by (intro triple_cases bind miss triple_return emits_intro) simp_all
qed

text \<open>What a reconcile says of the L7 policy when it ends without an error.\<close>
definition l7_told ::
  "'e env_scheme \<Rightarrow> client \<Rightarrow> egress_policy \<Rightarrow> nat \<Rightarrow> (egress_policy, policy_status, kept) st \<Rightarrow> bool" where
  "l7_told E c p n t \<longleftrightarrow>
     (\<exists>sel target hp. resolves_to E p sel target hp n (st_log t)
        \<and> list_all (delivered E c p n (st_log t)) (providerNamesFromSelector sel)
        \<and> map_option fst (cond_of E EgressPolicyConditionL7Delivered t) = Some CondTrue)
   \<or> map_option fst (cond_of E EgressPolicyConditionL7Delivered t) = Some CondFalse"

text \<open>A step that leaves the object alone and loses nothing of the log.\<close>
lemma triple_obj:
  assumes "\<And>s. st_obj (snd (run_state m s)) = st_obj s" "emits (\<lambda>e. True) m"
    and "\<And>s s' es. st_obj s' = st_obj s \<Longrightarrow> st_log s' = st_log s @ es \<Longrightarrow> P s \<Longrightarrow> P s'"
  shows "triple (\<lambda>l e. True) P m (\<lambda>r t. P t)"
  using assms unfolding triple_def by metis

lemma told_keeps:
  assumes "st_obj s' = st_obj s" "st_log s' = st_log s @ es"
  shows "l7_told E c p n s \<Longrightarrow> l7_told E c p n s'"
    "push_told E c p sel n r s \<Longrightarrow> push_told E c p sel n r s'"
  using assms unfolding l7_told_def push_told_def cond_of_def
  by (auto simp: list_all_iff intro: resolves_to_append delivered_append split: option.splits)

lemma reconcile_tells:
  assumes "lib_conds E" "pr_client R = Some c"
  shows "triple (\<lambda>l e. True) (\<lambda>t. n \<le> length (st_log t)) (policy_reconcile E R p)
     (\<lambda>r t. snd r = None \<longrightarrow> l7_told E c p n t)"
proof -
  note first = triple_conj [OF target_read [of n E R p] not_pushed_when_done [OF assms, of p], simplified]
  have obj: "st_obj (snd (run_state (deleteBackstopIfExists E p) s)) = st_obj s"
    "st_obj (snd (run_state (warnIfGatewayUnmatched E R False) s)) = st_obj s" for s
    using log_onlyD [OF log_only_deletes(1) [of E p], of s]
    by (metis prod.collapse) (simp add: warnIfGatewayUnmatched_def run_bind)
  have away: "triple (\<lambda>l e. True) (\<lambda>t. map_option fst (cond_of E EgressPolicyConditionL7Delivered t) = Some CondFalse)
     (do { x \<leftarrow> deleteBackstopIfExists E p;
           ret (case x of Some e \<Rightarrow> (0, Some e) | None \<Rightarrow> (after, None)) })
     (\<lambda>r t. snd r = None \<longrightarrow> l7_told E c p n t)" for after
    by (rule triple_bind, rule triple_obj [OF obj(1)], intro emits_intro TrueI, simp add: cond_of_def,
        rule triple_return, simp add: l7_told_def)
  have pushed: "triple (\<lambda>l e. True) (\<lambda>t. n \<le> length (st_log t) \<and> resolves_to E p sel target hp n (st_log t))
     (pushL7Policy E R p sel) (\<lambda>r t. r = None \<longrightarrow> l7_told E c p n t)" for sel target hp
    by (rule triple_post, rule triple_frame [OF push_tells [OF assms], where I = "resolves_to E p sel target hp n"])
      (auto simp: l7_told_def push_told_def resolves_to_append, blast)
  have told: "triple (\<lambda>l e. True) (l7_told E c p n) (warnIfGatewayUnmatched E R False) (\<lambda>r t. l7_told E c p n t)"
    by (rule triple_obj [OF obj(2)], intro emits_intro TrueI, rule told_keeps)
  have kept: "triple (\<lambda>l e. True) (\<lambda>t. n \<le> length (st_log t) \<and> resolves_to E p sel target hp n (st_log t))
     (keep_backstop E R p sel target hp) (\<lambda>r t. n \<le> length (st_log t) \<and> resolves_to E p sel target hp n (st_log t))"
    for sel target hp
    by (rule triple_keep, rule emits_mono [OF emits_backstop]) (auto intro: resolves_to_append)
  show ?thesis unfolding policy_reconcile_def
  proof (rule triple_bind [OF first])
    fix r
    show "triple (\<lambda>l e. True) (\<lambda>t. n \<le> length (st_log t)
         \<and> (\<forall>sel target hp. r = Target sel target hp \<longrightarrow> resolves_to E p sel target hp n (st_log t))
         \<and> ((\<exists>a. r = TargetDone a) \<longrightarrow> (\<exists>b. cond_of E EgressPolicyConditionL7Delivered t = Some (CondFalse, b))))
       (case r of
          TargetError e \<Rightarrow> ret (0, Some e)
        | TargetDone after \<Rightarrow> do {
            x \<leftarrow> deleteBackstopIfExists E p;
            ret (case x of Some e \<Rightarrow> (0, Some e) | None \<Rightarrow> (after, None)) }
        | Target sel target hasPods \<Rightarrow> do {
            x \<leftarrow> keep_backstop E R p sel target hasPods;
            (case x of
               Some e \<Rightarrow> ret (0, Some e)
             | None \<Rightarrow> do {
                 y \<leftarrow> pushL7Policy E R p sel;
                 (case y of
                    Some e \<Rightarrow> ret (0, Some e)
                  | None \<Rightarrow> do { warnIfGatewayUnmatched E R False; ret (0, None) }) }) })
       (\<lambda>r t. snd r = None \<longrightarrow> l7_told E c p n t)"
    proof (cases r)
      case (Target sel target hp)
      show ?thesis unfolding Target target_result.case
        by (rule triple_bind [OF triple_pre [OF kept]], simp,
            rule triple_option; (rule triple_return, simp; fail)?;
            rule triple_bind [OF pushed];
            rule triple_option; (rule triple_return, simp; fail)?;
            rule triple_bind [OF triple_pre [OF told]]; (simp; fail)?;
            rule triple_return; simp)
    next
      case (TargetDone after)
      show ?thesis unfolding TargetDone target_result.case by (rule triple_pre [OF away]) auto
    next
      case (TargetError e)
      show ?thesis unfolding TargetError target_result.case by (rule triple_return) simp
    qed
  qed
qed

subsection \<open>What a retired backstop leaves\<close>

definition spares_cilium :: "effect \<Rightarrow> bool" where
  "spares_cilium e = (case e of Delete k _ _ \<Rightarrow> k \<noteq> CiliumKind | Apply k \<Rightarrow> (case k of KCilium _ \<Rightarrow> False | _ \<Rightarrow> True)
     | ReadObj k _ _ \<Rightarrow> k \<noteq> CiliumKind | _ \<Rightarrow> True)"

lemma spares_simps [simp]:
  "spares_cilium (ReadObj k a b) \<longleftrightarrow> k \<noteq> CiliumKind" "spares_cilium (Delete k a b) \<longleftrightarrow> k \<noteq> CiliumKind"
  "spares_cilium (ListObjs k a sel)" "spares_cilium (Event ty r m)" "spares_cilium (Http h)" "spares_cilium (Sleep d)"
  "spares_cilium (Metric a ls)"
  by (simp_all add: spares_cilium_def)

text \<open>The policy asks for no backstop, or its target runs no pods, or is not there.\<close>
definition retired :: "egress_policy \<Rightarrow> target_result \<Rightarrow> bool" where
  "retired p r = (case r of TargetError _ \<Rightarrow> False | TargetDone _ \<Rightarrow> True
     | Target _ _ hp \<Rightarrow> \<not> observing p \<and> (opted_out p \<or> \<not> hp))"

lemma spares_steps:
  "emits spares_cilium (resolveTargetSelector E R p)" "emits spares_cilium (deleteBackstopIfExists E p)"
  "emits spares_cilium (without_backstop E p state reason applied enforced)"
  "emits spares_cilium (pushL7Policy E R p sel)" "emits spares_cilium (warnIfGatewayUnmatched E R force)"
proof -
  show "emits spares_cilium (resolveTargetSelector E R p)"
    unfolding resolveTargetSelector_def groupMembers_def Let_def by (intro emits_intro) simp_all
  show del: "emits spares_cilium (deleteBackstopIfExists E p)"
    unfolding deleteBackstopIfExists_def by (intro emits_intro) simp_all
  show "emits spares_cilium (without_backstop E p state reason applied enforced)"
    unfolding without_backstop_def by (intro emits_bind del emits_option emits_ret emits_status)
qed (intro emits_intro emits_push; simp)+

lemma retired_spares:
  assumes "run_state (policy_reconcile E R p) t = (r, t')" "retired p (fst (run_state (resolveTargetSelector E R p) t))"
  shows "\<exists>es. st_log t' = st_log t @ es \<and> list_all spares_cilium es"
proof -
  obtain tr s where res: "run_state (resolveTargetSelector E R p) t = (tr, s)" by fastforce
  define rest where "rest = (case tr of
        TargetError e \<Rightarrow> ret (0, Some e)
      | TargetDone after \<Rightarrow> do {
          x \<leftarrow> deleteBackstopIfExists E p;
          ret (case x of Some e \<Rightarrow> (0, Some e) | None \<Rightarrow> (after, None)) }
      | Target sel target hasPods \<Rightarrow> do {
          x \<leftarrow> keep_backstop E R p sel target hasPods;
          (case x of
             Some e \<Rightarrow> ret (0, Some e)
           | None \<Rightarrow> do {
               y \<leftarrow> pushL7Policy E R p sel;
               (case y of
                  Some e \<Rightarrow> ret (0, Some e)
                | None \<Rightarrow> do { warnIfGatewayUnmatched E R False; ret (0, None) }) }) })"
  have run: "run_state rest s = (r, t')"
    using assms(1) res by (simp add: policy_reconcile_def rest_def run_bind)
  have "emits spares_cilium rest"
    using assms(2) res spares_steps unfolding rest_def keep_backstop_def
    by (auto simp: retired_def split: target_result.splits intro!: emits_bind emits_option emits_ret)
  from emitsD [OF this run] emitsD [OF spares_steps(1) res] show ?thesis by force
qed

lemma emits_clear_targets: "emits (\<lambda>e. True) (clear_targets E R p)"
proof -
  have "emits (\<lambda>e. True) (clear_name E c n)" for c n
    unfolding clear_name_def ClearL7Policy_def by (intro emits_intro emits_call TrueI)
  then show ?thesis unfolding clear_targets_def
    by (auto intro!: emits_intro split: option.split target_result.split)
qed

section \<open>Properties\<close>

text \<open>C8 Changing the flavor leaves no gap: keeping a backstop applies only the policy's
  own two objects; it deletes only an object that its read of the policy's own name
  returned in this run, and only when the one of the other flavor, with the
  specification the policy asks for, was accepted or read in this run.\<close>
theorem flavor_switch_leaves_no_gap:
  assumes "lib_owners E" and "run_state (applyFlavoredBackstop E R p sel target) t = (r, t')"
    and "st_log t' = st_log t @ es" and "i < length es"
  shows "flavor_rule E R p sel (length (st_log t)) (st_log t @ take i es) (es ! i)"
  by (rule tripleD(2) [OF flavor_applies [OF assms(1)] _ assms(2-4)]) simp

text \<open>C7 Enforcing means enforced: after a reconcile without an error the status says
  Enforcing only when the probe, or its override, says an enforcer was observed, and
  one flavor of the backstop for the target that was read is in place.\<close>
theorem enforcing_is_backed_up:
  assumes "lib_owners E" and "run_state (policy_reconcile E R p) t = ((after, None), t')"
    and "pst_enforcement (p_status (st_obj t')) = BackstopEnforcing"
  shows "probe_observed (pr_probe R) (st_kept t')
    \<and> (\<exists>sel target hp crd. resolves_to E p sel target hp (length (st_log t)) (st_log t')
         \<and> one_flavor E R p sel crd (length (st_log t)) (st_log t'))"
proof -
  have "enforcing_backed E R p (length (st_log t)) (claim_of t') (st_log t')"
    using reconcile_backed [OF assms(1), of "length (st_log t)" R p, unfolded triple_def, rule_format, of t] assms(2)
    by auto
  then show ?thesis using assms(3)
    by (auto simp: enforcing_backed_def claim_of_def backed_def probe_observed_signal)
qed

text \<open>C9 L7Delivered means delivered: a reconcile with core integration that reports no
  error leaves L7Delivered True with the compiled policy accepted by core for every
  server the target names, whether or not a backstop is generated, or leaves it False.\<close>
theorem l7_delivered_means_accepted:
  assumes "lib_conds E" and "pr_client R = Some c" and "run_state (policy_reconcile E R p) t = ((after, None), t')"
  shows "(\<exists>sel target hp. resolves_to E p sel target hp (length (st_log t)) (st_log t')
        \<and> list_all (delivered E c p (length (st_log t)) (st_log t')) (providerNamesFromSelector sel)
        \<and> map_option fst (cond_of E EgressPolicyConditionL7Delivered t') = Some CondTrue)
    \<or> map_option fst (cond_of E EgressPolicyConditionL7Delivered t') = Some CondFalse"
  using reconcile_tells [OF assms(1,2), of "length (st_log t)" p, unfolded triple_def, rule_format, of t] assms(3)
  by (auto simp: l7_told_def)

text \<open>A failed push is reported: L7Delivered is False with the reason the returned error
  gives (refused for its credentials, refused otherwise, or never answered), and
  Degraded says L7PushFailed.\<close>
theorem push_failure_is_reported:
  assumes "lib_conds E" and "pr_client R = Some c" and "run_state (pushL7Policy E R p sel) t = (Some e, t')"
  shows "cond_of E EgressPolicyConditionL7Delivered t' = Some (CondFalse, l7PushReason e)
    \<and> cond_of E EgressPolicyConditionDegraded t' = Some (CondTrue, degradedReasonL7PushFailed)"
  using push_tells [OF assms(1,2), of "length (st_log t)" p sel, unfolded triple_def, rule_format, of t] assms(3)
  by (auto simp: push_told_def)

text \<open>C12 A retired backstop: when the policy opts out of a backstop, or its target runs no
  pods or is missing, a reconcile neither reads nor removes the CiliumNetworkPolicy.\<close>
theorem retired_backstop_keeps_cilium:
  assumes "run_state (policy_reconcile E R p) t = (r, t')"
    and "retired p (fst (run_state (resolveTargetSelector E R p) t))"
  shows "\<exists>es. st_log t' = st_log t @ es \<and> list_all spares_cilium es"
  by (rule retired_spares [OF assms])

text \<open>C11 Core cannot block deletion: when the target can be resolved, a deletion with the
  finalizer ends by writing the policy without it, whatever core answers, and its
  outcome is that of this write.\<close>
theorem deletion_not_blocked_by_core:
  assumes "lib_finalizers E" and "contains_finalizer E (m_finalizers (p_meta p)) l7PolicyFinalizer"
    and "run_state (handleDeletion E R p) t = (r, t')"
    and "\<And>e. fst (run_state (resolveTargetSelector E R p) t) \<noteq> TargetError e"
  shows "\<exists>es ob. st_log t' = st_log t @ es @ [Update (KPolicy ob)]
    \<and> \<not> contains_finalizer E (m_finalizers (p_meta ob)) l7PolicyFinalizer
    \<and> r = (0, write_result E (st_log t @ es) (Update (KPolicy ob)))"
proof -
  obtain x s where x: "run_state (clear_targets E R p) t = (x, s)" by fastforce
  have none: "x = None"
    using x assms(4)
    by (auto simp: clear_targets_def run_bind split: option.splits target_result.splits prod.splits)
  obtain es where es: "st_log s = st_log t @ es"
    using emitsD [of "\<lambda>e. True", OF _ x] emits_clear_targets by blast
  have "run_state (release_policy E) s = (r, t')"
    using assms(2,3) x none by (simp add: handleDeletion_def run_bind)
  then show ?thesis
    using es finalizer_list.has_remove [OF assms(1)]
    by (intro exI [of _ es] exI [of _ "st_obj t'"]) (auto simp: release_policy_def run_bind)
qed

section \<open>Concrete runs\<close>

text \<open>A policy in Enforce mode for the container-mode server of the other examples, under
  a probe told that policies are enforced, with a core that gives one answer.\<close>
definition egress_env :: "int \<Rightarrow> env" where
  "egress_env code = std_env\<lparr>get_server := (\<lambda>l ns n. Inr (demo_container ''i'')),
     http_result := (\<lambda>l rq. Inr \<lparr>hs_code = code, hs_body = [], hs_json = None\<rparr>)\<rparr>"

definition demo_policy :: "network_backstop option \<Rightarrow> egress_policy" where
  "demo_policy b = \<lparr>p_meta = empty_meta\<lparr>m_name := ''p'', m_namespace := ''n'', m_finalizers := [l7PolicyFinalizer]\<rparr>,
     p_spec = \<lparr>ps_mode = Enforce, ps_target = \<lparr>tr_kind = ''MCPServer'', tr_name = ''s''\<rparr>, ps_default = Deny,
       ps_upstreams = [], ps_backstop = b\<rparr>,
     p_status = \<lparr>pst_observed = 0, pst_enforcement = BackstopUnset, pst_conditions = []\<rparr>\<rparr>"

definition egress_reconciler :: policy_reconciler where
  "egress_reconciler = \<lparr>pr_client = Some demo_client,
     pr_probe = Some \<lparr>pb_mapper = False, pb_reader = False, pb_override = Observed, pb_ttl = 0\<rparr>,
     pr_gateway = None, pr_dns = \<lparr>dc_peers = [], dc_selectors = []\<rparr>\<rparr>"

definition egress_start :: "network_backstop option \<Rightarrow> (egress_policy, policy_status, kept) st" where
  "egress_start b = \<lparr>st_obj = demo_policy b, st_base = Some (p_status (demo_policy b)), st_kept = nothing_kept, st_log = []\<rparr>"

definition egress_run :: "outcome \<times> (egress_policy, policy_status, kept) st" where
  "egress_run = run_state (policy_reconcile (egress_env 200) egress_reconciler (demo_policy None)) (egress_start None)"

lemma egress_env_laws: "lib_conds (egress_env code)" "lib_owners (egress_env code)" "lib_finalizers (egress_env code)"
  by (simp_all add: egress_env_def std_conds.condition_list_axioms std_owners.owner_refs_axioms
      std_fins.finalizer_list_axioms)

lemmas egress_steps = policy_reconcile_def resolveTargetSelector_def keep_backstop_def applyFlavoredBackstop_def
  ciliumAvailable_def Signal_def observe_def probe_def vanilla_backstop_def applyBackstop_def applyOwned_def
  deleteCiliumBackstopIfExists_def recordEnforcement_def clearDegraded_def pushL7Policy_def
  warnIfGatewayUnmatched_def

lemmas egress_evals = run_bind egress_env_def demo_policy_def egress_reconciler_def egress_start_def demo_container_def
  zero_server_def empty_meta_def nothing_kept_def demo_client_def observing_def opted_out_def IsContainerMode_def
  requested_flavor_def useCilium_def CiliumAvailable_def BuildEgressPolicyBackstop_def mk_meta_def
  std_set_controller_def is_not_found_def gatewayWatchEnabled_def providerNamesFromSelector_def server_selector_def
  run_demo_call SetL7Policy_def push_failed_def degradeForL7_def answer_l7_def decode_object_def probe_signal_def
  no_facts_def policy_conditions

lemma egress_run_ends:
  "fst egress_run = (0, None) \<and> pst_enforcement (p_status (st_obj (snd egress_run))) = BackstopEnforcing"
  unfolding egress_run_def egress_steps Let_def by (simp add: egress_evals)

lemma egress_run_eq:
  "run_state (policy_reconcile (egress_env 200) egress_reconciler (demo_policy None)) (egress_start None)
     = ((0, None), snd egress_run)"
  using egress_run_ends by (simp add: egress_run_def prod_eq_iff)

theorem enforcing_is_backed_up_witness:
  "probe_observed (pr_probe egress_reconciler) (st_kept (snd egress_run))
   \<and> (\<exists>sel target hp crd. resolves_to (egress_env 200) (demo_policy None) sel target hp 0 (st_log (snd egress_run))
        \<and> one_flavor (egress_env 200) egress_reconciler (demo_policy None) sel crd 0 (st_log (snd egress_run)))"
  using enforcing_is_backed_up [OF egress_env_laws(2) egress_run_eq] egress_run_ends by (simp add: egress_start_def)

theorem l7_delivered_means_accepted_witness:
  "(\<exists>sel target hp. resolves_to (egress_env 200) (demo_policy None) sel target hp 0 (st_log (snd egress_run))
       \<and> list_all (delivered (egress_env 200) demo_client (demo_policy None) 0 (st_log (snd egress_run)))
            (providerNamesFromSelector sel)
       \<and> map_option fst (cond_of (egress_env 200) EgressPolicyConditionL7Delivered (snd egress_run)) = Some CondTrue)
   \<or> map_option fst (cond_of (egress_env 200) EgressPolicyConditionL7Delivered (snd egress_run)) = Some CondFalse"
  using l7_delivered_means_accepted [OF egress_env_laws(1) _ egress_run_eq, of demo_client]
  by (simp add: egress_start_def egress_reconciler_def)

text \<open>The backstop step of the same run.\<close>
definition backstop_run :: "gerr option \<times> (egress_policy, policy_status, kept) st" where
  "backstop_run = run_state (applyFlavoredBackstop (egress_env 200) egress_reconciler (demo_policy None)
     (server_selector ''s'') ''s'') (egress_start None)"

lemma backstop_run_log: "1 < length (st_log (snd backstop_run))"
  unfolding backstop_run_def egress_steps Let_def by (simp add: egress_evals)

theorem flavor_switch_leaves_no_gap_witness:
  "flavor_rule (egress_env 200) egress_reconciler (demo_policy None) (server_selector ''s'') 0
     (take 1 (st_log (snd backstop_run))) (st_log (snd backstop_run) ! 1)"
  using flavor_switch_leaves_no_gap [OF egress_env_laws(2) [of 200], of egress_reconciler "demo_policy None"
      "server_selector ''s''" "''s''" "egress_start None" "fst backstop_run" "snd backstop_run"
      "st_log (snd backstop_run)" 1] backstop_run_log
  by (simp add: backstop_run_def egress_start_def)

text \<open>A push that core refuses.\<close>
definition refused_run :: "gerr option \<times> (egress_policy, policy_status, kept) st" where
  "refused_run = run_state (pushL7Policy (egress_env 403) egress_reconciler (demo_policy None) (server_selector ''s''))
     (egress_start None)"

lemma refused_run_fails: "fst refused_run \<noteq> None"
  unfolding refused_run_def pushL7Policy_def Let_def
  by (simp add: egress_evals)

theorem push_failure_is_reported_witness:
  "cond_of (egress_env 403) EgressPolicyConditionDegraded (snd refused_run) = Some (CondTrue, degradedReasonL7PushFailed)"
proof -
  obtain e where "run_state (pushL7Policy (egress_env 403) egress_reconciler (demo_policy None) (server_selector ''s''))
      (egress_start None) = (Some e, snd refused_run)"
    using refused_run_fails by (auto simp: refused_run_def prod_eq_iff)
  from push_failure_is_reported [OF egress_env_laws(1) _ this, of demo_client]
  show ?thesis by (simp add: egress_reconciler_def)
qed

text \<open>A policy that opts out, and the deletion of one whose targets core does not clear.\<close>
definition no_backstop :: "network_backstop option" where
  "no_backstop = Some \<lparr>nb_generate = False, nb_flavor = FlavorCilium\<rparr>"

lemma target_resolves: "fst (run_state (resolveTargetSelector (egress_env code) egress_reconciler (demo_policy b)) t)
    = Target (server_selector ''s'') ''s'' True"
  unfolding egress_steps Let_def by (simp add: egress_evals)

theorem retired_backstop_keeps_cilium_witness:
  "\<exists>es. st_log (snd (run_state (policy_reconcile (egress_env 200) egress_reconciler (demo_policy no_backstop))
       (egress_start no_backstop))) = es \<and> list_all spares_cilium es"
proof -
  have "retired (demo_policy no_backstop) (fst (run_state (resolveTargetSelector (egress_env 200) egress_reconciler
      (demo_policy no_backstop)) (egress_start no_backstop)))"
    unfolding target_resolves
    by (simp add: retired_def observing_def opted_out_def demo_policy_def no_backstop_def)
  from retired_backstop_keeps_cilium [OF surjective_pairing this]
  show ?thesis by (simp add: egress_start_def)
qed

theorem deletion_not_blocked_by_core_witness:
  "\<exists>ob. last (st_log (snd (run_state (handleDeletion (egress_env 500) egress_reconciler (demo_policy None))
       (egress_start None)))) = Update (KPolicy ob)
     \<and> \<not> contains_finalizer (egress_env 500) (m_finalizers (p_meta ob)) l7PolicyFinalizer"
proof -
  have "contains_finalizer (egress_env 500) (m_finalizers (p_meta (demo_policy None))) l7PolicyFinalizer"
    by (simp add: egress_env_def demo_policy_def std_contains_def)
  from deletion_not_blocked_by_core [OF egress_env_laws(3) this surjective_pairing,
      where R = egress_reconciler and t = "egress_start None"]
  show ?thesis by (fastforce simp: target_resolves)
qed

end
