(* ===== verification/EgressWatch.thy ===== *)
theory EgressWatch
  imports EgressPolicy
begin

text \<open>
  \<open>mcpegresspolicy_membership.go\<close> and \<open>mcpegresspolicy_gateway.go\<close>: which policies an
  event reconciles.  A change of an MCPServer or a group reaches the policies that
  target it, evaluating each group once per event; a gateway pod that becomes Ready
  reaches every policy.  The group evaluation with its cache is related to the plain
  filter it stands for.  A request is the key of a policy: namespace and name.
\<close>

section \<open>Membership\<close>

definition policy_key :: "egress_policy \<Rightarrow> string \<times> string" where
  "policy_key p = (p_ns p, p_name p)"

definition group_selects :: "'e klib_scheme \<Rightarrow> labels \<Rightarrow> gerr + server_group \<Rightarrow> bool" where
  "group_selects L ls r = (case r of
     Inl e \<Rightarrow> False
   | Inr g \<Rightarrow> (case gsp_selector (g_spec g) of
       None \<Rightarrow> False
     | Some sel \<Rightarrow> (case selector_error L sel of Some e \<Rightarrow> False | None \<Rightarrow> selector_matches L sel ls)))"

text \<open>\<open>selects\<close>: the group is read and evaluated once, then remembered.\<close>
definition selects ::
  "'e env_scheme \<Rightarrow> mcp_server \<Rightarrow> (string \<times> bool) list \<Rightarrow> string \<Rightarrow> (bool \<times> (string \<times> bool) list) pol" where
  "selects E s memo g = (case map_of memo g of
     Some matched \<Rightarrow> ret (matched, memo)
   | None \<Rightarrow> do {
       r \<leftarrow> fetch GroupKind (get_group E) (s_ns s) g;
       (let matched = group_selects E (m_labels (s_meta s)) r in ret (matched, (g, matched) # memo)) })"

definition target_kind :: "egress_policy \<Rightarrow> string" where "target_kind p = tr_kind (ps_target (p_spec p))"
definition target_name :: "egress_policy \<Rightarrow> string" where "target_name p = tr_name (ps_target (p_spec p))"

text \<open>The loop over the policies of the namespace.\<close>
fun map_policies ::
  "'e env_scheme \<Rightarrow> mcp_server \<Rightarrow> (string \<times> bool) list \<Rightarrow> egress_policy list \<Rightarrow> (string \<times> string) list pol" where
  "map_policies E s memo [] = ret []"
| "map_policies E s memo (p # ps) =
     (if target_kind p = ''MCPServer'' then
        (if target_name p \<noteq> s_name s then map_policies E s memo ps
         else do { ks \<leftarrow> map_policies E s memo ps; ret (policy_key p # ks) })
      else if target_kind p = ''MCPServerGroup'' then do {
        r \<leftarrow> selects E s memo (target_name p);
        (if \<not> fst r then map_policies E s (snd r) ps
         else do { ks \<leftarrow> map_policies E s (snd r) ps; ret (policy_key p # ks) }) }
      else map_policies E s memo ps)"

definition policiesForMCPServer :: "'e env_scheme \<Rightarrow> mcp_server \<Rightarrow> (string \<times> string) list pol" where
  "policiesForMCPServer E s = do {
     r \<leftarrow> fetch_list PolicyKind (list_policies E) (s_ns s) None;
     (case r of Inl e \<Rightarrow> ret [] | Inr ps \<Rightarrow> map_policies E s [] ps) }"

definition policiesForMCPServerGroup :: "'e env_scheme \<Rightarrow> server_group \<Rightarrow> (string \<times> string) list pol" where
  "policiesForMCPServerGroup E g = do {
     r \<leftarrow> fetch_list PolicyKind (list_policies E) (g_ns g) None;
     ret (case r of Inl e \<Rightarrow> []
        | Inr ps \<Rightarrow> map policy_key (filter (\<lambda>p. \<not> (target_kind p \<noteq> ''MCPServerGroup'' \<or> target_name p \<noteq> g_name g)) ps)) }"

section \<open>The gateway\<close>

definition DefaultGatewayPodSelector :: string where
  "DefaultGatewayPodSelector = ''app.kubernetes.io/name=mcp-hangar''"

definition podIsReady :: "pod \<Rightarrow> bool" where
  "podIsReady p = (case List.find (\<lambda>c. fst c = ''Ready'') (pod_conditions p) of
     Some c \<Rightarrow> snd c = CondTrue | None \<Rightarrow> False)"

text \<open>What the watch delivers: the old object of an update may not be a pod.\<close>
datatype pod_event = PodCreated pod | PodUpdated "pod option" pod | PodDeleted pod | PodGeneric pod

definition gateway_matches :: "'e klib_scheme \<Rightarrow> label_selector option \<Rightarrow> pod \<Rightarrow> bool" where
  "gateway_matches L sel p = (case sel of None \<Rightarrow> False | Some s \<Rightarrow> selector_matches L s (m_labels (pod_meta p)))"

definition gatewayPodBecameReady :: "'e klib_scheme \<Rightarrow> label_selector option \<Rightarrow> pod_event \<Rightarrow> bool" where
  "gatewayPodBecameReady L sel e = (case e of
     PodCreated p \<Rightarrow> gateway_matches L sel p \<and> podIsReady p
   | PodUpdated old p \<Rightarrow>
       (if \<not> gateway_matches L sel p \<or> \<not> podIsReady p then False
        else (case old of None \<Rightarrow> True | Some o' \<Rightarrow> \<not> podIsReady o'))
   | PodDeleted p \<Rightarrow> False
   | PodGeneric p \<Rightarrow> False)"

definition policiesForGatewayPod :: "'e env_scheme \<Rightarrow> (string \<times> string) list pol" where
  "policiesForGatewayPod E = do {
     r \<leftarrow> fetch_list PolicyKind (list_policies E) [] None;
     ret (case r of Inl e \<Rightarrow> [] | Inr ps \<Rightarrow> map policy_key ps) }"

text \<open>\<open>gatewayPodHandler\<close>: the requests an event that passed the predicate adds.\<close>
definition gatewayPodHandler :: "'e env_scheme \<Rightarrow> pod_event \<Rightarrow> (string \<times> string) list pol" where
  "gatewayPodHandler E e = (case e of
     PodCreated p \<Rightarrow> policiesForGatewayPod E
   | PodUpdated old p \<Rightarrow> policiesForGatewayPod E
   | PodDeleted p \<Rightarrow> ret []
   | PodGeneric p \<Rightarrow> ret [])"

section \<open>Facts\<close>

text \<open>The policies a change of the server concerns, by the groups as \<open>grp\<close> answers.\<close>
definition concerns :: "'e klib_scheme \<Rightarrow> (string \<Rightarrow> gerr + server_group) \<Rightarrow> mcp_server \<Rightarrow> egress_policy \<Rightarrow> bool" where
  "concerns L grp s p =
     (target_kind p = ''MCPServer'' \<and> target_name p = s_name s
      \<or> target_kind p = ''MCPServerGroup'' \<and> group_selects L (m_labels (s_meta s)) (grp (target_name p)))"

text \<open>The groups read, each once, in the order of the policies.\<close>
definition groups_read :: "(string \<times> bool) list \<Rightarrow> egress_policy list \<Rightarrow> string list" where
  "groups_read memo ps = dedup (map fst memo)
     (map target_name (filter (\<lambda>p. target_kind p = ''MCPServerGroup'') ps))"

lemma map_policies_run:
  assumes "\<And>l g. get_group E l (s_ns s) g = grp g"
    and "\<And>g b. map_of memo g = Some b \<Longrightarrow> b = group_selects E (m_labels (s_meta s)) (grp g)"
  shows "run_state (map_policies E s memo ps) t =
    (map policy_key (filter (concerns E grp s) ps),
     t\<lparr>st_log := st_log t @ map (ReadObj GroupKind (s_ns s)) (groups_read memo ps)\<rparr>)"
  using assms(2)
proof (induction ps arbitrary: memo t)
  case (Cons p ps)
  show ?case
  proof (cases "target_kind p = ''MCPServerGroup''")
    case True
    show ?thesis
    proof (cases "map_of memo (target_name p)")
      case None
      let ?b = "group_selects E (m_labels (s_meta s)) (grp (target_name p))"
      have fresh: "target_name p \<notin> fst ` set memo" using None by (simp add: map_of_eq_None_iff)
      have memo: "map_of ((target_name p, ?b) # memo) g = Some b \<Longrightarrow> b = group_selects E (m_labels (s_meta s)) (grp g)"
        for g b using Cons.prems by (auto split: if_splits)
      note IH = Cons.IH [of "(target_name p, ?b) # memo", OF memo]
      show ?thesis
        by (cases ?b) (use IH True None fresh in \<open>simp_all add: selects_def run_bind assms(1) concerns_def groups_read_def\<close>)
    next
      case (Some b)
      have seen: "target_name p \<in> fst ` set memo" using Some by (metis domI dom_map_of_conv_image_fst)
      show ?thesis using True Some seen Cons.prems [OF Some]
        by (simp add: selects_def run_bind Cons.IH [OF Cons.prems] concerns_def groups_read_def)
    qed
  qed (use Cons.IH [OF Cons.prems] in \<open>auto simp: concerns_def groups_read_def run_bind\<close>)
qed (simp add: groups_read_def)

section \<open>Properties\<close>

text \<open>C13 A change of a server reconciles exactly the policies that target it: while the
  groups do not change during the event, the requests are, in order, the policies of
  its namespace that name the server or a group whose selector matches its labels,
  and each such group is read once.\<close>
theorem watch_reaches_targets:
  assumes "\<And>l g. get_group E l (s_ns s) g = grp g" and "list_policies E (st_log t) (s_ns s) None = Inr ps"
  shows "run_state (policiesForMCPServer E s) t =
    (map policy_key (filter (concerns E grp s) ps),
     t\<lparr>st_log := st_log t @ ListObjs PolicyKind (s_ns s) None # map (ReadObj GroupKind (s_ns s)) (groups_read [] ps)\<rparr>)"
  using map_policies_run [of E s grp "[]" ps, OF assms(1)] assms(2)
  by (simp add: policiesForMCPServer_def run_bind)

text \<open>A gateway pod that becomes Ready reaches every policy, and only then.\<close>
lemma ready_gateway_reaches_all:
  assumes "list_policies E (st_log t) [] None = Inr ps"
  shows "fst (run_state (gatewayPodHandler E (PodUpdated old p)) t) = map policy_key ps"
    "gatewayPodBecameReady L (Some sel) (PodUpdated (Some q) p) \<longleftrightarrow>
       selector_matches L sel (m_labels (pod_meta p)) \<and> podIsReady p \<and> \<not> podIsReady q"
  using assms by (auto simp: gatewayPodHandler_def policiesForGatewayPod_def run_bind gatewayPodBecameReady_def
      gateway_matches_def)

section \<open>A concrete event\<close>

text \<open>Two policies of one group, one of the server and one of another.\<close>
definition watched :: "string \<Rightarrow> string \<Rightarrow> string \<Rightarrow> egress_policy" where
  "watched n kd tn = \<lparr>p_meta = empty_meta\<lparr>m_name := n, m_namespace := ''n''\<rparr>,
     p_spec = \<lparr>ps_mode = Audit, ps_target = \<lparr>tr_kind = kd, tr_name = tn\<rparr>, ps_default = Deny, ps_upstreams = [],
       ps_backstop = None\<rparr>,
     p_status = \<lparr>pst_observed = 0, pst_enforcement = BackstopUnset, pst_conditions = []\<rparr>\<rparr>"

definition some_group :: server_group where
  "some_group = \<lparr>g_meta = empty_meta, g_spec = \<lparr>gsp_selector = Some (match_labels []), gsp_health = None\<rparr>,
     g_status = \<lparr>gs_count = 0, gs_ready = 0, gs_degraded = 0, gs_cold = 0, gs_initializing = 0, gs_dead = 0,
       gs_providers = [], gs_observed = 0, gs_conditions = []\<rparr>\<rparr>"

definition watch_env :: env where
  "watch_env = std_env\<lparr>get_group := (\<lambda>l ns n. Inr some_group), list_policies := (\<lambda>l ns sel. Inr
     [watched ''a'' ''MCPServerGroup'' ''g'', watched ''b'' ''MCPServer'' ''s'', watched ''c'' ''MCPServer'' ''x'',
      watched ''d'' ''MCPServerGroup'' ''g''])\<rparr>"

definition watch_start :: "(egress_policy, policy_status, kept) st" where
  "watch_start = \<lparr>st_obj = watched [] [] [], st_base = None, st_kept = nothing_kept, st_log = []\<rparr>"

theorem watch_reaches_targets_witness:
  "run_state (policiesForMCPServer watch_env (demo_container ''i'')) watch_start =
     ([(''n'', ''a''), (''n'', ''b''), (''n'', ''d'')],
      watch_start\<lparr>st_log := [ListObjs PolicyKind ''n'' None, ReadObj GroupKind ''n'' ''g'']\<rparr>)"
  using watch_reaches_targets [of watch_env "demo_container ''i''" "\<lambda>g. Inr some_group" watch_start]
  by (simp add: watch_env_def watch_start_def demo_container_def zero_server_def empty_meta_def watched_def concerns_def
      target_kind_def target_name_def policy_key_def groups_read_def group_selects_def some_group_def match_labels_def
      std_env_eqs)

end
