(* ===== verification/ServerGroup.thy ===== *)
theory ServerGroup
  imports Registration
begin

text \<open>
  \<open>internal/controller/mcpservergroup_controller.go\<close>: the reconciler of an
  MCPServerGroup.  It selects the MCPServers of the group by label, counts them by state,
  derives the conditions and writes the status when it changed.  \<open>g\<close> is the group as
  read (\<open>original\<close>); the state holds the group being changed.  Shown here: the status is
  the aggregate of the members that were listed, and a reconcile of a group that
  already says so writes nothing, so that the controller does not wake itself forever.
\<close>

section \<open>The reconciler\<close>

type_synonym 'a grp = "(server_group, group_status, 'a) prog"

definition upd_gstatus :: "(group_status \<Rightarrow> group_status) \<Rightarrow> unit grp" where
  "upd_gstatus f = upd_obj (\<lambda>g. g\<lparr>g_status := f (g_status g)\<rparr>)"

definition setGroupCondition :: "'e env_scheme \<Rightarrow> string \<Rightarrow> cond_status \<Rightarrow> string \<Rightarrow> string \<Rightarrow> unit grp" where
  "setGroupCondition E ty status reason msg = do {
     t \<leftarrow> now E;
     upd_obj (\<lambda>g. g\<lparr>g_status := (g_status g)\<lparr>gs_conditions :=
       upsertCondition E t (gs_conditions (g_status g)) (m_generation (g_meta g)) ty status reason msg\<rparr>\<rparr>) }"

definition is_conflict :: "gerr \<Rightarrow> bool" where
  "is_conflict e = (case err_cause e of Conflict _ \<Rightarrow> True | _ \<Rightarrow> False)"

definition write_metric :: "server_group \<Rightarrow> string \<Rightarrow> unit grp" where
  "write_metric g result = emit (Metric ''group_status_write_total'' [g_ns g, g_name g, result])"

text \<open>\<open>updateStatus\<close>: the patch carries the resource version of \<open>original\<close>, so the API
  server refuses it when the group changed since it was read.\<close>
definition updateStatus :: "'e env_scheme \<Rightarrow> server_group \<Rightarrow> gerr option grp" where
  "updateStatus E original = do {
     g \<leftarrow> the_obj;
     (if g_status original = g_status g then do { write_metric g ''skipped''; ret None }
      else do {
        x \<leftarrow> perform E (StatusPatch (KGroup g));
        (case x of
           Some e \<Rightarrow> do { write_metric g (if is_conflict e then ''conflict'' else ''error''); ret (Some e) }
         | None \<Rightarrow> do { write_metric g ''success''; ret None }) }) }"

section \<open>Counting\<close>

text \<open>The counters are int32, the members a list.\<close>
record tally =
  ta_ready :: int
  ta_degraded :: int
  ta_cold :: int
  ta_initializing :: int
  ta_dead :: int
  ta_members :: "member_status list"

definition tally_start :: tally where
  "tally_start = \<lparr>ta_ready = 0, ta_degraded = 0, ta_cold = 0, ta_initializing = 0, ta_dead = 0, ta_members = []\<rparr>"

definition member_of :: "mcp_server \<Rightarrow> member_status" where
  "member_of s = \<lparr>ms_name = s_name s, ms_namespace = s_ns s, ms_state = state_name (ss_state (s_status s))\<rparr>"

definition tally_member :: "tally \<Rightarrow> mcp_server \<Rightarrow> tally" where
  "tally_member a s = (let a = a\<lparr>ta_members := ta_members a @ [member_of s]\<rparr> in
     case ss_state (s_status s) of
       Ready \<Rightarrow> a\<lparr>ta_ready := to_i32 (ta_ready a + 1)\<rparr>
     | Degraded \<Rightarrow> a\<lparr>ta_degraded := to_i32 (ta_degraded a + 1)\<rparr>
     | Cold \<Rightarrow> a\<lparr>ta_cold := to_i32 (ta_cold a + 1)\<rparr>
     | Dead \<Rightarrow> a\<lparr>ta_dead := to_i32 (ta_dead a + 1)\<rparr>
     | _ \<Rightarrow> a\<lparr>ta_initializing := to_i32 (ta_initializing a + 1)\<rparr>)"

definition tally_members :: "mcp_server list \<Rightarrow> tally" where
  "tally_members ps = foldl tally_member tally_start ps"

definition set_counts :: "mcp_server list \<Rightarrow> group_status \<Rightarrow> group_status" where
  "set_counts ps st = (let a = tally_members ps in
     st\<lparr>gs_count := to_i32 (int (length ps)), gs_ready := ta_ready a, gs_degraded := ta_degraded a,
        gs_cold := ta_cold a, gs_initializing := ta_initializing a, gs_dead := ta_dead a,
        gs_providers := ta_members a\<rparr>)"

section \<open>Conditions\<close>

definition msg_no_members :: string where "msg_no_members = ''No providers match selector''"

definition msg_unhealthy :: "group_status \<Rightarrow> string" where
  "msg_unhealthy st = itoa (to_i32 (gs_degraded st + gs_dead st)) @ '' provider(s) unhealthy (''
     @ itoa (gs_degraded st) @ '' degraded, '' @ itoa (gs_dead st) @ '' dead)''"

definition evaluateConditions :: "'e env_scheme \<Rightarrow> unit grp" where
  "evaluateConditions E = do {
     g \<leftarrow> the_obj;
     (let st = g_status g in
      if gs_count st = 0 then do {
        setGroupCondition E ConditionReady CondUnknown ''NoProviders'' msg_no_members;
        setGroupCondition E ConditionAvailable CondFalse ''NoProviders'' msg_no_members;
        setGroupCondition E ConditionDegraded CondFalse ''NoProviders'' msg_no_members }
      else do {
        (if gs_ready st > 0
         then setGroupCondition E ConditionAvailable CondTrue ''ProvidersAvailable''
           (itoa (gs_ready st) @ '' provider(s) available'')
         else setGroupCondition E ConditionAvailable CondFalse ''NoReadyProviders'' ''No ready providers'');
        (if IsHealthy st (gsp_health (g_spec g))
         then setGroupCondition E ConditionReady CondTrue ''HealthyThresholdMet''
           (itoa (gs_ready st) @ ''/'' @ itoa (gs_count st) @ '' providers ready'')
         else setGroupCondition E ConditionReady CondFalse ''HealthyThresholdNotMet''
           (itoa (gs_ready st) @ ''/'' @ itoa (gs_count st) @ '' providers ready, threshold not met''));
        (if to_i32 (gs_degraded st + gs_dead st) > 0
         then setGroupCondition E ConditionDegraded CondTrue ''UnhealthyProviders'' (msg_unhealthy st)
         else setGroupCondition E ConditionDegraded CondFalse ''AllHealthy'' ''All providers healthy'') }) }"

section \<open>Reconcile\<close>

definition group_metrics :: "server_group \<Rightarrow> unit grp" where
  "group_metrics g = for_each (\<lambda>x. emit (Metric ''group_provider_count'' [g_ns g, g_name g, x]))
     [''Ready'', ''Degraded'', ''Cold'', ''Initializing'', ''Dead'']"

definition ClearGroupMetrics :: "string \<Rightarrow> string \<Rightarrow> unit grp" where
  "ClearGroupMetrics ns n = emit (Metric ''clear_group_metrics'' [ns, n])"

definition group_reconcileNormal :: "'e env_scheme \<Rightarrow> server_group \<Rightarrow> outcome grp" where
  "group_reconcileNormal E original = do {
     upd_obj (\<lambda>g. g\<lparr>g_status := (g_status g)\<lparr>gs_observed := m_generation (g_meta g)\<rparr>\<rparr>);
     (case gsp_selector (g_spec original) of
        None \<Rightarrow> do {
          setGroupCondition E ConditionReady CondUnknown ''NoSelector'' ''No label selector defined'';
          x \<leftarrow> updateStatus E original;
          ret (0, x) }
      | Some sel \<Rightarrow>
         (case selector_error E sel of
            Some e \<Rightarrow> do {
              setGroupCondition E ConditionReady CondFalse ''InvalidSelector''
                (''Invalid label selector: '' @ err_text e);
              x \<leftarrow> updateStatus E original;
              ret (0, x) }
          | None \<Rightarrow> do {
              r \<leftarrow> fetch_list ServerKind (list_servers E) (g_ns original) (Some sel);
              (case r of
                 Inl e \<Rightarrow> ret (errorRequeueAfter, Some e)
               | Inr ps \<Rightarrow> do {
                   upd_gstatus (set_counts ps);
                   evaluateConditions E;
                   group_metrics original;
                   x \<leftarrow> updateStatus E original;
                   ret (case x of Some e \<Rightarrow> (0, Some e) | None \<Rightarrow> (readyRequeueAfter, None)) }) })) }"

definition group_Reconcile :: "'e env_scheme \<Rightarrow> string \<Rightarrow> string \<Rightarrow> outcome grp" where
  "group_Reconcile E ns n = do {
     r \<leftarrow> fetch GroupKind (get_group E) ns n;
     (case r of
        Inl e \<Rightarrow> (if is_not_found e then do { ClearGroupMetrics ns n; ret (0, None) } else ret (0, Some e))
      | Inr g \<Rightarrow> do {
          upd_obj (\<lambda>_. g);
          (if contains_finalizer E (m_finalizers (g_meta g)) finalizerName then (
             let g' = g\<lparr>g_meta := (g_meta g)\<lparr>m_finalizers := remove_finalizer E (m_finalizers (g_meta g)) finalizerName\<rparr>\<rparr> in do {
               upd_obj (\<lambda>_. g');
               x \<leftarrow> perform E (Update (KGroup g'));
               (case x of
                  Some e \<Rightarrow> ret (0, Some e)
                | None \<Rightarrow> (if m_deletion (g_meta g') \<noteq> None then ret (0, None) else group_reconcileNormal E g')) })
           else (if m_deletion (g_meta g) \<noteq> None then ret (0, None) else group_reconcileNormal E g)) }) }"

section \<open>What wakes it\<close>

definition group_matches :: "'e klib_scheme \<Rightarrow> labels \<Rightarrow> server_group \<Rightarrow> bool" where
  "group_matches L ls g = (case gsp_selector (g_spec g) of
     None \<Rightarrow> False
   | Some sel \<Rightarrow> (case selector_error L sel of Some e \<Rightarrow> False | None \<Rightarrow> selector_matches L sel ls))"

definition findGroupsForMCPServer :: "'e env_scheme \<Rightarrow> mcp_server \<Rightarrow> (string \<times> string) list grp" where
  "findGroupsForMCPServer E s = do {
     r \<leftarrow> fetch_list GroupKind (list_groups E) (s_ns s) None;
     ret (case r of
        Inl e \<Rightarrow> []
      | Inr gs \<Rightarrow> map (\<lambda>g. (g_ns g, g_name g)) (filter (group_matches E (m_labels (s_meta s))) gs)) }"

text \<open>The watch on the group itself.  \<open>gen\<close> is \<open>GenerationChangedPredicate\<close> of the
  library; the second predicate passes everything but an update of a live group.\<close>
datatype group_event = GroupCreated server_group | GroupUpdated server_group server_group | GroupDeleted server_group

definition groupSelfWatchPredicate :: "(group_event \<Rightarrow> bool) \<Rightarrow> group_event \<Rightarrow> bool" where
  "groupSelfWatchPredicate gen e = (gen e
     \<or> (case e of GroupUpdated old new \<Rightarrow> m_deletion (g_meta new) \<noteq> None | _ \<Rightarrow> True))"

section \<open>Facts\<close>

subsection \<open>Counting\<close>

definition in_state :: "server_state \<Rightarrow> mcp_server list \<Rightarrow> int" where
  "in_state x ps = int (length (filter (\<lambda>p. ss_state (s_status p) = x) ps))"

lemma tally_snoc: "tally_members (ps @ [p]) = tally_member (tally_members ps) p"
  by (simp add: tally_members_def)

lemma in_state_snoc: "in_state x (ps @ [p]) = in_state x ps + (if ss_state (s_status p) = x then 1 else 0)"
  by (simp add: in_state_def)

text \<open>Each counter is the number of members in its state, as an int32.\<close>
lemma tally_counts:
  "ta_ready (tally_members ps) = to_i32 (in_state Ready ps)"
  "ta_degraded (tally_members ps) = to_i32 (in_state Degraded ps)"
  "ta_cold (tally_members ps) = to_i32 (in_state Cold ps)"
  "ta_dead (tally_members ps) = to_i32 (in_state Dead ps)"
  "ta_initializing (tally_members ps) = to_i32 (in_state StateUnset ps + in_state Initializing ps)"
  "ta_members (tally_members ps) = map member_of ps"
proof (induction ps rule: rev_induct)
  case (snoc p ps)
  { case 1 show ?case using snoc by (cases "ss_state (s_status p)") (simp_all add: tally_snoc in_state_snoc tally_member_def) }
  { case 2 show ?case using snoc by (cases "ss_state (s_status p)") (simp_all add: tally_snoc in_state_snoc tally_member_def) }
  { case 3 show ?case using snoc by (cases "ss_state (s_status p)") (simp_all add: tally_snoc in_state_snoc tally_member_def) }
  { case 4 show ?case using snoc by (cases "ss_state (s_status p)") (simp_all add: tally_snoc in_state_snoc tally_member_def) }
  { case 5 show ?case using snoc
      by (cases "ss_state (s_status p)") (simp_all add: tally_snoc in_state_snoc tally_member_def ac_simps) }
  { case 6 show ?case using snoc by (cases "ss_state (s_status p)") (simp_all add: tally_snoc tally_member_def) }
qed (simp_all add: tally_members_def tally_start_def in_state_def to_i32_def)

lemma in_state_sum:
  "in_state Ready ps + in_state Degraded ps + in_state Cold ps + in_state Dead ps
     + (in_state StateUnset ps + in_state Initializing ps) = int (length ps)"
proof (induction ps)
  case (Cons p ps)
  then show ?case by (cases "ss_state (s_status p)") (simp_all add: in_state_def)
qed (simp add: in_state_def)

subsection \<open>What is written\<close>

definition gcond :: "server_group \<Rightarrow> string \<Rightarrow> cond_status \<Rightarrow> string \<Rightarrow> string \<Rightarrow> condition" where
  "gcond g ty status reason msg = \<lparr>c_type = ty, c_status = status, c_reason = reason, c_message = msg,
     c_generation = m_generation (g_meta g), c_transition = 0\<rparr>"

text \<open>The conditions the counts of a group call for, in the order they are set.\<close>
definition group_conditions :: "server_group \<Rightarrow> condition list" where
  "group_conditions g = (let st = g_status g in
     if gs_count st = 0 then
       [gcond g ConditionReady CondUnknown ''NoProviders'' msg_no_members,
        gcond g ConditionAvailable CondFalse ''NoProviders'' msg_no_members,
        gcond g ConditionDegraded CondFalse ''NoProviders'' msg_no_members]
     else
       [(if gs_ready st > 0
         then gcond g ConditionAvailable CondTrue ''ProvidersAvailable'' (itoa (gs_ready st) @ '' provider(s) available'')
         else gcond g ConditionAvailable CondFalse ''NoReadyProviders'' ''No ready providers''),
        (if IsHealthy st (gsp_health (g_spec g))
         then gcond g ConditionReady CondTrue ''HealthyThresholdMet''
           (itoa (gs_ready st) @ ''/'' @ itoa (gs_count st) @ '' providers ready'')
         else gcond g ConditionReady CondFalse ''HealthyThresholdNotMet''
           (itoa (gs_ready st) @ ''/'' @ itoa (gs_count st) @ '' providers ready, threshold not met'')),
        (if to_i32 (gs_degraded st + gs_dead st) > 0
         then gcond g ConditionDegraded CondTrue ''UnhealthyProviders'' (msg_unhealthy st)
         else gcond g ConditionDegraded CondFalse ''AllHealthy'' ''All providers healthy'')])"

definition with_conditions :: "'e env_scheme \<Rightarrow> int \<Rightarrow> server_group \<Rightarrow> condition list \<Rightarrow> server_group" where
  "with_conditions E t g cs =
     g\<lparr>g_status := (g_status g)\<lparr>gs_conditions := foldl (set_condition E t) (gs_conditions (g_status g)) cs\<rparr>\<rparr>"

lemma run_setGroupCondition:
  "reason \<noteq> [] \<Longrightarrow> run_state (setGroupCondition E ty status reason msg) s =
     ((), s\<lparr>st_obj := with_conditions E (clock E (st_log s)) (st_obj s) [gcond (st_obj s) ty status reason msg]\<rparr>)"
  by (simp add: setGroupCondition_def run_bind upsertCondition_def with_conditions_def gcond_def)

lemma with_conditions_simps [simp]:
  "gcond (with_conditions E t g cs) = gcond g" "g_meta (with_conditions E t g cs) = g_meta g"
  "g_spec (with_conditions E t g cs) = g_spec g"
  "gs_conditions (g_status (with_conditions E t g cs)) = foldl (set_condition E t) (gs_conditions (g_status g)) cs"
  "with_conditions E t (with_conditions E t g cs) ds = with_conditions E t g (cs @ ds)"
  by (simp_all add: with_conditions_def gcond_def fun_eq_iff)

lemma run_evaluate: "run_state (evaluateConditions E) s =
    ((), s\<lparr>st_obj := with_conditions E (clock E (st_log s)) (st_obj s) (group_conditions (st_obj s))\<rparr>)"
  by (simp add: evaluateConditions_def run_bind run_setGroupCondition Let_def group_conditions_def
      split del: if_split) (simp add: run_setGroupCondition)

lemma group_conditions_distinct: "distinct (map c_type (group_conditions g))"
  by (simp add: group_conditions_def Let_def gcond_def ConditionReady_def ConditionAvailable_def ConditionDegraded_def)

text \<open>The status a reconcile ends with, by what it found: no selector, a bad one, or the
  members \<open>ps\<close>.\<close>
definition group_found :: "'e env_scheme \<Rightarrow> server_group \<Rightarrow> mcp_server list \<Rightarrow> server_group \<times> condition list" where
  "group_found E g ps = (let g1 = g\<lparr>g_status := (g_status g)\<lparr>gs_observed := m_generation (g_meta g)\<rparr>\<rparr> in
     case gsp_selector (g_spec g) of
       None \<Rightarrow> (g1, [gcond g ConditionReady CondUnknown ''NoSelector'' ''No label selector defined''])
     | Some sel \<Rightarrow> (case selector_error E sel of
         Some e \<Rightarrow> (g1, [gcond g ConditionReady CondFalse ''InvalidSelector'' (''Invalid label selector: '' @ err_text e)])
       | None \<Rightarrow> (let g2 = g1\<lparr>g_status := set_counts ps (g_status g1)\<rparr> in (g2, group_conditions g2))))"

definition group_next :: "'e env_scheme \<Rightarrow> int \<Rightarrow> server_group \<Rightarrow> mcp_server list \<Rightarrow> server_group" where
  "group_next E t g ps = (case group_found E g ps of (g', cs) \<Rightarrow> with_conditions E t g' cs)"

lemma group_found_distinct: "distinct (map c_type (snd (group_found E g ps)))"
  by (simp add: group_found_def Let_def group_conditions_distinct split: option.split)

lemma group_found_conditions:
  "group_found E (with_conditions E t g cs) ps = (case group_found E g ps of (g', ds) \<Rightarrow> (with_conditions E t g' cs, ds))"
  by (simp add: group_found_def Let_def with_conditions_def gcond_def group_conditions_def set_counts_def IsHealthy_def
      msg_unhealthy_def split: option.split)

lemma group_found_again:
  "group_found E (fst (group_found E g ps)) ps = group_found E g ps"
  by (simp add: group_found_def Let_def gcond_def set_counts_def group_conditions_def split: option.split)

text \<open>A group that was reconciled with these members is where reconciling leads to.\<close>
lemma group_next_again:
  assumes "lib_cond_store E"
  shows "group_next E t' (group_next E t g ps) ps = group_next E t g ps"
proof -
  obtain g' cs where f: "group_found E g ps = (g', cs)" by fastforce
  have g': "group_found E g' ps = (g', cs)" using group_found_again [of E g ps] f by simp
  have "says E (foldl (set_condition E t) l cs) c" if "c \<in> set cs" for l c
    using says_fold [OF lib_cond_store_conds [OF assms] _ that] group_found_distinct [of E g ps] f by simp
  then have "foldl (set_condition E t') (foldl (set_condition E t) l cs) cs = foldl (set_condition E t) l cs" for l
    by (rule says_fold_same [OF assms])
  then show ?thesis using g'
    by (simp add: group_next_def f group_found_conditions) (simp add: with_conditions_def)
qed

text \<open>Whether the members could be listed, when they are asked for.\<close>
definition members_found :: "'e env_scheme \<Rightarrow> server_group \<Rightarrow> history \<Rightarrow> mcp_server list \<Rightarrow> bool" where
  "members_found E g l ps = (case gsp_selector (g_spec g) of
     None \<Rightarrow> True
   | Some sel \<Rightarrow> (case selector_error E sel of
       Some e \<Rightarrow> True | None \<Rightarrow> list_servers E l (g_ns g) (Some sel) = Inr ps))"

text \<open>What a reconcile logs before it writes.\<close>
definition group_reads :: "'e env_scheme \<Rightarrow> server_group \<Rightarrow> history" where
  "group_reads E g = (case gsp_selector (g_spec g) of
     None \<Rightarrow> []
   | Some sel \<Rightarrow> (case selector_error E sel of
       Some e \<Rightarrow> []
     | None \<Rightarrow> ListObjs ServerKind (g_ns g) (Some sel)
         # map (\<lambda>x. Metric ''group_provider_count'' [g_ns g, g_name g, x])
             [''Ready'', ''Degraded'', ''Cold'', ''Initializing'', ''Dead'']))"

definition group_write :: "'e env_scheme \<Rightarrow> server_group \<Rightarrow> server_group \<Rightarrow> history \<Rightarrow> gerr option \<times> history" where
  "group_write E g g' l =
     (if g_status g = g_status g' then (None, [Metric ''group_status_write_total'' [g_ns g', g_name g', ''skipped'']])
      else (let x = write_result E l (StatusPatch (KGroup g')) in
        (x, [StatusPatch (KGroup g'), Metric ''group_status_write_total''
          [g_ns g', g_name g', (case x of None \<Rightarrow> ''success'' | Some e \<Rightarrow> (if is_conflict e then ''conflict'' else ''error''))]])))"

lemma run_updateStatus: "run_state (updateStatus E g) s =
    (fst (group_write E g (st_obj s) (st_log s)), s\<lparr>st_log := st_log s @ snd (group_write E g (st_obj s) (st_log s))\<rparr>)"
  by (simp add: updateStatus_def run_bind write_metric_def group_write_def Let_def split: option.split)

lemma run_group_metrics: "run_state (group_metrics g) s = ((), s\<lparr>st_log := st_log s
    @ map (\<lambda>x. Metric ''group_provider_count'' [g_ns g, g_name g, x])
        [''Ready'', ''Degraded'', ''Cold'', ''Initializing'', ''Dead'']\<rparr>)"
  by (simp add: group_metrics_def run_bind)

text \<open>A reconcile that finds its members ends in \<open>group_next\<close> and writes it when it differs.\<close>
lemma run_group:
  assumes "st_obj s = g" "members_found E g (st_log s) ps"
    and "run_state (group_reconcileNormal E g) s = (r, s')"
  shows "\<exists>t. let g' = group_next E t g ps; l = st_log s @ group_reads E g in
    st_obj s' = g' \<and> st_log s' = l @ snd (group_write E g g' l) \<and> snd r = fst (group_write E g g' l)"
proof -
  let ?l = "st_log s @ take 1 (group_reads E g)"
  show ?thesis
    by (rule exI [of _ "clock E ?l"])
      (use assms in \<open>auto simp: group_reconcileNormal_def run_bind run_setGroupCondition run_updateStatus
        run_evaluate run_group_metrics upd_gstatus_def group_next_def group_found_def group_reads_def members_found_def
        Let_def gcond_def split: option.splits\<close>)
qed

text \<open>When the members cannot be listed nothing is written.\<close>
lemma run_group_unlisted:
  assumes "st_obj s = g" "gsp_selector (g_spec g) = Some sel" "selector_error E sel = None"
    and "list_servers E (st_log s) (g_ns g) (Some sel) = Inl e"
    and "run_state (group_reconcileNormal E g) s = (r, s')"
  shows "r = (errorRequeueAfter, Some e) \<and> st_log s' = st_log s @ [ListObjs ServerKind (g_ns g) (Some sel)]"
  using assms by (auto simp: group_reconcileNormal_def run_bind)

lemma in_state_bounds: "0 \<le> in_state x ps" "in_state x ps \<le> int (length ps)"
  by (simp_all add: in_state_def)

text \<open>The counts, when nothing wraps.\<close>
lemma counts_exact:
  assumes "int (length ps) < 2 ^ 31"
  shows "gs_count (set_counts ps st) = int (length ps)" "gs_ready (set_counts ps st) = in_state Ready ps"
    "gs_degraded (set_counts ps st) = in_state Degraded ps" "gs_cold (set_counts ps st) = in_state Cold ps"
    "gs_dead (set_counts ps st) = in_state Dead ps" "gs_providers (set_counts ps st) = map member_of ps"
    "gs_initializing (set_counts ps st) = in_state StateUnset ps + in_state Initializing ps"
    "to_i32 (gs_degraded (set_counts ps st) + gs_dead (set_counts ps st)) = in_state Degraded ps + in_state Dead ps"
proof -
  have i: "to_i32 x = x" if "0 \<le> x" "x \<le> int (length ps)" for x
    using that assms by (intro to_i32_id) (simp add: is_i32_def)
  note b = in_state_bounds(1) [of Ready ps] in_state_bounds(1) [of Degraded ps] in_state_bounds(1) [of Cold ps]
    in_state_bounds(1) [of Dead ps] in_state_bounds(1) [of StateUnset ps] in_state_bounds(1) [of Initializing ps]
  have s: "in_state Degraded ps + in_state Dead ps \<le> int (length ps)"
    "in_state StateUnset ps + in_state Initializing ps \<le> int (length ps)"
    using in_state_sum [of ps] b by linarith+
  show "gs_count (set_counts ps st) = int (length ps)" "gs_ready (set_counts ps st) = in_state Ready ps"
    and dg: "gs_degraded (set_counts ps st) = in_state Degraded ps" and "gs_cold (set_counts ps st) = in_state Cold ps"
    and dd: "gs_dead (set_counts ps st) = in_state Dead ps" and "gs_providers (set_counts ps st) = map member_of ps"
    by (simp_all add: set_counts_def Let_def tally_counts i in_state_bounds)
  show "gs_initializing (set_counts ps st) = in_state StateUnset ps + in_state Initializing ps"
    unfolding set_counts_def Let_def by (simp add: tally_counts i b s)
  show "to_i32 (gs_degraded (set_counts ps st) + gs_dead (set_counts ps st)) = in_state Degraded ps + in_state Dead ps"
    unfolding dg dd by (rule i) (use b s in auto)
qed

text \<open>The health policy, read on the members.\<close>
definition healthy_members :: "health_policy option \<Rightarrow> mcp_server list \<Rightarrow> bool" where
  "healthy_members policy ps = (case policy of
     None \<Rightarrow> in_state Ready ps > 0
   | Some p \<Rightarrow> (case hp_count p of
       Some n \<Rightarrow> in_state Ready ps \<ge> n
     | None \<Rightarrow> hp_percentage p * int (length ps) \<le> in_state Ready ps * 100))"

lemma healthy_iff:
  assumes "int (length ps) * 100 < 2 ^ 31" "ps \<noteq> []"
  shows "IsHealthy (set_counts ps st) policy = healthy_members policy ps"
proof -
  have l: "int (length ps) < 2 ^ 31" "0 < int (length ps)" using assms by auto
  note c = counts_exact [OF l(1), of st]
  show ?thesis
  proof (cases policy)
    case (Some p)
    show ?thesis
      using IsHealthy_percentage [of "set_counts ps st" p] in_state_bounds [of Ready ps] l assms Some
      by (cases "hp_count p") (auto simp: c healthy_members_def IsHealthy_def)
  qed (use l assms in \<open>simp add: IsHealthy_def c healthy_members_def\<close>)
qed

lemma says_status: "says L cs c \<Longrightarrow> map_option c_status (find_condition L cs (c_type c)) = Some (c_status c)"
  by (auto simp: says_def)

text \<open>What the three conditions say of the members.\<close>
definition group_tells :: "'e env_scheme \<Rightarrow> health_policy option \<Rightarrow> mcp_server list \<Rightarrow> condition list \<Rightarrow> bool" where
  "group_tells E policy ps cs =
     (map_option c_status (find_condition E cs ConditionAvailable)
        = Some (if in_state Ready ps > 0 then CondTrue else CondFalse)
      \<and> map_option c_status (find_condition E cs ConditionReady)
        = Some (if ps = [] then CondUnknown else if healthy_members policy ps then CondTrue else CondFalse)
      \<and> map_option c_status (find_condition E cs ConditionDegraded)
        = Some (if in_state Degraded ps + in_state Dead ps > 0 then CondTrue else CondFalse))"

lemma group_tells_conditions:
  assumes "lib_conds E" "int (length ps) * 100 < 2 ^ 31" "g_status g = set_counts ps st"
  shows "group_tells E (gsp_health (g_spec g)) ps (foldl (set_condition E t) l (group_conditions g))"
proof -
  have len: "int (length ps) < 2 ^ 31" using assms(2) by simp
  note c = counts_exact [OF len, of st]
  note u = c(8) [unfolded c(3) c(5)]
  let ?cs = "foldl (set_condition E t) l (group_conditions g)"
  have s: "map_option c_status (find_condition E ?cs ty) = Some x"
    if "(ty, x) \<in> (\<lambda>c. (c_type c, c_status c)) ` set (group_conditions g)" for ty x
    using that says_status [OF says_fold [OF assms(1) group_conditions_distinct]] by fastforce
  have none: "in_state x [] = 0" for x by (simp add: in_state_def)
  have img: "(\<lambda>c. (c_type c, c_status c)) ` set (group_conditions g) =
     {(ConditionAvailable, if in_state Ready ps > 0 then CondTrue else CondFalse),
      (ConditionReady, if ps = [] then CondUnknown else if healthy_members (gsp_health (g_spec g)) ps then CondTrue else CondFalse),
      (ConditionDegraded, if in_state Degraded ps + in_state Dead ps > 0 then CondTrue else CondFalse)}"
  proof (cases "ps = []")
    case True
    then show ?thesis unfolding group_conditions_def Let_def assms(3) c by (simp add: none gcond_def insert_commute)
  next
    case False
    then show ?thesis
      by (simp add: group_conditions_def Let_def assms(3) c(1-7) u gcond_def healthy_iff [OF assms(2)])
  qed
  show ?thesis unfolding group_tells_def by (intro conjI; rule s; unfold img; simp)
qed

section \<open>Properties\<close>

text \<open>C24 The status of a group is the aggregate of its members: after a reconcile without an
  error the counters are the numbers of listed members in each state and add up to
  their number, the members are listed in order, Available, Ready and Degraded say what
  the counts and the health policy say, and a status that changed was accepted.\<close>
theorem group_status_is_aggregate:
  assumes "lib_conds E" and "gsp_selector (g_spec g) = Some sel" and "selector_error E sel = None"
    and "list_servers E (st_log s) (g_ns g) (Some sel) = Inr ps" and "int (length ps) * 100 < 2 ^ 31"
    and "st_obj s = g" and "run_state (group_reconcileNormal E g) s = ((after, None), s')"
  shows "let st = g_status (st_obj s') in
    gs_count st = int (length ps) \<and> gs_ready st = in_state Ready ps \<and> gs_degraded st = in_state Degraded ps
    \<and> gs_cold st = in_state Cold ps \<and> gs_dead st = in_state Dead ps
    \<and> gs_ready st + gs_degraded st + gs_cold st + gs_dead st + gs_initializing st = gs_count st
    \<and> gs_providers st = map member_of ps \<and> gs_observed st = m_generation (g_meta g)
    \<and> group_tells E (gsp_health (g_spec g)) ps (gs_conditions st)
    \<and> (st = g_status g \<or> accepted E (\<lambda>e. e = StatusPatch (KGroup (st_obj s'))) (length (st_log s)) (st_log s'))"
proof -
  let ?l = "st_log s @ group_reads E g"
  have "members_found E g (st_log s) ps" using assms(2-4) by (simp add: members_found_def)
  then obtain t where g': "st_obj s' = group_next E t g ps"
    and l: "st_log s' = ?l @ snd (group_write E g (st_obj s') ?l)" "fst (group_write E g (st_obj s') ?l) = None"
    using run_group [OF assms(6) _ assms(7)] by (fastforce simp: Let_def)
  let ?g = "g\<lparr>g_status := set_counts ps ((g_status g)\<lparr>gs_observed := m_generation (g_meta g)\<rparr>)\<rparr>"
  have nx: "st_obj s' = with_conditions E t ?g (group_conditions ?g)"
    using assms(2,3) by (simp add: g' group_next_def group_found_def Let_def)
  have len: "int (length ps) < 2 ^ 31" using assms(5) by simp
  have written: "g_status (st_obj s') = g_status g \<or>
      accepted E (\<lambda>e. e = StatusPatch (KGroup (st_obj s'))) (length (st_log s)) (st_log s')"
  proof (cases "g_status g = g_status (st_obj s')")
    case False
    let ?e = "StatusPatch (KGroup (st_obj s'))"
    have "accepted E (\<lambda>e. e = ?e) (length (st_log s)) ((?l @ [?e]) @ m)" for m
      by (rule accepted_append, rule accepted_now) (use l False in \<open>simp_all add: group_write_def Let_def\<close>)
    then show ?thesis using l False by (simp add: group_write_def Let_def)
  qed simp
  show ?thesis unfolding Let_def
    using group_tells_conditions [OF assms(1,5), of ?g] in_state_sum [of ps] counts_exact [OF len] written
    by (simp add: nx) (simp add: with_conditions_def set_counts_def Let_def)
qed

text \<open>One turn of the loop the watch on the group could close: a reconcile of the group as
  stored writes it, and the write wakes the next reconcile.\<close>
inductive self_trigger :: "'e env_scheme \<Rightarrow> server_group \<Rightarrow> server_group \<Rightarrow> bool" for E where
  self_trigger: "st_obj s = g \<Longrightarrow> run_state (group_reconcileNormal E g) s = (r, s') \<Longrightarrow> st_log s' = st_log s @ es \<Longrightarrow>
     StatusPatch (KGroup g') \<in> set es \<Longrightarrow> self_trigger E g g'"

inductive_cases self_triggerE: "self_trigger E g g'"

lemma writes_next:
  assumes "st_obj s = g" "run_state (group_reconcileNormal E g) s = (r, s')" "st_log s' = st_log s @ es"
    and "StatusPatch (KGroup g') \<in> set es"
  shows "\<exists>ps t. members_found E g (st_log s) ps \<and> g' = group_next E t g ps \<and> g_status g' \<noteq> g_status g"
proof -
  have reads: "StatusPatch k \<notin> set (group_reads E g)" for k
    by (auto simp: group_reads_def split: option.splits)
  have "\<exists>ps. members_found E g (st_log s) ps"
    using run_group_unlisted [OF assms(1) _ _ _ assms(2)] assms(3,4)
    by (cases "gsp_selector (g_spec g)"; cases "list_servers E (st_log s) (g_ns g) (gsp_selector (g_spec g))")
      (fastforce simp: members_found_def split: option.splits)+
  then obtain ps where ps: "members_found E g (st_log s) ps" ..
  obtain t where "st_obj s' = group_next E t g ps"
    "es = group_reads E g @ snd (group_write E g (group_next E t g ps) (st_log s @ group_reads E g))"
    using run_group [OF assms(1) ps assms(2)] assms(3) by (auto simp: Let_def)
  then show ?thesis using assms(4) reads ps
    by (auto simp: group_write_def Let_def split: if_splits)
qed

lemma self_trigger_next:
  assumes "self_trigger E g g'"
  shows "\<exists>l ps t. members_found E g l ps \<and> g' = group_next E t g ps \<and> g_status g' \<noteq> g_status g"
  using assms by (rule self_triggerE) (metis writes_next)

text \<open>C25 A group settles: while its members do not change, what a reconcile writes makes the
  next reconcile write nothing, whatever the clock, so the chain of reconciles that
  wake each other ends.\<close>
theorem group_reconcile_settles:
  assumes "lib_cond_store E" and "\<And>l l' ns sel. list_servers E l ns sel = list_servers E l' ns sel"
  shows "(self_trigger E g1 g2 \<longrightarrow> \<not> self_trigger E g2 g3) \<and> wfp (\<lambda>b a. self_trigger E a b)"
proof -
  have stop: False if turns: "self_trigger E g1 g2" "self_trigger E g2 g3" for g1 g2 g3
  proof -
    obtain ps t l where 1: "members_found E g1 l ps" "g2 = group_next E t g1 ps"
      using self_trigger_next [OF turns(1)] by blast
    obtain qs u l' where 2: "members_found E g2 l' qs" "g3 = group_next E u g2 qs" "g_status g3 \<noteq> g_status g2"
      using self_trigger_next [OF turns(2)] by blast
    have spec: "g_spec g2 = g_spec g1" "g_meta g2 = g_meta g1"
      by (simp_all add: 1 group_next_def group_found_def Let_def with_conditions_def split: option.split)
    have "group_found E g2 qs = group_found E g2 ps"
      using 1(1) 2(1) assms(2) [of l "g_ns g1" _ l']
      by (simp add: members_found_def group_found_def spec Let_def split: option.splits)
    then have "g3 = g2" using group_next_again [OF assms(1), of u t g1 ps] 1(2) 2(2) by (simp add: group_next_def)
    then show False using 2(3) by simp
  qed
  have "wfp (\<lambda>b a. self_trigger E a b)"
  proof (rule wfp_if_convertible_to_nat [where f = "\<lambda>a. if \<exists>b. self_trigger E a b then 1 else 0"])
    fix b a assume "self_trigger E a b"
    then show "(if \<exists>c. self_trigger E b c then 1 else 0) < (if \<exists>c. self_trigger E a c then 1 else (0::nat))"
      using stop by auto
  qed
  then show ?thesis using stop by blast
qed

section \<open>A concrete group\<close>

text \<open>Two members that are ready and one that is dead, of which half must be ready.\<close>
definition team :: server_group where
  "team = \<lparr>g_meta = empty_meta\<lparr>m_name := ''g'', m_namespace := ''n'', m_generation := 2\<rparr>,
     g_spec = \<lparr>gsp_selector = Some (match_labels []),
       gsp_health = Some \<lparr>hp_percentage = 50, hp_count = None, hp_threshold = 3\<rparr>\<rparr>,
     g_status = \<lparr>gs_count = 0, gs_ready = 0, gs_degraded = 0, gs_cold = 0, gs_initializing = 0, gs_dead = 0,
       gs_providers = [], gs_observed = 1, gs_conditions = []\<rparr>\<rparr>"

definition member :: "string \<Rightarrow> server_state \<Rightarrow> mcp_server" where
  "member n x = zero_server\<lparr>s_meta := mk_meta n ''n'' [] [], s_status := zero_server_status\<lparr>ss_state := x\<rparr>\<rparr>"

definition team_env :: env where
  "team_env = std_env\<lparr>list_servers := (\<lambda>l ns sel. Inr [member ''a'' Ready, member ''b'' Dead, member ''c'' Ready])\<rparr>"

definition team_start :: "(server_group, group_status, kept) st" where
  "team_start = \<lparr>st_obj = team, st_base = None, st_kept = nothing_kept, st_log = []\<rparr>"

definition team_run :: "outcome \<times> (server_group, group_status, kept) st" where
  "team_run = run_state (group_reconcileNormal team_env team) team_start"

lemma team_env_eqs [simp]:
  "list_servers team_env l ns sel = Inr [member ''a'' Ready, member ''b'' Dead, member ''c'' Ready]"
  "selector_error team_env one = None" "write_result team_env l e = None" "clock team_env l = 0"
  "find_condition team_env = std_find" "set_condition team_env = std_set"
  by (simp_all add: team_env_def std_env_eqs)

lemma team_store: "lib_cond_store team_env"
  by (simp add: std_cond_store.condition_store_axioms)

lemma team_simps [simp]:
  "gsp_selector (g_spec team) = Some (match_labels [])" "st_obj team_start = team" "st_log team_start = []"
  by (simp_all add: team_def team_start_def)

lemma team_members: "members_found team_env team [] [member ''a'' Ready, member ''b'' Dead, member ''c'' Ready]"
  by (simp add: members_found_def)

lemma team_written:
  "\<exists>s'. team_run = ((readyRequeueAfter, None), s') \<and> StatusPatch (KGroup (st_obj s')) \<in> set (st_log s')
    \<and> gs_observed (g_status (st_obj s')) = 2 \<and> g_spec (st_obj s') = g_spec team"
proof -
  obtain r s' where r: "team_run = (r, s')" by fastforce
  obtain t where t: "st_obj s' = group_next team_env t team [member ''a'' Ready, member ''b'' Dead, member ''c'' Ready]"
    "st_log s' = group_reads team_env team @ snd (group_write team_env team (st_obj s') (group_reads team_env team))"
    using run_group [OF _ team_members [folded team_simps(3)] r [unfolded team_run_def]] by (auto simp: Let_def)
  have n: "gs_observed (g_status (st_obj s')) = 2" "g_spec (st_obj s') = g_spec team"
    unfolding t(1) group_next_def group_found_def by (simp_all add: Let_def with_conditions_def set_counts_def team_def)
  then have "gs_observed (g_status team) \<noteq> gs_observed (g_status (st_obj s'))" by (simp add: team_def)
  then have "g_status team \<noteq> g_status (st_obj s')" by metis
  then have "StatusPatch (KGroup (st_obj s')) \<in> set (st_log s')" unfolding t(2) by (simp add: group_write_def Let_def)
  moreover have "r = (readyRequeueAfter, None)"
    using r unfolding team_run_def
    by (auto simp: group_reconcileNormal_def run_bind run_updateStatus run_evaluate run_group_metrics upd_gstatus_def
        group_write_def Let_def split: if_splits)
  ultimately show ?thesis using r n by auto
qed

theorem group_reconcile_settles_witness:
  "\<exists>g. self_trigger team_env team g \<and> (\<forall>g'. \<not> self_trigger team_env g g')"
proof -
  obtain s' where s': "team_run = ((readyRequeueAfter, None), s')" "StatusPatch (KGroup (st_obj s')) \<in> set (st_log s')"
    using team_written by blast
  have "self_trigger team_env team (st_obj s')"
    by (rule self_trigger.intros [where s = team_start and s' = s']) (use s' in \<open>auto simp: team_run_def\<close>)
  then show ?thesis using group_reconcile_settles [OF team_store, of team "st_obj s'"] by auto
qed

theorem group_status_is_aggregate_witness:
  "let st = g_status (st_obj (snd team_run)) in
     gs_count st = 3 \<and> gs_ready st = 2 \<and> gs_dead st = 1
     \<and> map_option c_status (std_find (gs_conditions st) ConditionReady) = Some CondTrue
     \<and> map_option c_status (std_find (gs_conditions st) ConditionDegraded) = Some CondTrue"
proof -
  obtain s' where s': "run_state (group_reconcileNormal team_env team) team_start = ((readyRequeueAfter, None), s')"
    using team_written by (auto simp: team_run_def)
  have sel: "gsp_selector (g_spec team) = Some (match_labels [])" by simp
  have l: "list_servers team_env (st_log team_start) (g_ns team) (Some (match_labels []))
    = Inr [member ''a'' Ready, member ''b'' Dead, member ''c'' Ready]" by simp
  have n: "in_state Ready [member ''a'' Ready, member ''b'' Dead, member ''c'' Ready] = 2"
    "in_state Dead [member ''a'' Ready, member ''b'' Dead, member ''c'' Ready] = 1"
    "in_state Degraded [member ''a'' Ready, member ''b'' Dead, member ''c'' Ready] = 0"
    by (simp_all add: in_state_def member_def)
  have h: "healthy_members (gsp_health (g_spec team)) [member ''a'' Ready, member ''b'' Dead, member ''c'' Ready]"
    by (simp add: healthy_members_def n team_def)
  show ?thesis
    using group_status_is_aggregate [OF lib_cond_store_conds [OF team_store] sel _ l _ _ s']
    by (simp add: Let_def team_run_def s' n group_tells_def h)
qed

end
