(* ===== verification/Discovery.thy ===== *)
theory Discovery
  imports Registration
begin

text \<open>
  \<open>internal/controller/mcpdiscoverysource_controller.go\<close>: the reconciler of an
  MCPDiscoverySource.  It finds servers in one of four ways, filters them, creates or
  updates an MCPServer for each, in authoritative mode deletes those it manages and no
  longer finds, and reports.  \<open>d\<close> is the source as read; its status is the state.

  A map from names to what was discovered is an association list; where the code
  ranges over it with effects the order is the environment's (\<open>range_order\<close>).
\<close>

section \<open>Vocabulary\<close>

type_synonym 'a dsc = "(discovery_source, source_status, 'a) prog"

definition LabelDiscoveryManagedBy :: string where "LabelDiscoveryManagedBy = ''mcp-hangar.io/managed-by''"
definition ConditionSynced :: string where "ConditionSynced = ''Synced''"
definition ConditionPaused :: string where "ConditionPaused = ''Paused''"
definition defaultRefreshInterval :: int where "defaultRefreshInterval = seconds 60"
definition pausedRequeueAfter :: int where "pausedRequeueAfter = seconds 300"
definition defaultExcludeKubeSystem :: string where "defaultExcludeKubeSystem = ''kube-system''"
definition defaultExcludeKubePublic :: string where "defaultExcludeKubePublic = ''kube-public''"
definition defaultExcludeKubeNodeLease :: string where "defaultExcludeKubeNodeLease = ''kube-node-lease''"
definition defaultRequiredAnnotation :: string where "defaultRequiredAnnotation = ''mcp-hangar.io/provider''"
definition annotationEndpointKey :: string where "annotationEndpointKey = ''mcp-hangar.io/endpoint''"
definition defaultPortName :: string where "defaultPortName = ''mcp''"
definition defaultProtocol :: string where "defaultProtocol = ''http''"
definition defaultConfigMapKey :: string where "defaultConfigMapKey = ''providers.yaml''"
definition ReasonSyncCompleted :: string where "ReasonSyncCompleted = ''SyncCompleted''"
definition ReasonSyncFailed :: string where "ReasonSyncFailed = ''SyncFailed''"
definition ReasonProviderGone :: string where "ReasonProviderGone = ''ProviderRemoved''"
definition ReasonCrossNamespaceRefused :: string where "ReasonCrossNamespaceRefused = ''CrossNamespaceRefused''"

text \<open>\<open>DiscoveredMCPServerInfo\<close>.\<close>
record info =
  in_name :: string
  in_source :: string
  in_endpoint :: string
  in_mode :: server_mode
  in_image :: string
  in_command :: "string list"
  in_args :: "string list"
  in_labels :: labels

type_synonym found = "(string \<times> info) list"

definition remote_info :: "string \<Rightarrow> string \<Rightarrow> string \<Rightarrow> labels \<Rightarrow> info" where
  "remote_info n src ep ls = \<lparr>in_name = n, in_source = src, in_endpoint = ep, in_mode = ModeRemote, in_image = [],
     in_command = [], in_args = [], in_labels = ls\<rparr>"

text \<open>\<open>fmt.Sprintf("%s-%s", source.Name, name)\<close>.\<close>
definition full_name :: "discovery_source \<Rightarrow> string \<Rightarrow> string" where
  "full_name d n = d_name d @ ''-'' @ n"

definition src_setCondition :: "'e env_scheme \<Rightarrow> string \<Rightarrow> cond_status \<Rightarrow> string \<Rightarrow> string \<Rightarrow> unit dsc" where
  "src_setCondition E ty status reason msg = do {
     t \<leftarrow> now E;
     upd_obj (\<lambda>d. d\<lparr>d_status := (d_status d)\<lparr>dst_conditions :=
       set_condition E t (dst_conditions (d_status d))
         \<lparr>c_type = ty, c_status = status, c_reason = reason, c_message = msg,
          c_generation = m_generation (d_meta d), c_transition = 0\<rparr>\<rparr>\<rparr>) }"

definition upd_dstatus :: "(source_status \<Rightarrow> source_status) \<Rightarrow> unit dsc" where
  "upd_dstatus f = upd_obj (\<lambda>d. d\<lparr>d_status := f (d_status d)\<rparr>)"

definition synced_now :: "'e env_scheme \<Rightarrow> condition option dsc" where
  "synced_now E = do { d \<leftarrow> the_obj; ret (find_condition E (dst_conditions (d_status d)) ConditionSynced) }"

section \<open>Finding servers\<close>

text \<open>What a scan returns: an error, or the servers found and the errors on the way.\<close>
type_synonym scan = "gerr + found \<times> string list"

definition template_spec :: "discovery_source \<Rightarrow> server_spec option" where
  "template_spec d = (case dsp_template (d_spec d) of None \<Rightarrow> None | Some t \<Rightarrow> tpl_spec t)"

definition templateImage :: "discovery_source \<Rightarrow> string" where
  "templateImage d = (case template_spec d of None \<Rightarrow> [] | Some s \<Rightarrow> sp_image s)"

definition template_endpoint :: "discovery_source \<Rightarrow> string" where
  "template_endpoint d = (case template_spec d of None \<Rightarrow> [] | Some s \<Rightarrow> sp_endpoint s)"

subsection \<open>Namespaces\<close>

definition excluded_namespaces :: "ns_selector_config \<Rightarrow> string list" where
  "excluded_namespaces c = (case nsc_exclude c of
     None \<Rightarrow> [defaultExcludeKubeSystem, defaultExcludeKubePublic, defaultExcludeKubeNodeLease]
   | Some ns \<Rightarrow> ns)"

text \<open>The selector of the expressions alone, or none without expressions.\<close>
definition expr_selector :: "ns_selector_config \<Rightarrow> label_selector option" where
  "expr_selector c = (if nsc_exprs c = [] then None else Some \<lparr>ls_labels = [], ls_exprs = nsc_exprs c\<rparr>)"

definition namespace_selected :: "'e klib_scheme \<Rightarrow> ns_selector_config \<Rightarrow> namespace_obj \<Rightarrow> bool" where
  "namespace_selected L c ns =
     (if m_name (ns_meta ns) \<in> set (excluded_namespaces c) then False
      else (case expr_selector c of None \<Rightarrow> True | Some sel \<Rightarrow> selector_matches L sel (m_labels (ns_meta ns))))"

definition namespace_info :: "discovery_source \<Rightarrow> namespace_obj \<Rightarrow> info" where
  "namespace_info d ns = (let n = m_name (ns_meta ns) in
     remote_info (full_name d n) (''namespace/'' @ n) [] [(''discovery-namespace'', n)])"

text \<open>\<open>discovered[name] = info\<close> for each of a list.\<close>
definition put_all :: "info list \<Rightarrow> found \<Rightarrow> found" where
  "put_all is m = foldl (\<lambda>m i. amap_put (in_name i) i m) m is"

definition msg_no_endpoint :: string where
  "msg_no_endpoint = ''type Namespace needs spec.providerTemplate.spec.endpoint: a namespace names no Service to dial''"

definition discoverNamespace :: "'e env_scheme \<Rightarrow> discovery_source \<Rightarrow> scan dsc" where
  "discoverNamespace E d = (case dsp_ns (d_spec d) of
     None \<Rightarrow> ret (Inr ([], []))
   | Some c \<Rightarrow>
      (if template_endpoint d = [] then ret (Inr ([], [msg_no_endpoint]))
       else do {
         r \<leftarrow> fetch_list NamespaceKind (list_namespaces E) []
           (if nsc_labels c = [] then None else Some (match_labels (nsc_labels c)));
         ret (case r of
            Inl e \<Rightarrow> Inl (Wrap ''failed to list namespaces: '' e)
          | Inr nss \<Rightarrow> (case Option.bind (expr_selector c) (selector_error E) of
              Some e \<Rightarrow> Inr ([], [''invalid match expressions: '' @ err_text e])
            | None \<Rightarrow> Inr (put_all (map (namespace_info d) (filter (namespace_selected E c) nss)) [], []))) }))"

subsection \<open>A ConfigMap\<close>

definition crossNamespaceConfigMap :: "discovery_source \<Rightarrow> string \<times> bool" where
  "crossNamespaceConfigMap d = (case (dsp_type (d_spec d), dsp_cm (d_spec d)) of
     (DConfigMap, Some c) \<Rightarrow> (cmr_namespace c, cmr_namespace c \<noteq> [] \<and> cmr_namespace c \<noteq> d_ns d)
   | _ \<Rightarrow> ([], False))"

definition entry_info :: "discovery_source \<Rightarrow> configmap_ref \<Rightarrow> string \<times> configmap_entry \<Rightarrow> info" where
  "entry_info d c ne = (case ne of (n, e) \<Rightarrow>
     \<lparr>in_name = full_name d n, in_source = ''configmap/'' @ cmr_name c, in_endpoint = ce_endpoint e,
      in_mode = (if ce_mode e = ''container'' then ModeContainer else ModeRemote), in_image = ce_image e,
      in_command = ce_command e, in_args = ce_args e,
      in_labels = [(''discovery-configmap'', cmr_name c), (''discovery-entry'', n)]\<rparr>)"

definition msg_no_key :: "string \<Rightarrow> discovery_source \<Rightarrow> configmap_ref \<Rightarrow> string" where
  "msg_no_key k d c = ''key '' @ quote k @ '' not found in ConfigMap '' @ d_ns d @ ''/'' @ cmr_name c"

definition discoverConfigMap :: "'e env_scheme \<Rightarrow> discovery_source \<Rightarrow> scan dsc" where
  "discoverConfigMap E d = (case dsp_cm (d_spec d) of
     None \<Rightarrow> ret (Inr ([], []))
   | Some c \<Rightarrow>
      (if snd (crossNamespaceConfigMap d) then
         ret (Inl (Plain (''configMapRef namespace '' @ quote (fst (crossNamespaceConfigMap d))
           @ '' differs from the source namespace '' @ quote (d_ns d))))
       else (let k = (if cmr_key c = [] then defaultConfigMapKey else cmr_key c) in do {
         r \<leftarrow> fetch ConfigMapKind (get_configmap E) (d_ns d) (cmr_name c);
         ret (case r of
            Inl e \<Rightarrow> Inl (Wrap (''failed to get ConfigMap '' @ d_ns d @ ''/'' @ cmr_name c @ '': '') e)
          | Inr cm \<Rightarrow> (case map_of (cm_data cm) k of
              None \<Rightarrow> Inr ([], [msg_no_key k d c])
            | Some data \<Rightarrow> (case parse_yaml E data of
                Inl e \<Rightarrow> Inl (Wrap ''failed to parse providers YAML from ConfigMap: '' e)
              | Inr entries \<Rightarrow> Inr (put_all (map (entry_info d c) entries) [], [])))) })))"

subsection \<open>Annotations\<close>

text \<open>An absent map of annotations satisfies nothing; the list of those required is never empty.\<close>
definition hasRequiredAnnotations :: "labels \<Rightarrow> string list \<Rightarrow> bool" where
  "hasRequiredAnnotations as req = (as \<noteq> [] \<and> list_all (\<lambda>k. map_of as k \<noteq> None) req)"

definition required_annotations :: "annotation_config \<Rightarrow> string list" where
  "required_annotations c = (if ac_required c = [] then [defaultRequiredAnnotation] else ac_required c)"

definition annotated_name :: "string list \<Rightarrow> object_meta \<Rightarrow> string" where
  "annotated_name req m = (let n = label_of (m_annotations m) (hd req) in if n = [] then m_name m else n)"

definition pod_endpoint :: "pod \<Rightarrow> string" where
  "pod_endpoint p = (let ep = label_of (m_annotations (pod_meta p)) annotationEndpointKey in
     if ep = [] then (if pod_ip p \<noteq> [] then ''http://'' @ pod_ip p @ '':8080'' else []) else ep)"

definition pod_info :: "discovery_source \<Rightarrow> string list \<Rightarrow> pod \<Rightarrow> info" where
  "pod_info d req p = remote_info (full_name d (annotated_name req (pod_meta p)))
     (''annotation/Pod/'' @ m_name (pod_meta p)) (pod_endpoint p)
     [(''discovery-kind'', ''Pod''), (''discovery-resource'', m_name (pod_meta p))]"

definition annotated_port :: "service \<Rightarrow> int" where
  "annotated_port s = (case List.find (\<lambda>q. fst q = defaultPortName \<or> fst q = ''http'') (sv_ports s) of
     Some q \<Rightarrow> snd q | None \<Rightarrow> 8080)"

definition service_url :: "string \<Rightarrow> service \<Rightarrow> int \<Rightarrow> string" where
  "service_url proto s port = proto @ ''://'' @ m_name (sv_meta s) @ ''.'' @ m_namespace (sv_meta s)
     @ ''.svc.cluster.local:'' @ itoa port"

definition service_endpoint :: "service \<Rightarrow> string" where
  "service_endpoint s = (let ep = label_of (m_annotations (sv_meta s)) annotationEndpointKey in
     if ep = [] then service_url ''http'' s (annotated_port s) else ep)"

definition annotated_service_info :: "discovery_source \<Rightarrow> string list \<Rightarrow> service \<Rightarrow> info" where
  "annotated_service_info d req s = remote_info (full_name d (annotated_name req (sv_meta s)))
     (''annotation/Service/'' @ m_name (sv_meta s)) (service_endpoint s)
     [(''discovery-kind'', ''Service''), (''discovery-resource'', m_name (sv_meta s))]"

definition scan_pods :: "'e env_scheme \<Rightarrow> discovery_source \<Rightarrow> annotation_config \<Rightarrow> (found \<times> string list) dsc" where
  "scan_pods E d c = (if ac_pods c = [] then ret ([], [])
     else do {
       r \<leftarrow> fetch_list PodKind (list_pods E) (d_ns d) (Some (match_labels (ac_pods c)));
       (let req = required_annotations c in ret (case r of
          Inl e \<Rightarrow> ([], [''failed to list pods: '' @ err_text e])
        | Inr ps \<Rightarrow> (put_all (map (pod_info d req)
            (filter (\<lambda>p. hasRequiredAnnotations (m_annotations (pod_meta p)) req) ps)) [], []))) })"

definition scan_services ::
  "'e env_scheme \<Rightarrow> discovery_source \<Rightarrow> annotation_config \<Rightarrow> found \<times> string list \<Rightarrow> (found \<times> string list) dsc" where
  "scan_services E d c acc = (if ac_services c = [] then ret acc
     else do {
       r \<leftarrow> fetch_list ServiceKind (list_services E) (d_ns d) (Some (match_labels (ac_services c)));
       (let req = required_annotations c in ret (case r of
          Inl e \<Rightarrow> (fst acc, snd acc @ [''failed to list services: '' @ err_text e])
        | Inr ss \<Rightarrow> (put_all (map (annotated_service_info d req)
            (filter (\<lambda>s. hasRequiredAnnotations (m_annotations (sv_meta s)) req) ss)) (fst acc), snd acc))) })"

definition discoverAnnotations :: "'e env_scheme \<Rightarrow> discovery_source \<Rightarrow> scan dsc" where
  "discoverAnnotations E d = (case dsp_ann (d_spec d) of
     None \<Rightarrow> ret (Inr ([], []))
   | Some c \<Rightarrow> do {
       a \<leftarrow> scan_pods E d c;
       b \<leftarrow> scan_services E d c a;
       ret (Inr b) })"

subsection \<open>Services\<close>

definition service_info :: "discovery_source \<Rightarrow> service_config \<Rightarrow> service \<Rightarrow> info option" where
  "service_info d c s =
     (let portName = (if sc_port_name c = [] then defaultPortName else sc_port_name c);
          protocol = (if sc_protocol c = [] then defaultProtocol else sc_protocol c) in
      case List.find (\<lambda>q. fst q = portName) (sv_ports s) of
        None \<Rightarrow> None
      | Some q \<Rightarrow> Some (remote_info (full_name d (m_name (sv_meta s))) (''service/'' @ m_name (sv_meta s))
          (service_url protocol s (snd q)) [(''discovery-service'', m_name (sv_meta s))]))"

definition discoverServices :: "'e env_scheme \<Rightarrow> discovery_source \<Rightarrow> scan dsc" where
  "discoverServices E d = (case dsp_svc (d_spec d) of
     None \<Rightarrow> ret (Inr ([], []))
   | Some c \<Rightarrow> do {
       r \<leftarrow> fetch_list ServiceKind (list_services E) (d_ns d)
         (if sc_selector c = [] then None else Some (match_labels (sc_selector c)));
       ret (case r of
          Inl e \<Rightarrow> Inl (Wrap ''failed to list services: '' e)
        | Inr ss \<Rightarrow> Inr (put_all (List.map_filter (service_info d c) ss) [], [])) })"

definition discoverProviders :: "'e env_scheme \<Rightarrow> discovery_source \<Rightarrow> scan dsc" where
  "discoverProviders E d = (case dsp_type (d_spec d) of
     DNamespace \<Rightarrow> discoverNamespace E d
   | DConfigMap \<Rightarrow> discoverConfigMap E d
   | DAnnotations \<Rightarrow> discoverAnnotations E d
   | DServiceDiscovery \<Rightarrow> discoverServices E d
   | DOther ty \<Rightarrow> ret (Inl (Plain (''unknown discovery type: '' @ ty))))"

section \<open>Filters\<close>

definition matches_any :: "'e klib_scheme \<Rightarrow> string list \<Rightarrow> string \<Rightarrow> bool" where
  "matches_any L ps n = list_ex (\<lambda>p. case regex_match L p n of Inl e \<Rightarrow> False | Inr ok \<Rightarrow> ok) ps"

definition passes :: "'e klib_scheme \<Rightarrow> discovery_filters \<Rightarrow> string \<Rightarrow> bool" where
  "passes L f n = ((df_include f = [] \<or> matches_any L (df_include f) n) \<and> \<not> matches_any L (df_exclude f) n)"

definition applyFilters :: "'e klib_scheme \<Rightarrow> discovery_source \<Rightarrow> found \<Rightarrow> found" where
  "applyFilters L d m = (case dsp_filters (d_spec d) of
     None \<Rightarrow> m
   | Some f \<Rightarrow> (let kept = filter (\<lambda>e. passes L f (fst e)) m in
       case df_max f of
         None \<Rightarrow> kept
       | Some k \<Rightarrow>
          (if to_i32 (int (length kept)) > k
           then map (\<lambda>n. (n, the (map_of kept n))) (take (nat k) (sort_strings (map fst kept)))
           else kept)))"

definition validateDiscoveredName :: "'e klib_scheme \<Rightarrow> string \<Rightarrow> gerr option" where
  "validateDiscoveredName L n =
     (if subdomain_errors L n \<noteq> [] then Some (Plain (''invalid MCPServer name: '' @ join ''; '' (subdomain_errors L n)))
      else if label_value_errors L n \<noteq> [] then
        Some (Plain (''invalid MCPServer name: '' @ join ''; '' (label_value_errors L n)))
      else None)"

section \<open>The servers of a source\<close>

text \<open>\<open>for k, v := range ls { m[k] = v }\<close>.\<close>
definition put_labels :: "labels \<Rightarrow> labels \<Rightarrow> labels" where
  "put_labels ls m = foldl (\<lambda>m e. amap_put (fst e) (snd e) m) m ls"

definition template_labels :: "discovery_source \<Rightarrow> labels \<times> labels" where
  "template_labels d = (case dsp_template (d_spec d) of
     None \<Rightarrow> ([], []) | Some t \<Rightarrow> (case tpl_meta t of None \<Rightarrow> ([], []) | Some m \<Rightarrow> m))"

text \<open>An entry that sets a field wins over the template.\<close>
definition discovered_spec :: "discovery_source \<Rightarrow> info \<Rightarrow> server_spec \<Rightarrow> server_spec" where
  "discovered_spec d i sp = (let t = (case template_spec d of None \<Rightarrow> sp | Some t \<Rightarrow> t) in
     t\<lparr>sp_mode := in_mode i,
       sp_endpoint := (if in_endpoint i \<noteq> [] then in_endpoint i else sp_endpoint t),
       sp_image := (if in_image i \<noteq> [] then in_image i else sp_image t),
       sp_command := (if in_command i \<noteq> [] then in_command i else sp_command t),
       sp_args := (if in_args i \<noteq> [] then in_args i else sp_args t)\<rparr>)"

definition discovered_meta :: "discovery_source \<Rightarrow> info \<Rightarrow> object_meta \<Rightarrow> object_meta" where
  "discovered_meta d i m = m\<lparr>
     m_labels := put_labels (in_labels i) (put_labels (fst (template_labels d))
       (amap_put LabelDiscoveryManagedBy (d_name d) (m_labels m))),
     m_annotations := put_labels (snd (template_labels d)) (m_annotations m)\<rparr>"

text \<open>The function \<open>CreateOrUpdate\<close> is given.\<close>
definition mutate_server :: "'e klib_scheme \<Rightarrow> discovery_source \<Rightarrow> info \<Rightarrow> mcp_server \<Rightarrow> gerr + mcp_server" where
  "mutate_server L d i x =
     (let s = x\<lparr>s_meta := discovered_meta d i (s_meta x), s_spec := discovered_spec d i (s_spec x)\<rparr> in
      if ShouldSetController d then
        (case set_controller L (d_meta d) (s_meta s) of
           Inl e \<Rightarrow> Inl (Wrap ''failed to set controller reference: '' e)
         | Inr m \<Rightarrow> Inr (s\<lparr>s_meta := m\<rparr>))
      else Inr s)"

definition upsert :: "'e env_scheme \<Rightarrow> string \<Rightarrow> string \<Rightarrow> (mcp_server \<Rightarrow> gerr + mcp_server) \<Rightarrow> gerr option dsc" where
  "upsert E ns n f = do {
     r \<leftarrow> ask (\<lambda>l. upsert_server E l ns n f);
     for_each emit (snd r);
     ret (fst r) }"

definition createOrUpdateMCPServer :: "'e env_scheme \<Rightarrow> discovery_source \<Rightarrow> info \<Rightarrow> gerr option dsc" where
  "createOrUpdateMCPServer E d i =
     (if in_mode i = ModeContainer \<and> in_image i = [] \<and> templateImage d = [] then
        ret (Some (Plain ''container mode requires an image, and neither the entry nor providerTemplate sets one''))
      else upsert E (d_ns d) (in_name i) (mutate_server E d i))"

section \<open>One sync\<close>

record sync_acc =
  sa_errors :: "string list"
  sa_managed :: int
  sa_servers :: "discovered_status list"

definition sync_start :: sync_acc where
  "sync_start = \<lparr>sa_errors = [], sa_managed = 0, sa_servers = []\<rparr>"

definition record_sync :: "string \<Rightarrow> info \<Rightarrow> int \<Rightarrow> gerr option \<Rightarrow> sync_acc \<Rightarrow> sync_acc" where
  "record_sync n i at x a = (case x of
     None \<Rightarrow> a\<lparr>sa_managed := to_i32 (sa_managed a + 1), sa_servers := sa_servers a @
       [\<lparr>dss_name = n, dss_source = in_source i, dss_at = at, dss_managed = True, dss_error = []\<rparr>]\<rparr>
   | Some e \<Rightarrow> a\<lparr>sa_errors := sa_errors a @ [n @ '': '' @ err_text e], sa_servers := sa_servers a @
       [\<lparr>dss_name = n, dss_source = in_source i, dss_at = at, dss_managed = False, dss_error = err_text e\<rparr>]\<rparr>)"

text \<open>The loop over the discovered names, in the order the range gives them.\<close>
fun sync_names :: "'e env_scheme \<Rightarrow> discovery_source \<Rightarrow> found \<Rightarrow> string list \<Rightarrow> sync_acc \<Rightarrow> sync_acc dsc" where
  "sync_names E d m [] a = ret a"
| "sync_names E d m (n # ns) a = (case map_of m n of
     None \<Rightarrow> sync_names E d m ns a
   | Some i \<Rightarrow> do {
       at \<leftarrow> now E;
       x \<leftarrow> (case validateDiscoveredName E n of
          Some e \<Rightarrow> ret (Some e)
        | None \<Rightarrow> createOrUpdateMCPServer E d i);
       sync_names E d m ns (record_sync n i at x a) })"

definition managed_selector :: "discovery_source \<Rightarrow> label_selector" where
  "managed_selector d = match_labels [(LabelDiscoveryManagedBy, d_name d)]"

text \<open>The errors of the deletions, in order.\<close>
fun remove_gone :: "'e env_scheme \<Rightarrow> found \<Rightarrow> mcp_server list \<Rightarrow> string list dsc" where
  "remove_gone E m [] = ret []"
| "remove_gone E m (s # ss) = (if map_of m (s_name s) \<noteq> None then remove_gone E m ss
     else do {
       x \<leftarrow> perform E (Delete ServerKind (s_ns s) (s_name s));
       es \<leftarrow> (if (case x of None \<Rightarrow> True | Some e \<Rightarrow> is_not_found e) then do {
                 event Normal ReasonProviderGone (''Deleted provider '' @ s_name s @ '' (no longer discovered)'');
                 ret [] }
               else ret [''delete '' @ s_name s @ '': '' @ (case x of None \<Rightarrow> [] | Some e \<Rightarrow> err_text e)]);
       fs \<leftarrow> remove_gone E m ss;
       ret (es @ fs) })"

definition authoritativeSync :: "'e env_scheme \<Rightarrow> discovery_source \<Rightarrow> found \<Rightarrow> string list dsc" where
  "authoritativeSync E d m = do {
     r \<leftarrow> fetch_list ServerKind (list_servers E) (d_ns d) (Some (managed_selector d));
     (case r of
        Inl e \<Rightarrow> ret [''failed to list managed providers: '' @ err_text e]
      | Inr ss \<Rightarrow> remove_gone E m ss) }"

definition refresh_interval :: "discovery_source \<Rightarrow> int" where
  "refresh_interval d = (case dsp_refresh (d_spec d) of
     None \<Rightarrow> defaultRefreshInterval | Some i \<Rightarrow> (if i > 0 then i else defaultRefreshInterval))"

section \<open>Reconcile\<close>

definition msg_cross :: "discovery_source \<Rightarrow> string \<Rightarrow> string" where
  "msg_cross d ns = ''configMapRef names ConfigMap '' @ ns @ ''/''
     @ (case dsp_cm (d_spec d) of None \<Rightarrow> [] | Some c \<Rightarrow> cmr_name c)
     @ '' but this source is in namespace '' @ quote (d_ns d) @ ''; ''
     @ ''a ConfigMap source may only read its own namespace. Nothing was read or created; ''
     @ ''MCPServers this source created earlier are left as they are''"

definition refuseCrossNamespace :: "'e env_scheme \<Rightarrow> discovery_source \<Rightarrow> string \<Rightarrow> outcome dsc" where
  "refuseCrossNamespace E d ns = do {
     prev \<leftarrow> synced_now E;
     upd_dstatus (\<lambda>st. st\<lparr>dst_error := msg_cross d ns\<rparr>);
     src_setCondition E ConditionSynced CondFalse ReasonCrossNamespaceRefused (msg_cross d ns);
     src_setCondition E ConditionReady CondFalse ReasonCrossNamespaceRefused (msg_cross d ns);
     x \<leftarrow> source_write E;
     (case x of
        Some e \<Rightarrow> ret (0, Some e)
      | None \<Rightarrow> do {
          whenM (case prev of None \<Rightarrow> True | Some c \<Rightarrow> c_reason c \<noteq> ReasonCrossNamespaceRefused)
            (event Warning ReasonCrossNamespaceRefused (msg_cross d ns));
          ret (0, None) }) }"

definition src_paused :: "'e env_scheme \<Rightarrow> outcome dsc" where
  "src_paused E = do {
     src_setCondition E ConditionPaused CondTrue ''Paused'' ''Discovery is paused'';
     src_setCondition E ConditionSynced CondUnknown ''Paused'' ''Sync suspended while paused'';
     x \<leftarrow> source_write E;
     ret (case x of Some e \<Rightarrow> (0, Some e) | None \<Rightarrow> (pausedRequeueAfter, None)) }"

definition discovery_failed :: "'e env_scheme \<Rightarrow> gerr \<Rightarrow> outcome dsc" where
  "discovery_failed E e = do {
     upd_dstatus (\<lambda>st. st\<lparr>dst_error := err_text e\<rparr>);
     src_setCondition E ConditionSynced CondFalse ''DiscoveryFailed'' (err_text e);
     src_setCondition E ConditionReady CondFalse ''DiscoveryFailed'' (err_text e);
     x \<leftarrow> source_write E;
     (case x of
        Some w \<Rightarrow> ret (0, Some w)
      | None \<Rightarrow> do {
          event Warning ReasonSyncFailed (''Discovery failed: '' @ err_text e);
          ret (errorRequeueAfter, None) }) }"

definition set_sync_status :: "discovery_source \<Rightarrow> int \<Rightarrow> int \<Rightarrow> int \<Rightarrow> sync_acc \<Rightarrow> source_status \<Rightarrow> source_status" where
  "set_sync_status d count began ended a st = st\<lparr>
     dst_discovered := count, dst_managed := sa_managed a, dst_last_sync := Some ended,
     dst_duration := Some (ended - began), dst_next := Some (ended + refresh_interval d),
     dst_servers := sa_servers a\<rparr>"

definition report_sync :: "'e env_scheme \<Rightarrow> found \<Rightarrow> int \<Rightarrow> string list \<Rightarrow> unit dsc" where
  "report_sync E m managed errs = do {
     (if errs \<noteq> [] then do {
        upd_dstatus (\<lambda>st. st\<lparr>dst_error := join ''; '' errs\<rparr>);
        src_setCondition E ConditionSynced CondFalse ''PartialFailure'' (join ''; '' errs) }
      else do {
        upd_dstatus (\<lambda>st. st\<lparr>dst_error := []\<rparr>);
        src_setCondition E ConditionSynced CondTrue ''SyncCompleted''
          (''Discovered '' @ itoa (int (length m)) @ '' providers'') });
     (if m \<noteq> [] \<or> errs = [] then
        src_setCondition E ConditionReady CondTrue ''Ready'' (''Managing '' @ itoa managed @ '' providers'')
      else src_setCondition E ConditionReady CondFalse ''NoProviders'' ''No providers discovered'') }"

text \<open>\<open>prevSynced.Status != nowSynced.Status\<close> or its reason; a condition just set is there.\<close>
definition synced_changed :: "condition option \<Rightarrow> condition option \<Rightarrow> bool" where
  "synced_changed prev cur = (case prev of
     None \<Rightarrow> True
   | Some p \<Rightarrow> map_option c_status cur \<noteq> Some (c_status p) \<or> map_option c_reason cur \<noteq> Some (c_reason p))"

definition finish_sync ::
  "'e env_scheme \<Rightarrow> discovery_source \<Rightarrow> int \<Rightarrow> found \<Rightarrow> sync_acc \<Rightarrow> string list \<Rightarrow> outcome dsc" where
  "finish_sync E d began m a errs = do {
     ended \<leftarrow> now E;
     prev \<leftarrow> synced_now E;
     ob \<leftarrow> the_obj;
     (let count = to_i32 (int (length m)) in do {
        upd_dstatus (set_sync_status d count began ended a);
        report_sync E m (sa_managed a) errs;
        emit (Metric ''discovery_source_count'' [d_ns d, d_name d]);
        emit (Metric ''discovery_sync_duration_seconds'' [d_ns d, d_name d]);
        x \<leftarrow> source_write E;
        (case x of
           Some e \<Rightarrow> ret (0, Some e)
         | None \<Rightarrow> do {
             cur \<leftarrow> synced_now E;
             whenM (dst_discovered (d_status ob) \<noteq> count \<or> dst_managed (d_status ob) \<noteq> sa_managed a
                 \<or> synced_changed prev cur)
               (event Normal ReasonSyncCompleted (''Sync completed: discovered='' @ itoa (int (length m))
                 @ '', managed='' @ itoa (sa_managed a) @ '', errors='' @ itoa (int (length errs))));
             ret (refresh_interval d, None) }) }) }"

definition sync_found :: "'e env_scheme \<Rightarrow> discovery_source \<Rightarrow> int \<Rightarrow> found \<Rightarrow> string list \<Rightarrow> outcome dsc" where
  "sync_found E d began m scanErrors = do {
     ns \<leftarrow> ask (\<lambda>l. range_order E l (map fst m));
     a \<leftarrow> sync_names E d m ns sync_start;
     gone \<leftarrow> (if IsAuthoritative d then authoritativeSync E d m else ret []);
     finish_sync E d began m a (scanErrors @ sa_errors a @ gone) }"

definition sync_source :: "'e env_scheme \<Rightarrow> discovery_source \<Rightarrow> outcome dsc" where
  "sync_source E d = do {
     began \<leftarrow> now E;
     r \<leftarrow> discoverProviders E d;
     (case r of
        Inl e \<Rightarrow> discovery_failed E e
      | Inr x \<Rightarrow> sync_found E d began (applyFilters E d (fst x)) (snd x)) }"

definition src_reconcileNormal :: "'e env_scheme \<Rightarrow> discovery_source \<Rightarrow> outcome dsc" where
  "src_reconcileNormal E d = (if IsPaused d then src_paused E
     else do {
       src_setCondition E ConditionPaused CondFalse ''Active'' ''Discovery is active'';
       upd_obj (\<lambda>ob. ob\<lparr>d_status := (d_status ob)\<lparr>dst_observed := m_generation (d_meta ob)\<rparr>\<rparr>);
       (if snd (crossNamespaceConfigMap d) then refuseCrossNamespace E d (fst (crossNamespaceConfigMap d))
        else sync_source E d) })"

section \<open>Deletion\<close>

text \<open>A failed deletion is only logged.\<close>
definition remove_managed :: "'e env_scheme \<Rightarrow> discovery_source \<Rightarrow> unit dsc" where
  "remove_managed E d = (if \<not> IsAuthoritative d \<and> \<not> ShouldSetController d then ret ()
     else do {
       r \<leftarrow> fetch_list ServerKind (list_servers E) (d_ns d) (Some (managed_selector d));
       (case r of
          Inl e \<Rightarrow> ret ()
        | Inr ss \<Rightarrow> for_each (\<lambda>s. do { x \<leftarrow> perform E (Delete ServerKind (s_ns s) (s_name s)); ret () }) ss) })"

definition ClearDiscoveryMetrics :: "discovery_source \<Rightarrow> unit dsc" where
  "ClearDiscoveryMetrics d = emit (Metric ''clear_discovery_metrics'' [d_ns d, d_name d])"

definition src_reconcileDelete :: "'e env_scheme \<Rightarrow> discovery_source \<Rightarrow> outcome dsc" where
  "src_reconcileDelete E d = do {
     remove_managed E d;
     ClearDiscoveryMetrics d;
     upd_obj (\<lambda>ob. ob\<lparr>d_meta := (d_meta ob)\<lparr>m_finalizers :=
       remove_finalizer E (m_finalizers (d_meta ob)) finalizerName\<rparr>\<rparr>);
     ob \<leftarrow> the_obj;
     x \<leftarrow> perform E (Update (KSource ob));
     (case x of
        Some e \<Rightarrow> ret (0, Some e)
      | None \<Rightarrow> do { event Normal ''Deleted'' ''Discovery source deleted''; ret (0, None) }) }"

definition source_Reconcile :: "'e env_scheme \<Rightarrow> string \<Rightarrow> string \<Rightarrow> outcome dsc" where
  "source_Reconcile E ns n = do {
     r \<leftarrow> fetch SourceKind (get_source E) ns n;
     (case r of
        Inl e \<Rightarrow> ret (0, ignore_not_found e)
      | Inr d \<Rightarrow> do {
          upd_obj (\<lambda>_. d);
          set_base (d_status d);
          (if m_deletion (d_meta d) \<noteq> None then src_reconcileDelete E d
           else if \<not> contains_finalizer E (m_finalizers (d_meta d)) finalizerName then (
             let d1 = d\<lparr>d_meta := (d_meta d)\<lparr>m_finalizers := add_finalizer E (m_finalizers (d_meta d)) finalizerName\<rparr>\<rparr> in do {
               upd_obj (\<lambda>_. d1);
               x \<leftarrow> perform E (Update (KSource d1));
               (case x of Some e \<Rightarrow> ret (0, Some e) | None \<Rightarrow> src_reconcileNormal E d1) })
           else src_reconcileNormal E d) }) }"

end
