(* ===== verification/DiscoverySync.thy ===== *)
theory DiscoverySync
  imports Discovery
begin

text \<open>
  What is shown of the MCPDiscoverySource reconciler: the filters keep at most the
  configured number of matching names and the smallest of them; a sync touches only
  servers it discovered, or manages and did not discover; a refused or paused source
  reads nothing; the status tells what was found; deletion leaves what it should.
\<close>

section \<open>Sorted names\<close>

lemma str_le_total: "\<not> str_le x y \<Longrightarrow> str_le y x"
  by (induction x y rule: str_le.induct) (auto simp: not_less_iff_gr_or_eq)

lemma str_le_trans: "str_le x y \<Longrightarrow> str_le y z \<Longrightarrow> str_le x z"
proof (induction x y arbitrary: z rule: str_le.induct)
  case (3 c s d t)
  then show ?case by (cases z) auto
qed auto

lemma set_str_insert [simp]: "set (str_insert x ys) = insert x (set ys)"
  by (induction ys) auto

lemma sorted_str_insert: "sorted_wrt str_le ys \<Longrightarrow> sorted_wrt str_le (str_insert x ys)"
proof (induction ys)
  case (Cons y ys)
  show ?case
  proof (cases "str_le x y")
    case True
    then show ?thesis using Cons.prems by (auto intro: str_le_trans)
  next
    case False
    then show ?thesis using Cons str_le_total [OF False] by auto
  qed
qed simp

lemma sort_strings_sorted: "sorted_wrt str_le (sort_strings xs)"
  unfolding sort_strings_def by (induction xs) (auto intro: sorted_str_insert)

lemma set_sort_strings [simp]: "set (sort_strings xs) = set xs"
  unfolding sort_strings_def by (induction xs) auto

lemma length_str_insert [simp]: "length (str_insert x ys) = Suc (length ys)"
  by (induction ys) auto

lemma length_sort_strings [simp]: "length (sort_strings xs) = length xs"
  unfolding sort_strings_def by (induction xs) auto

lemma distinct_sort_strings [simp]: "distinct (sort_strings xs) = distinct xs"
  by (metis card_distinct distinct_card length_sort_strings set_sort_strings)

section \<open>Filters\<close>

lemma sorted_take: "sorted_wrt P xs \<Longrightarrow> x \<in> set (take n xs) \<Longrightarrow> y \<in> set (drop n xs) \<Longrightarrow> P x y"
  by (metis append_take_drop_id sorted_wrt_append)

lemma lookup_entry: "distinct (map fst m) \<Longrightarrow> e \<in> set m \<Longrightarrow> (fst e, the (map_of m (fst e))) = e"
  by (cases e) (simp add: map_of_is_SomeI)

lemma lookup_first:
  assumes "distinct (map fst m)"
  shows "set (map (\<lambda>n. (n, the (map_of m n))) (take k (sort_strings (map fst m)))) \<subseteq> set m"
proof
  fix e assume "e \<in> set (map (\<lambda>n. (n, the (map_of m n))) (take k (sort_strings (map fst m))))"
  then obtain n where n: "e = (n, the (map_of m n))" "n \<in> set (take k (sort_strings (map fst m)))" by auto
  then have "n \<in> fst ` set m" using in_set_takeD [OF n(2)] by simp
  then show "e \<in> set m" using lookup_entry [OF assms] n(1) by fastforce
qed

lemma filters_sub:
  assumes "distinct (map fst m)"
  shows "set (applyFilters L d m) \<subseteq> set m \<and> distinct (map fst (applyFilters L d m))"
proof -
  have dis: "distinct (map fst (filter P m))" for P using assms by (rule distinct_map_filter)
  have "set (map (\<lambda>n. (n, the (map_of (filter P m) n))) (take k (sort_strings (map fst (filter P m))))) \<subseteq> set m" for P k
    using lookup_first [OF dis] filter_is_subset by (rule subset_trans)
  moreover have "distinct (map fst (map (\<lambda>n. (n, the (map_of (filter P m) n))) (take k (sort_strings (map fst (filter P m))))))"
    for P k using dis [of P] by (simp add: comp_def)
  ultimately show ?thesis using assms dis
    by (simp add: applyFilters_def Let_def split: option.split)
qed

text \<open>C26 Filters: of the discovered names those pass that match an include pattern (or there is
  none) and no exclude pattern, with what was discovered under them; a limit that is
  exceeded keeps exactly that many, and no name left out sorts before one that is kept.\<close>
theorem filters_keep_the_first:
  assumes "distinct (map fst m)" and "dsp_filters (d_spec d) = Some f" and "df_max f = Some k" and "0 \<le> k"
    and "int (length m) < 2 ^ 31"
  shows "set (applyFilters L d m) \<subseteq> {e \<in> set m. passes L f (fst e)}
    \<and> distinct (map fst (applyFilters L d m))
    \<and> length (applyFilters L d m) = min (nat k) (length (filter (\<lambda>e. passes L f (fst e)) m))
    \<and> (\<forall>e \<in> set (applyFilters L d m). \<forall>e' \<in> set m. passes L f (fst e') \<longrightarrow>
         e' \<in> set (applyFilters L d m) \<or> str_le (fst e) (fst e'))"
proof -
  let ?m = "filter (\<lambda>e. passes L f (fst e)) m"
  have "int (length ?m) < 2 ^ 31" using length_filter_le [of "\<lambda>e. passes L f (fst e)" m] assms(5) by linarith
  then have i: "to_i32 (int (length ?m)) = int (length ?m)" by (intro to_i32_id) (simp add: is_i32_def)
  have dis: "distinct (map fst ?m)" using assms(1) by (rule distinct_map_filter)
  show ?thesis
  proof (cases "int (length ?m) > k")
    case False
    then have "applyFilters L d m = ?m" using assms(2,3) by (simp add: applyFilters_def i Let_def)
    then show ?thesis using False assms(4) dis by auto
  next
    case True
    let ?ns = "sort_strings (map fst ?m)" and ?g = "\<lambda>n. (n, the (map_of ?m n))"
    have r: "applyFilters L d m = map ?g (take (nat k) ?ns)" using True assms(2,3) by (simp add: applyFilters_def i Let_def)
    have sub: "set (applyFilters L d m) \<subseteq> set ?m" unfolding r using dis by (rule lookup_first)
    have fsts: "map fst (applyFilters L d m) = take (nat k) ?ns" by (simp add: r comp_def)
    have "e' \<in> set (applyFilters L d m) \<or> str_le (fst e) (fst e')"
      if e: "e \<in> set (applyFilters L d m)" "e' \<in> set ?m" for e e'
    proof (cases "fst e' \<in> set (take (nat k) ?ns)")
      case True
      have "?g (fst e') = e'" using e(2) by (rule lookup_entry [OF dis])
      then show ?thesis unfolding r set_map by (rule_tac disjI1, rule_tac image_eqI [OF _ True]) simp
    next
      case False
      have "fst e' \<in> set (take (nat k) ?ns @ drop (nat k) ?ns)"
        unfolding append_take_drop_id set_sort_strings set_map using e(2) by (rule imageI)
      then have "fst e' \<in> set (drop (nat k) ?ns)" using False unfolding set_append by blast
      moreover have "fst e \<in> set (take (nat k) ?ns)" unfolding fsts [symmetric] set_map using e(1) by (rule imageI)
      ultimately show ?thesis using sorted_take [OF sort_strings_sorted] by blast
    qed
    moreover have "length (applyFilters L d m) = min (nat k) (length ?m)" by (simp add: r)
    moreover have "distinct (map fst (applyFilters L d m))" unfolding fsts using dis by simp
    ultimately show ?thesis using sub by auto
  qed
qed

section \<open>What a scan finds\<close>

text \<open>Every name belongs to its entry and starts with the name of the source.\<close>
definition well_named :: "discovery_source \<Rightarrow> found \<Rightarrow> bool" where
  "well_named d m = (distinct (map fst m) \<and> (\<forall>(n, i) \<in> set m. in_name i = n \<and> (\<exists>x. n = full_name d x)))"

lemma well_named_Nil [simp]: "well_named d []" by (simp add: well_named_def)

lemma set_put: "set (amap_put k v m) \<subseteq> insert (k, v) (set m)"
  by (induction k v m rule: amap_put.induct) auto

lemma well_named_put:
  assumes "well_named d m" "\<exists>x. in_name i = full_name d x"
  shows "well_named d (amap_put (in_name i) i m)"
  unfolding well_named_def
proof (intro conjI ballI)
  show "distinct (map fst (amap_put (in_name i) i m))" using assms(1) by (simp add: well_named_def)
  fix e assume "e \<in> set (amap_put (in_name i) i m)"
  then have "e = (in_name i, i) \<or> e \<in> set m" using set_put [of "in_name i" i m] by auto
  then show "case e of (n, i) \<Rightarrow> in_name i = n \<and> (\<exists>x. n = full_name d x)"
    using assms unfolding well_named_def by auto
qed

lemma well_named_put_all:
  assumes "\<And>i. i \<in> set is \<Longrightarrow> \<exists>x. in_name i = full_name d x" "well_named d m"
  shows "well_named d (put_all is m)"
  using assms
proof (induction "is" arbitrary: m)
  case (Cons i "is")
  then show ?case using well_named_put [of d m i] by (simp add: put_all_def)
qed (simp add: put_all_def)

lemma well_named_filters: "well_named d m \<Longrightarrow> well_named d (applyFilters L d m)"
  using filters_sub [of m L d] unfolding well_named_def by blast

definition scan_ok :: "discovery_source \<Rightarrow> scan \<Rightarrow> bool" where
  "scan_ok d r = (case r of Inl e \<Rightarrow> True | Inr x \<Rightarrow> well_named d (fst x))"

lemma info_names [simp]:
  "in_name (namespace_info d ns) = full_name d (m_name (ns_meta ns))"
  "in_name (entry_info d c e) = full_name d (fst e)"
  "in_name (pod_info d req p) = full_name d (annotated_name req (pod_meta p))"
  "in_name (annotated_service_info d req s) = full_name d (annotated_name req (sv_meta s))"
  by (simp_all add: namespace_info_def entry_info_def pod_info_def annotated_service_info_def remote_info_def Let_def
      split: prod.split)

lemma service_info_name: "service_info d c s = Some i \<Longrightarrow> in_name i = full_name d (m_name (sv_meta s))"
  by (auto simp: service_info_def Let_def remote_info_def split: option.splits)

lemma map_filter_names: "i \<in> set (List.map_filter (service_info d c) ss) \<Longrightarrow> \<exists>x. in_name i = full_name d x"
  using service_info_name by (auto simp: List.map_filter_def)

text \<open>The effects of a scan: reads of namespaces, a ConfigMap, pods and services.\<close>
definition scan_effect :: "effect \<Rightarrow> bool" where
  "scan_effect e = (case e of ReadObj k _ _ \<Rightarrow> True | ListObjs k _ _ \<Rightarrow> k \<noteq> ServerKind | _ \<Rightarrow> False)"

lemma scan_effect_simps [simp]: "scan_effect (ReadObj k ns n)" "scan_effect (ListObjs k ns sel) = (k \<noteq> ServerKind)"
  by (simp_all add: scan_effect_def)

lemmas scan_defs = discoverProviders_def discoverNamespace_def discoverConfigMap_def discoverAnnotations_def
  discoverServices_def scan_pods_def scan_services_def

lemma scan_reads: "emits scan_effect (discoverProviders E d)"
  unfolding scan_defs Let_def by (cases "dsp_type (d_spec d)") (auto intro!: emits_intro split: option.split)

lemma scan_log_only: "log_only (discoverProviders E d)"
  unfolding scan_defs Let_def by (cases "dsp_type (d_spec d)") (auto intro!: log_only_intro split: option.split)

lemma put_all_named [simp]:
  "well_named d m \<Longrightarrow> well_named d (put_all (map (namespace_info d) nss) m)"
  "well_named d m \<Longrightarrow> well_named d (put_all (map (entry_info d c) es) m)"
  "well_named d m \<Longrightarrow> well_named d (put_all (map (pod_info d req) ps) m)"
  "well_named d m \<Longrightarrow> well_named d (put_all (map (annotated_service_info d req) ss) m)"
  "well_named d m \<Longrightarrow> well_named d (put_all (List.map_filter (service_info d sc) ss) m)"
  by (rule well_named_put_all; auto simp: map_filter_names)+

lemma scan_names: "scan_ok d (fst (run_state (discoverProviders E d) s))"
  by (cases "dsp_type (d_spec d)")
    (simp_all add: scan_defs scan_ok_def run_bind Let_def split: option.split sum.split)

section \<open>What a sync touches\<close>

text \<open>The servers a sync of \<open>d\<close> started in \<open>t\<close> goes on with.\<close>
definition scanned :: "'e env_scheme \<Rightarrow> discovery_source \<Rightarrow> (discovery_source, source_status, kept) st \<Rightarrow> found" where
  "scanned E d t = (case fst (run_state (discoverProviders E d) t) of
     Inl e \<Rightarrow> [] | Inr x \<Rightarrow> applyFilters E d (fst x))"

text \<open>A server that was discovered, under a valid name that starts with the source's.\<close>
definition discovered_as :: "'e env_scheme \<Rightarrow> discovery_source \<Rightarrow> found \<Rightarrow> mcp_server \<Rightarrow> bool" where
  "discovered_as E d m s = (s_ns s = d_ns d \<and> validateDiscoveredName E (s_name s) = None
     \<and> (\<exists>x. s_name s = full_name d x)
     \<and> (\<exists>i x. map_of m (s_name s) = Some i \<and> mutate_server E d i x = Inr s))"

definition source_rule ::
  "'e env_scheme \<Rightarrow> discovery_source \<Rightarrow> found \<Rightarrow> nat \<Rightarrow> history \<Rightarrow> effect \<Rightarrow> bool" where
  "source_rule E d m n l e = (case e of
     Create (KServer s) \<Rightarrow> discovered_as E d m s
   | Update (KServer s) \<Rightarrow> discovered_as E d m s
   | Delete k ns nm \<Rightarrow> k = ServerKind \<and> IsAuthoritative d \<and> map_of m nm = None
       \<and> (\<exists>ss. members_listed E (d_ns d) (managed_selector d) ss n l \<and> (\<exists>s \<in> set ss. s_ns s = ns \<and> s_name s = nm))
   | _ \<Rightarrow> harmless e)"

lemma source_rule_harmless: "harmless e \<Longrightarrow> source_rule E d m n l e"
  by (cases e) (simp_all add: source_rule_def)

lemma emits_upsert:
  assumes "\<And>l e. e \<in> set (snd (upsert_server E l ns n f)) \<Longrightarrow> A e"
  shows "emits A (upsert E ns n f)"
proof -
  have "triple (\<lambda>l e. A e) (\<lambda>s. True) (ask (\<lambda>l. upsert_server E l ns n f)) (\<lambda>r s. \<exists>l. r = upsert_server E l ns n f)"
    by (rule triple_pre, rule wp) blast
  moreover have "triple (\<lambda>l e. A e) (\<lambda>s. \<exists>l. r = upsert_server E l ns n f)
      (do { for_each emit (snd r); ret (fst r) }) (\<lambda>a s. True)" for r
  proof (cases "\<exists>l. r = upsert_server E l ns n f")
    case True
    then show ?thesis using assms by (intro triple_pre [OF emits_bind]) (auto intro!: emits_intro)
  qed (auto simp: triple_def)
  ultimately show ?thesis unfolding upsert_def by (rule triple_bind)
qed

lemma sync_names_effects:
  assumes "lib_upsert E" "well_named d m"
  shows "emits (\<lambda>e. \<forall>l. source_rule E d m n l e) (sync_names E d m ns a)"
proof (induction ns arbitrary: a)
  case (Cons nm ns)
  have ups: "emits (\<lambda>e. \<forall>l. source_rule E d m n l e) (upsert E (d_ns d) (in_name i) (mutate_server E d i))"
    if i: "map_of m nm = Some i" "validateDiscoveredName E nm = None" for i
  proof (rule emits_upsert, intro allI)
    fix l0 e l assume "e \<in> set (snd (upsert_server E l0 (d_ns d) (in_name i) (mutate_server E d i)))"
    then have e: "e = ReadObj ServerKind (d_ns d) (in_name i) \<or> (\<exists>x s. mutate_server E d i x = Inr s
        \<and> s_ns s = d_ns d \<and> s_name s = in_name i \<and> (e = Create (KServer s) \<or> e = Update (KServer s)))"
      using upserting.ups_effects [OF assms(1)] by blast
    have "in_name i = nm \<and> (\<exists>x. nm = full_name d x)"
      using map_of_SomeD [OF i(1)] assms(2) by (auto simp: well_named_def)
    then show "source_rule E d m n l e" using e i
      by (auto simp: source_rule_def discovered_as_def)
  qed
  show ?case
    by (auto intro!: emits_intro Cons.IH ups simp: createOrUpdateMCPServer_def split: option.split)
qed (simp add: emits_ret)

lemma remove_gone_effects:
  "emits (\<lambda>e. case e of Delete k ns nm \<Rightarrow> k = ServerKind \<and> map_of m nm = None \<and> (\<exists>s \<in> set ss. s_ns s = ns \<and> s_name s = nm)
     | _ \<Rightarrow> harmless e) (remove_gone E m ss)"
proof (induction ss)
  case (Cons s ss)
  have "emits (\<lambda>e. case e of Delete k ns nm \<Rightarrow> k = ServerKind \<and> map_of m nm = None
      \<and> (\<exists>s' \<in> set (s # ss). s_ns s' = ns \<and> s_name s' = nm) | _ \<Rightarrow> harmless e) (remove_gone E m ss)"
    by (rule emits_mono [OF Cons]) (auto split: effect.splits)
  then show ?case unfolding remove_gone.simps by (auto intro!: emits_intro)
qed (simp add: emits_ret)

lemma authoritative_effects:
  assumes "IsAuthoritative d"
  shows "triple (source_rule E d m n) (\<lambda>t. n \<le> length (st_log t)) (authoritativeSync E d m) (\<lambda>r t. n \<le> length (st_log t))"
proof -
  let ?sel = "managed_selector d"
  have lst: "triple (source_rule E d m n) (\<lambda>t. n \<le> length (st_log t))
      (fetch_list ServerKind (list_servers E) (d_ns d) (Some ?sel))
      (\<lambda>r t. n \<le> length (st_log t) \<and> (case r of Inl e \<Rightarrow> True | Inr ss \<Rightarrow> members_listed E (d_ns d) ?sel ss n (st_log t)))"
    by (rule triple_pre, rule wp) (auto simp: source_rule_harmless intro: members_listed_now split: sum.split)
  have rm: "triple (source_rule E d m n)
      (\<lambda>t. n \<le> length (st_log t) \<and> members_listed E (d_ns d) ?sel ss n (st_log t)) (remove_gone E m ss)
      (\<lambda>r t. n \<le> length (st_log t))" for ss
    by (rule triple_post, rule triple_invariant [OF remove_gone_effects [of m ss]])
      (auto simp: source_rule_def assms intro: members_listed_append split: effect.splits)
  show ?thesis unfolding authoritativeSync_def
    by (rule triple_bind [OF lst], rule triple_sum, rule triple_return, simp, rule triple_pre [OF rm], simp)
qed

lemma emits_src_setCondition [emits_intro]: "emits A (src_setCondition E ty st r msg)"
  unfolding src_setCondition_def by (intro emits_intro)
lemma emits_upd_dstatus [emits_intro]: "emits A (upd_dstatus f)"
  unfolding upd_dstatus_def by (intro emits_intro)
lemma emits_synced_now [emits_intro]: "emits A (synced_now E)"
  unfolding synced_now_def by (intro emits_intro)

lemma finish_effects: "emits harmless (finish_sync E d began m a errs)"
  unfolding finish_sync_def report_sync_def Let_def by (auto intro!: emits_intro)

lemma failed_effects: "emits harmless (discovery_failed E e)"
  unfolding discovery_failed_def by (auto intro!: emits_intro)

lemma scan_harmless: "scan_effect e \<Longrightarrow> harmless e"
  by (cases e) (simp_all add: scan_effect_def)

lemma quiet_rule:
  assumes "emits harmless p"
  shows "triple (source_rule E d m n) (\<lambda>s. n \<le> length (st_log s)) p (\<lambda>a s. n \<le> length (st_log s))"
  by (rule triple_keep [OF emits_mono [OF assms]]) (simp_all add: source_rule_harmless)

lemma sync_found_effects:
  assumes "lib_upsert E" "well_named d m"
  shows "triple (source_rule E d m n) (\<lambda>s. n \<le> length (st_log s)) (sync_found E d began m errs) (\<lambda>a s. n \<le> length (st_log s))"
  unfolding sync_found_def
proof (rule triple_bind [OF quiet_rule [OF emits_silent(1)]], rule triple_bind, rule triple_keep, rule sync_names_effects [OF assms])
  show "triple (source_rule E d m n) (\<lambda>s. n \<le> length (st_log s)) (do {
      gone \<leftarrow> (if IsAuthoritative d then authoritativeSync E d m else ret []);
      finish_sync E d began m a (errs @ sa_errors a @ gone) }) (\<lambda>a s. n \<le> length (st_log s))" for a
    by (rule triple_bind [OF triple_if quiet_rule [OF finish_effects]], erule authoritative_effects, rule triple_return)
qed simp

text \<open>The state after a scan, when what is started in \<open>t\<close> goes on.\<close>
lemma scan_effects:
  "triple (source_rule E d m (length (st_log t))) (\<lambda>s. s = t) (discoverProviders E d)
     (\<lambda>x s. x = fst (run_state (discoverProviders E d) t) \<and> length (st_log t) \<le> length (st_log s))"
proof (rule triple_weaken, rule triple_run [OF scan_reads])
  fix s assume "s = t"
  moreover obtain x s1 where "run_state (discoverProviders E d) t = (x, s1)" by fastforce
  ultimately show "fst (run_state (discoverProviders E d) s) = fst (run_state (discoverProviders E d) t)
      \<and> length (st_log t) \<le> length (st_log (snd (run_state (discoverProviders E d) s)))"
    using emitsD [OF scan_reads] by fastforce
qed (auto intro: source_rule_harmless scan_harmless)

text \<open>C21 A sync touches only its own servers: it creates or updates only a server it just
  discovered, in its own namespace, as the source describes it and under a valid name
  that starts with the source's; it deletes only in authoritative mode, and only a server it
  listed by its own label in this sync that is not among those it goes on with: those the
  scan found and the filters of the spec kept.  A server that a filter drops is deleted like
  one that was not found.\<close>
theorem sync_touches_only_its_servers:
  assumes "lib_upsert E" and "run_state (sync_source E d) t = (r, t')"
    and "st_log t' = st_log t @ es" and "i < length es"
  shows "source_rule E d (scanned E d t) (length (st_log t)) (st_log t @ take i es) (es ! i)"
proof -
  let ?n = "length (st_log t)" and ?G = "source_rule E d (scanned E d t) (length (st_log t))"
  let ?r = "fst (run_state (discoverProviders E d) t)"
  have rest: "triple ?G (\<lambda>s. x = ?r \<and> ?n \<le> length (st_log s)) (case x of
        Inl e \<Rightarrow> discovery_failed E e
      | Inr y \<Rightarrow> sync_found E d began (applyFilters E d (fst y)) (snd y)) (\<lambda>a s. ?n \<le> length (st_log s))" for began x
  proof (cases "x = ?r")
    case True
    have named: "well_named d (applyFilters E d (fst y)) \<and> scanned E d t = applyFilters E d (fst y)" if y: "x = Inr y" for y
    proof -
      have r: "?r = Inr y" using True y by simp
      show ?thesis using scan_names [of d E t] by (simp add: scanned_def scan_ok_def r well_named_filters)
    qed
    show ?thesis using named
      by (intro triple_sum) (auto intro: triple_pre [OF quiet_rule [OF failed_effects]] triple_pre [OF sync_found_effects [OF assms(1)]])
  qed (simp add: triple_def)
  have "triple ?G (\<lambda>s. s = t) (sync_source E d) (\<lambda>a s. ?n \<le> length (st_log s))"
    unfolding sync_source_def
    by (rule triple_bind, rule triple_pre, rule wp, assumption, rule triple_bind [OF scan_effects rest])
  then show ?thesis by (rule tripleD(2) [OF _ _ assms(2-4)]) simp
qed

section \<open>What a sync reports\<close>

lemma log_only_for_each: "(\<And>x. log_only (f x)) \<Longrightarrow> log_only (for_each f xs)"
  by (induction xs) (auto intro!: log_only_intro)

lemma sync_names_log_only: "log_only (sync_names E d m ns a)"
  by (induction ns arbitrary: a)
    (auto intro!: log_only_intro log_only_for_each simp: createOrUpdateMCPServer_def upsert_def split: option.split)

lemma remove_gone_log_only: "log_only (remove_gone E m ss)"
  by (induction ss) (auto intro!: log_only_intro)

lemma authoritative_log_only: "log_only (authoritativeSync E d m)"
  unfolding authoritativeSync_def by (intro log_only_intro remove_gone_log_only)

text \<open>The counter and the errors of the loop are those of the entries it recorded.\<close>
definition acc_ok :: "sync_acc \<Rightarrow> bool" where
  "acc_ok a = (sa_managed a = to_i32 (int (length (filter dss_managed (sa_servers a))))
     \<and> (sa_errors a = [] \<longleftrightarrow> list_all dss_managed (sa_servers a)))"

lemma record_sync_ok: "acc_ok a \<Longrightarrow> acc_ok (record_sync n i at x a)"
  by (cases x) (auto simp: acc_ok_def record_sync_def add.commute)

lemma sync_names_result:
  assumes "acc_ok a"
  shows "acc_ok (fst (run_state (sync_names E d m ns a) s))
    \<and> map dss_name (sa_servers (fst (run_state (sync_names E d m ns a) s)))
        = map dss_name (sa_servers a) @ filter (\<lambda>n. map_of m n \<noteq> None) ns"
  using assms
proof (induction ns arbitrary: a s)
  case (Cons n ns)
  have names: "map dss_name (sa_servers (record_sync n i at x a)) = map dss_name (sa_servers a) @ [n]" for i at x
    by (cases x) (simp_all add: record_sync_def)
  show ?case using Cons.IH [OF record_sync_ok [OF Cons.prems]] Cons.IH [OF Cons.prems]
    by (auto simp: run_bind names split: option.split prod.split)
qed simp

lemma write_patches:
  assumes "run_state (source_write E) s = (x, s')" "st_base s = Some b" "b \<noteq> d_status (st_obj s)"
  shows "st_log s' = st_log s @ [StatusPatch (KSource (st_obj s))]"
  using assms by (auto simp: writeStatus_def run_bind split: option.splits)

definition scond :: "discovery_source \<Rightarrow> string \<Rightarrow> cond_status \<Rightarrow> string \<Rightarrow> string \<Rightarrow> condition" where
  "scond d ty status reason msg = \<lparr>c_type = ty, c_status = status, c_reason = reason, c_message = msg,
     c_generation = m_generation (d_meta d), c_transition = 0\<rparr>"

lemma run_src_setCondition: "run_state (src_setCondition E ty status reason msg) s =
    ((), s\<lparr>st_obj := (st_obj s)\<lparr>d_status := (d_status (st_obj s))\<lparr>dst_conditions :=
      set_condition E (clock E (st_log s)) (dst_conditions (d_status (st_obj s)))
        (scond (st_obj s) ty status reason msg)\<rparr>\<rparr>\<rparr>)"
  by (simp add: src_setCondition_def run_bind scond_def)

definition synced_is :: "'e env_scheme \<Rightarrow> cond_status \<Rightarrow> discovery_source \<Rightarrow> bool" where
  "synced_is E x d = (map_option c_status (find_condition E (dst_conditions (d_status d)) ConditionSynced) = Some x)"

lemma scond_simps [simp]:
  "c_type (scond d ty st r msg) = ty" "c_status (scond d ty st r msg) = st"
  by (simp_all add: scond_def)

lemma synced_set:
  assumes "lib_conds E"
  shows "synced_is E x (d\<lparr>d_status := st\<lparr>dst_conditions := set_condition E t cs c\<rparr>\<rparr>) \<longleftrightarrow>
    (if ConditionSynced = c_type c then x = c_status c else synced_is E x (d\<lparr>d_status := st\<lparr>dst_conditions := cs\<rparr>\<rparr>))"
  using condition_list.find_set_same [OF assms, of t cs c] condition_list.find_set_other [OF assms, of ConditionSynced c t cs]
  by (auto simp: synced_is_def)

lemma run_report:
  assumes "lib_conds E" "run_state (report_sync E m managed errs) s = (u, s')"
  shows "s' = s\<lparr>st_obj := st_obj s'\<rparr>"
    "synced_is E (if errs = [] then CondTrue else CondFalse) (st_obj s')"
    "let st = d_status (st_obj s'); st0 = d_status (st_obj s) in
        dst_discovered st = dst_discovered st0 \<and> dst_managed st = dst_managed st0 \<and> dst_servers st = dst_servers st0
        \<and> dst_last_sync st = dst_last_sync st0 \<and> dst_error st = join ''; '' errs"
proof -
  have ne: "ConditionSynced \<noteq> ConditionReady" by (simp add: ConditionSynced_def ConditionReady_def)
  note r = assms(2) [unfolded report_sync_def]
  show "s' = s\<lparr>st_obj := st_obj s'\<rparr>"
    using r by (auto simp: run_bind upd_dstatus_def run_src_setCondition split: if_splits)
  show "synced_is E (if errs = [] then CondTrue else CondFalse) (st_obj s')"
    using r by (auto simp: run_bind upd_dstatus_def run_src_setCondition synced_set [OF assms(1)] ne split: if_splits)
  show "let st = d_status (st_obj s'); st0 = d_status (st_obj s) in
        dst_discovered st = dst_discovered st0 \<and> dst_managed st = dst_managed st0 \<and> dst_servers st = dst_servers st0
        \<and> dst_last_sync st = dst_last_sync st0 \<and> dst_error st = join ''; '' errs"
    using r by (auto simp: run_bind upd_dstatus_def run_src_setCondition Let_def split: if_splits)
qed

lemma finish_reports:
  assumes "lib_conds E" "run_state (finish_sync E d began m a errs) s = (r, s')"
  shows "synced_is E (if errs = [] then CondTrue else CondFalse) (st_obj s')
    \<and> (let st = d_status (st_obj s') in
        dst_discovered st = to_i32 (int (length m)) \<and> dst_managed st = sa_managed a \<and> dst_servers st = sa_servers a
        \<and> dst_last_sync st = Some (clock E (st_log s)) \<and> dst_error st = join ''; '' errs)"
proof -
  let ?s = "s\<lparr>st_obj := (st_obj s)\<lparr>d_status := set_sync_status d (to_i32 (int (length m))) began (clock E (st_log s)) a
    (d_status (st_obj s))\<rparr>\<rparr>"
  obtain u s1 where rep: "run_state (report_sync E m (sa_managed a) errs) ?s = (u, s1)" by (metis surj_pair)
  note rr = run_report [OF assms(1) rep]
  have "st_obj s' = st_obj s1"
    using assms(2) rep
    by (auto simp: finish_sync_def run_bind synced_now_def upd_dstatus_def Let_def dest!: write_keeps_obj
        split: prod.splits option.splits if_splits)
  then show ?thesis using rr(2,3) by (simp add: Let_def set_sync_status_def)
qed

lemma base_report: "run_state (report_sync E m managed errs) s = (u, s') \<Longrightarrow> st_base s' = st_base s \<and> st_log s' = st_log s"
  by (auto simp: report_sync_def run_bind upd_dstatus_def run_src_setCondition split: if_splits)

text \<open>A sync that ends at a time other than the last one in the status read writes it.\<close>
lemma finish_writes:
  assumes "lib_conds E" "run_state (finish_sync E d began m a errs) s = (r, s')" "st_base s = Some b"
    and "dst_last_sync b \<noteq> Some (clock E (st_log s))"
  shows "\<exists>es. st_log s' = st_log s @ es \<and> StatusPatch (KSource (st_obj s')) \<in> set es"
proof -
  let ?s = "s\<lparr>st_obj := (st_obj s)\<lparr>d_status := set_sync_status d (to_i32 (int (length m))) began (clock E (st_log s)) a
    (d_status (st_obj s))\<rparr>\<rparr>"
  obtain u s1 where rep: "run_state (report_sync E m (sa_managed a) errs) ?s = (u, s1)" by (metis surj_pair)
  let ?s2 = "s1\<lparr>st_log := st_log s1 @ [Metric ''discovery_source_count'' [d_ns d, d_name d],
     Metric ''discovery_sync_duration_seconds'' [d_ns d, d_name d]]\<rparr>"
  obtain x s3 where w: "run_state (source_write E) ?s2 = (x, s3)" by fastforce
  have "dst_last_sync (d_status (st_obj s1)) = Some (clock E (st_log s))"
    using run_report(3) [OF assms(1) rep] by (simp add: Let_def set_sync_status_def)
  then have "b \<noteq> d_status (st_obj ?s2)" using assms(4) by auto
  then have l: "st_log s3 = st_log ?s2 @ [StatusPatch (KSource (st_obj ?s2))]"
    using write_patches [OF w] base_report [OF rep] assms(3) by simp
  have "\<exists>fs. st_log s' = st_log s3 @ fs \<and> st_obj s' = st_obj s3"
    using assms(2) rep w
    by (auto simp: finish_sync_def run_bind synced_now_def upd_dstatus_def Let_def split: prod.splits option.splits if_splits)
  then show ?thesis using l base_report [OF rep] write_keeps_obj [OF w] by auto
qed

text \<open>A sync that found something, cut at its end.\<close>
lemma sync_source_split:
  assumes "run_state (sync_source E d) t = (r, t')" "fst (run_state (discoverProviders E d) t) = Inr x"
  shows "\<exists>s1 s2 gone. let m = applyFilters E d (fst x); a = fst (run_state (sync_names E d m (range_order E (st_log s1) (map fst m)) sync_start) s1) in
    st_base s2 = st_base t \<and> (\<exists>es. st_log s2 = st_log t @ es)
    \<and> run_state (finish_sync E d (clock E (st_log t)) m a (snd x @ sa_errors a @ gone)) s2 = (r, t')"
proof -
  let ?m = "applyFilters E d (fst x)"
  obtain s1 where s1: "run_state (discoverProviders E d) t = (Inr x, s1)" using assms(2) by (metis fst_conv surj_pair)
  let ?ns = "range_order E (st_log s1) (map fst ?m)"
  obtain a s3 where a: "run_state (sync_names E d ?m ?ns sync_start) s1 = (a, s3)" by fastforce
  let ?g = "if IsAuthoritative d then authoritativeSync E d ?m else ret []"
  obtain g s2 where g: "run_state ?g s3 = (g, s2)" by fastforce
  have "log_only ?g" by (simp add: authoritative_log_only log_only_ret)
  then have base: "st_base s2 = st_base t"
    using log_onlyD [OF scan_log_only s1] log_onlyD [OF sync_names_log_only a] log_onlyD [OF _ g] by simp
  have gone: "emits (\<lambda>e. True) ?g"
    by (auto simp: authoritativeSync_def intro!: emits_intro emits_mono [OF remove_gone_effects])
  have names: "emits (\<lambda>e. True) (sync_names E d m ns b)" for m ns b
    by (induction ns arbitrary: b)
      (auto intro!: emits_intro emits_upsert simp: createOrUpdateMCPServer_def split: option.split)
  have "\<exists>es. st_log s2 = st_log t @ es"
    using emitsD [OF scan_reads s1] emitsD [OF names a] emitsD [OF gone g] by auto
  moreover have "run_state (finish_sync E d (clock E (st_log t)) ?m a (snd x @ sa_errors a @ g)) s2 = (r, t')"
    using assms(1) s1 a g by (simp add: sync_source_def sync_found_def run_bind)
  ultimately show ?thesis using base a by (intro exI [of _ s1] exI [of _ s2] exI [of _ g]) (simp add: Let_def)
qed

text \<open>C23 The report of a sync is complete: whatever the order of the map, the status lists
  every discovered name exactly once, counts them and those it manages, and says
  Synced only when the scan had no errors and every discovered server is managed.\<close>
theorem sync_report_is_complete:
  assumes "lib_conds E" and "lib_range E" and "run_state (sync_source E d) t = (r, t')"
    and "fst (run_state (discoverProviders E d) t) = Inr x"
  shows "let st = d_status (st_obj t'); m = applyFilters E d (fst x) in
    distinct (map dss_name (dst_servers st)) \<and> set (map dss_name (dst_servers st)) = fst ` set m
    \<and> dst_discovered st = to_i32 (int (length m))
    \<and> dst_managed st = to_i32 (int (length (filter dss_managed (dst_servers st))))
    \<and> (synced_is E CondTrue (st_obj t') \<longrightarrow> snd x = [] \<and> list_all dss_managed (dst_servers st))"
proof -
  let ?m = "applyFilters E d (fst x)"
  obtain s1 s2 gone where "let a = fst (run_state (sync_names E d ?m (range_order E (st_log s1) (map fst ?m)) sync_start) s1) in
      run_state (finish_sync E d (clock E (st_log t)) ?m a (snd x @ sa_errors a @ gone)) s2 = (r, t')"
    using sync_source_split [OF assms(3,4)] unfolding Let_def by blast
  then obtain a where fin: "run_state (finish_sync E d (clock E (st_log t)) ?m a (snd x @ sa_errors a @ gone)) s2 = (r, t')"
    and a: "a = fst (run_state (sync_names E d ?m (range_order E (st_log s1) (map fst ?m)) sync_start) s1)"
    by (simp add: Let_def)
  have "well_named d ?m" using scan_names [of d E t] assms(4) by (simp add: scan_ok_def well_named_filters)
  then have dis: "distinct (map fst ?m)" by (simp add: well_named_def)
  let ?ns = "range_order E (st_log s1) (map fst ?m)"
  have ns: "distinct ?ns" "set ?ns = fst ` set ?m" using assms(2) dis by auto
  then have "filter (\<lambda>n. map_of ?m n \<noteq> None) ?ns = ?ns" by (auto simp: filter_id_conv map_of_eq_None_iff)
  then have ok: "acc_ok a" "map dss_name (sa_servers a) = ?ns"
    using sync_names_result [of sync_start E d ?m ?ns s1] a by (simp_all add: acc_ok_def sync_start_def to_i32_def)
  show ?thesis
    using finish_reports [OF assms(1) fin] ok ns unfolding Let_def
    by (auto simp: acc_ok_def synced_is_def split: if_splits simp flip: set_map)
qed

text \<open>A sync always writes: when it ends at another time than the last sync in the status it
  was read with, it patches the status.\<close>
lemma sync_always_writes:
  assumes "lib_conds E" and "run_state (sync_source E d) t = (r, t')"
    and "fst (run_state (discoverProviders E d) t) = Inr x"
    and "st_base t = Some b" and "\<And>l. dst_last_sync b \<noteq> Some (clock E l)"
  shows "\<exists>es. st_log t' = st_log t @ es \<and> StatusPatch (KSource (st_obj t')) \<in> set es"
proof -
  obtain s2 a m errs es where "st_base s2 = st_base t" "st_log s2 = st_log t @ es"
    and "run_state (finish_sync E d (clock E (st_log t)) m a errs) s2 = (r, t')"
    using sync_source_split [OF assms(2,3)] unfolding Let_def by blast
  then show ?thesis using finish_writes [OF assms(1)] assms(4,5) by fastforce
qed

section \<open>A source that may not sync\<close>

definition status_only :: "effect \<Rightarrow> bool" where
  "status_only e = (case e of StatusPatch (KSource _) \<Rightarrow> True | StatusUpdate (KSource _) \<Rightarrow> True | Event _ _ _ \<Rightarrow> True | _ \<Rightarrow> False)"

lemma status_only_write: "emits status_only (source_write E)"
  unfolding writeStatus_def by (intro emits_intro) (auto simp: status_only_def)

lemma status_only_event: "emits status_only (event ty r msg)"
  by (rule emits_event) (simp add: status_only_def)

lemma refused_effects: "emits status_only (src_paused E)" "emits status_only (refuseCrossNamespace E d ns)"
  unfolding src_paused_def refuseCrossNamespace_def
  by (intro emits_intro status_only_write status_only_event)+

text \<open>C22 A source that is paused, or that names a ConfigMap in another namespace, does
  nothing: the reconcile reads no object, creates and deletes none, and only reports,
  with Synced not True.\<close>
theorem refused_source_reads_nothing:
  assumes "lib_conds E" and "IsPaused d \<or> snd (crossNamespaceConfigMap d)"
    and "run_state (src_reconcileNormal E d) t = (r, t')"
  shows "(\<exists>es. st_log t' = st_log t @ es \<and> list_all status_only es)
    \<and> synced_is E (if IsPaused d then CondUnknown else CondFalse) (st_obj t')"
proof
  have "emits status_only (src_reconcileNormal E d)"
    unfolding src_reconcileNormal_def using assms(2) by (auto intro!: emits_intro refused_effects)
  then show "\<exists>es. st_log t' = st_log t @ es \<and> list_all status_only es" using assms(3) by (rule emitsD)
  have ne: "ConditionSynced \<noteq> ConditionReady" "ConditionSynced \<noteq> ConditionPaused"
    by (simp_all add: ConditionSynced_def ConditionReady_def ConditionPaused_def)
  show "synced_is E (if IsPaused d then CondUnknown else CondFalse) (st_obj t')"
    using assms(2,3)
    by (auto simp: src_reconcileNormal_def src_paused_def refuseCrossNamespace_def synced_now_def run_bind upd_dstatus_def
        run_src_setCondition synced_set [OF assms(1)] ne dest!: write_keeps_obj split: if_splits prod.splits option.splits)
qed

section \<open>Deletion\<close>

text \<open>The servers a deletion may remove.\<close>
definition delete_rule :: "'e env_scheme \<Rightarrow> discovery_source \<Rightarrow> nat \<Rightarrow> history \<Rightarrow> effect \<Rightarrow> bool" where
  "delete_rule E d n l e = (case e of
     Delete k ns nm \<Rightarrow> k = ServerKind \<and> (IsAuthoritative d \<or> ShouldSetController d)
       \<and> (\<exists>ss. members_listed E (d_ns d) (managed_selector d) ss n l \<and> (\<exists>s \<in> set ss. s_ns s = ns \<and> s_name s = nm))
   | Update (KSource ob) \<Rightarrow> \<not> contains_finalizer E (m_finalizers (d_meta ob)) finalizerName
   | _ \<Rightarrow> harmless e)"

lemma remove_managed_effects:
  "triple (delete_rule E d n) (\<lambda>t. n \<le> length (st_log t)) (remove_managed E d) (\<lambda>u t. True)"
proof (cases "\<not> IsAuthoritative d \<and> \<not> ShouldSetController d")
  case False
  let ?sel = "managed_selector d"
  have lst: "triple (delete_rule E d n) (\<lambda>t. n \<le> length (st_log t))
      (fetch_list ServerKind (list_servers E) (d_ns d) (Some ?sel))
      (\<lambda>r t. case r of Inl e \<Rightarrow> True | Inr ss \<Rightarrow> members_listed E (d_ns d) ?sel ss n (st_log t))"
    by (rule triple_pre, rule wp) (auto simp: delete_rule_def intro: members_listed_now split: sum.split)
  have "emits (\<lambda>e. \<exists>s \<in> set ss. e = Delete ServerKind (s_ns s) (s_name s))
      (for_each (\<lambda>s. do { x \<leftarrow> perform E (Delete ServerKind (s_ns s) (s_name s)); ret () }) ss)" for ss
    by (intro emits_intro) auto
  then have rm: "triple (delete_rule E d n) (\<lambda>t. members_listed E (d_ns d) ?sel ss n (st_log t))
      (for_each (\<lambda>s. do { x \<leftarrow> perform E (Delete ServerKind (s_ns s) (s_name s)); ret () }) ss)
      (\<lambda>u t. members_listed E (d_ns d) ?sel ss n (st_log t))" for ss
    by (rule triple_invariant) (use False in \<open>auto simp: delete_rule_def intro: members_listed_append, blast+\<close>)
  show ?thesis unfolding remove_managed_def if_not_P [OF False]
    by (rule triple_bind [OF lst], rule triple_sum, rule triple_return, simp,
        rule triple_post [OF triple_pre [OF rm]], simp_all)
qed (simp add: remove_managed_def triple_return)

text \<open>Deletion of a source: a source that adds servers without owning them leaves them; any
  other deletes only servers listed by its own label in this run; whatever fails there,
  the finalizer is released, and the outcome is that of the write that releases it.\<close>
theorem source_deletion_releases:
  assumes "lib_finalizers E" and "run_state (src_reconcileDelete E d) t = (r, t')"
  shows "\<exists>es ob tl. st_log t' = st_log t @ es @ Update (KSource ob) # tl
    \<and> \<not> contains_finalizer E (m_finalizers (d_meta ob)) finalizerName
    \<and> (\<forall>i < length es. delete_rule E d (length (st_log t)) (st_log t @ take i es) (es ! i))
    \<and> list_all status_only tl \<and> r = (0, write_result E (st_log t @ es) (Update (KSource ob)))"
proof -
  obtain u s where u: "run_state (remove_managed E d) t = (u, s)" by (metis surj_pair)
  obtain es where es: "st_log s = st_log t @ es"
    "\<forall>i < length es. delete_rule E d (length (st_log t)) (st_log t @ take i es) (es ! i)"
    using remove_managed_effects [of E d "length (st_log t)", unfolded triple_def, rule_format, of t] u by auto
  let ?m = "Metric ''clear_discovery_metrics'' [d_ns d, d_name d]"
  let ?ob = "(st_obj s)\<lparr>d_meta := (d_meta (st_obj s))\<lparr>m_finalizers :=
    remove_finalizer E (m_finalizers (d_meta (st_obj s))) finalizerName\<rparr>\<rparr>"
  have ok: "delete_rule E d (length (st_log t)) (st_log t @ take i (es @ [?m])) ((es @ [?m]) ! i)"
    if "i < length (es @ [?m])" for i
    using es(2) that by (cases "i < length es") (auto simp: nth_append delete_rule_def less_Suc_eq)
  let ?tl = "if write_result E (st_log t @ es @ [?m]) (Update (KSource ?ob)) = None
    then [Event Normal ''Deleted'' ''Discovery source deleted''] else []"
  have "st_log t' = st_log t @ (es @ [?m]) @ Update (KSource ?ob) # ?tl
      \<and> r = (0, write_result E (st_log t @ es @ [?m]) (Update (KSource ?ob)))"
    using assms(2) u es(1)
    by (auto simp: src_reconcileDelete_def run_bind ClearDiscoveryMetrics_def split: option.splits)
  moreover have "\<not> contains_finalizer E (m_finalizers (d_meta ?ob)) finalizerName"
    by (simp add: finalizer_list.has_remove [OF assms(1)])
  ultimately show ?thesis using ok
    by (rule_tac exI [of _ "es @ [?m]"], rule_tac exI [of _ ?ob], rule_tac exI [of _ ?tl])
      (simp add: status_only_def)
qed

section \<open>Concrete sources\<close>

text \<open>An authoritative source in a namespace with one service, that still manages a server
  it no longer finds.\<close>
definition finder :: discovery_source where
  "finder = \<lparr>d_meta = (mk_meta ''d'' ''n'' [] [])\<lparr>m_finalizers := [finalizerName]\<rparr>,
     d_spec = \<lparr>dsp_type = DServiceDiscovery, dsp_mode = Authoritative, dsp_refresh = None, dsp_paused = False,
       dsp_ns = None, dsp_cm = None, dsp_ann = None,
       dsp_svc = Some \<lparr>sc_selector = [], sc_port_name = [], sc_protocol = []\<rparr>,
       dsp_template = None, dsp_filters = None, dsp_ownership = None\<rparr>,
     d_status = \<lparr>dst_discovered = 0, dst_managed = 0, dst_last_sync = Some 1, dst_duration = None, dst_error = [],
       dst_next = None, dst_servers = [], dst_observed = 0, dst_conditions = []\<rparr>\<rparr>"

definition finder_env :: env where
  "finder_env = std_env\<lparr>list_services := (\<lambda>l ns sel. Inr [\<lparr>sv_meta = mk_meta ''s'' ''n'' [] [], sv_ports = [(''mcp'', 80)]\<rparr>]),
     list_servers := (\<lambda>l ns sel. Inr [zero_server\<lparr>s_meta := mk_meta ''d-old'' ''n'' [] []\<rparr>]), clock := (\<lambda>l. 7)\<rparr>"

definition finder_start :: "(discovery_source, source_status, kept) st" where
  "finder_start = \<lparr>st_obj = finder, st_base = Some (d_status finder), st_kept = nothing_kept, st_log = []\<rparr>"

definition finder_run :: "outcome \<times> (discovery_source, source_status, kept) st" where
  "finder_run = run_state (sync_source finder_env finder) finder_start"

lemma finder_env_eqs [simp]:
  "list_services finder_env l ns sel = Inr [\<lparr>sv_meta = mk_meta ''s'' ''n'' [] [], sv_ports = [(''mcp'', 80)]\<rparr>]"
  "list_servers finder_env l ns sel = Inr [zero_server\<lparr>s_meta := mk_meta ''d-old'' ''n'' [] []\<rparr>]"
  "clock finder_env l = 7" "write_result finder_env l e = None" "find_condition finder_env = std_find"
  "set_condition finder_env = std_set" "upsert_server finder_env = std_upsert" "range_order finder_env l ks = ks"
  "set_controller finder_env = std_set_controller" "remove_finalizer finder_env = std_remove"
  "contains_finalizer finder_env = std_contains" "add_finalizer finder_env = std_add"
  "subdomain_errors finder_env x = (if x = [] then [''empty''] else [])" "label_value_errors finder_env x = []"
  by (simp_all add: finder_env_def std_env_eqs)

lemma finder_libs:
  "lib_conds finder_env" "lib_upsert finder_env" "lib_range finder_env" "lib_finalizers finder_env"
  by (simp_all add: std_conds.condition_list_axioms std_ups.upserting_axioms std_fins.finalizer_list_axioms)

definition found_one :: info where
  "found_one = remote_info ''d-s'' ''service/s'' ''http://s.n.svc.cluster.local:80'' [(''discovery-service'', ''s'')]"

lemma itoa_80: "itoa 80 = ''80''"
  by code_simp

lemma finder_scan:
  "fst (run_state (discoverProviders finder_env finder) finder_start) = Inr ([(''d-s'', found_one)], [])"
  by (simp add: discoverProviders_def discoverServices_def finder_def run_bind service_info_def Let_def
      List.map_filter_def mk_meta_def empty_meta_def put_all_def full_name_def remote_info_def found_one_def
      service_url_def defaultPortName_def defaultProtocol_def itoa_80)

lemma finder_state: "\<exists>s1. run_state (discoverProviders finder_env finder) finder_start
    = (Inr ([(''d-s'', found_one)], []), finder_start\<lparr>st_log := s1\<rparr>)"
proof -
  obtain l where "snd (run_state (discoverProviders finder_env finder) finder_start) = finder_start\<lparr>st_log := l\<rparr>"
    using scan_log_only [unfolded log_only_def, rule_format] by blast
  then show ?thesis using finder_scan by (metis prod.collapse)
qed

lemma finder_mutates: "mutate_server finder_env finder found_one (zero_server\<lparr>s_meta := mk_meta ''d-s'' ''n'' [] []\<rparr>) = Inr s \<Longrightarrow>
   s_ns s = ''n'' \<and> s_name s = ''d-s''"
  by (auto simp: mutate_server_def Let_def discovered_meta_def mk_meta_def empty_meta_def std_set_controller_def
      split: if_splits option.splits)

lemma finder_mutates_ok: "\<exists>s. mutate_server finder_env finder found_one (zero_server\<lparr>s_meta := mk_meta ''d-s'' ''n'' [] []\<rparr>) = Inr s"
  by (simp add: mutate_server_def Let_def discovered_meta_def mk_meta_def empty_meta_def std_set_controller_def ShouldSetController_def finder_def)

lemma finder_simps [simp]: "d_ns finder = ''n''" "d_name finder = ''d''" "IsAuthoritative finder" "dsp_filters (d_spec finder) = None"
  "st_log finder_start = []" "st_base finder_start = Some (d_status finder)"
  by (simp_all add: finder_def mk_meta_def empty_meta_def IsAuthoritative_def finder_start_def)

lemma found_one_simps [simp]: "in_name found_one = ''d-s''" "in_mode found_one = ModeRemote"
  by (simp_all add: found_one_def remote_info_def)

lemma finder_upserts: "\<exists>s. run_state (upsert finder_env ''n'' ''d-s'' (mutate_server finder_env finder found_one)) t
    = (None, t\<lparr>st_log := st_log t @ [ReadObj ServerKind ''n'' ''d-s'', Create (KServer s)]\<rparr>) \<and> s_name s = ''d-s''"
proof -
  obtain s where s: "mutate_server finder_env finder found_one (zero_server\<lparr>s_meta := mk_meta ''d-s'' ''n'' [] []\<rparr>) = Inr s"
    using finder_mutates_ok by blast
  then show ?thesis using finder_mutates [OF s] by (intro exI [of _ s]) (simp add: upsert_def run_bind std_upsert_def)
qed

lemma finder_syncs: "\<exists>s. run_state (sync_names finder_env finder [(''d-s'', found_one)] [''d-s''] a) t
    = (record_sync ''d-s'' found_one 7 None a, t\<lparr>st_log := st_log t @ [ReadObj ServerKind ''n'' ''d-s'', Create (KServer s)]\<rparr>)
    \<and> s_name s = ''d-s''"
  using finder_upserts [of t] by (auto simp: run_bind validateDiscoveredName_def createOrUpdateMCPServer_def)

lemma finder_gone: "run_state (authoritativeSync finder_env finder [(''d-s'', found_one)]) t = ([], t\<lparr>st_log := st_log t @
    [ListObjs ServerKind ''n'' (Some (managed_selector finder)), Delete ServerKind ''n'' ''d-old'',
     Event Normal ReasonProviderGone ''Deleted provider d-old (no longer discovered)'']\<rparr>)"
  by (simp add: authoritativeSync_def run_bind mk_meta_def empty_meta_def)

lemma finder_runs: "\<exists>r t'. finder_run = (r, t') \<and> Delete ServerKind ''n'' ''d-old'' \<in> set (st_log t')
    \<and> (\<exists>s. Create (KServer s) \<in> set (st_log t') \<and> s_name s = ''d-s'')"
proof -
  obtain l where l: "run_state (discoverProviders finder_env finder) finder_start
      = (Inr ([(''d-s'', found_one)], []), finder_start\<lparr>st_log := l\<rparr>)" using finder_state by blast
  obtain s where s: "run_state (sync_names finder_env finder [(''d-s'', found_one)] [''d-s''] sync_start) (finder_start\<lparr>st_log := l\<rparr>)
    = (record_sync ''d-s'' found_one 7 None sync_start, finder_start\<lparr>st_log := l @ [ReadObj ServerKind ''n'' ''d-s'', Create (KServer s)]\<rparr>)"
    "s_name s = ''d-s''"
    using finder_syncs [of sync_start "finder_start\<lparr>st_log := l\<rparr>"] by auto
  let ?a = "record_sync ''d-s'' found_one 7 None sync_start"
  let ?es = "[ReadObj ServerKind ''n'' ''d-s'', Create (KServer s), ListObjs ServerKind ''n'' (Some (managed_selector finder)),
     Delete ServerKind ''n'' ''d-old'', Event Normal ReasonProviderGone ''Deleted provider d-old (no longer discovered)'']"
  have fin: "finder_run = run_state (finish_sync finder_env finder 7 [(''d-s'', found_one)] ?a (sa_errors ?a)) (finder_start\<lparr>st_log := l @ ?es\<rparr>)"
    by (simp add: finder_run_def sync_source_def sync_found_def run_bind l s(1) finder_gone applyFilters_def del: sync_names.simps)
  obtain r t' where r: "finder_run = (r, t')" by (cases finder_run)
  obtain fs where "st_log t' = (l @ ?es) @ fs"
    using emitsD [OF finish_effects r [unfolded fin]] by auto
  then show ?thesis using r s(2) by (intro exI [of _ r] exI [of _ t']) auto
qed

theorem sync_touches_only_its_servers_witness:
  "\<exists>r t'. finder_run = (r, t') \<and> Delete ServerKind ''n'' ''d-old'' \<in> set (st_log t')
    \<and> (\<forall>i < length (st_log t'). source_rule finder_env finder (scanned finder_env finder finder_start) 0
         (take i (st_log t')) (st_log t' ! i))"
proof -
  obtain r t' where "finder_run = (r, t')" "Delete ServerKind ''n'' ''d-old'' \<in> set (st_log t')" using finder_runs by blast
  then show ?thesis
    using sync_touches_only_its_servers [OF finder_libs(2), of finder finder_start r t' "st_log t'"]
    by (auto simp: finder_run_def)
qed

theorem sync_report_is_complete_witness:
  "map dss_name (dst_servers (d_status (st_obj (snd finder_run)))) = [''d-s'']
   \<and> dst_discovered (d_status (st_obj (snd finder_run))) = 1"
proof -
  obtain r t' where r: "run_state (sync_source finder_env finder) finder_start = (r, t')" by fastforce
  have "xs = [x]" if "distinct xs" "set xs = {x}" for xs and x :: string
    using that by (cases xs; cases "tl xs") auto
  then show ?thesis using sync_report_is_complete [OF finder_libs(1,3) r finder_scan]
    by (simp add: Let_def finder_run_def r applyFilters_def to_i32_def)
qed

theorem source_deletion_releases_witness:
  "\<exists>r t' es ob tl. run_state (src_reconcileDelete finder_env finder) finder_start = (r, t')
    \<and> st_log t' = es @ Update (KSource ob) # tl \<and> finalizerName \<notin> set (m_finalizers (d_meta ob)) \<and> r = (0, None)"
proof -
  obtain r t' where "run_state (src_reconcileDelete finder_env finder) finder_start = (r, t')" by fastforce
  then show ?thesis using source_deletion_releases [OF finder_libs(4), of finder finder_start r t']
    by (fastforce simp: std_contains_def)
qed

text \<open>A ConfigMap source that names another namespace.\<close>
definition straying :: discovery_source where
  "straying = finder\<lparr>d_spec := (d_spec finder)\<lparr>dsp_type := DConfigMap,
     dsp_cm := Some \<lparr>cmr_name = ''c'', cmr_namespace = ''other'', cmr_key = []\<rparr>\<rparr>\<rparr>"

theorem refused_source_reads_nothing_witness:
  "\<exists>r t'. run_state (src_reconcileNormal finder_env straying) finder_start = (r, t')
    \<and> list_all status_only (st_log t') \<and> synced_is finder_env CondFalse (st_obj t')"
proof -
  obtain r t' where "run_state (src_reconcileNormal finder_env straying) finder_start = (r, t')" by fastforce
  moreover have "snd (crossNamespaceConfigMap straying)" "\<not> IsPaused straying"
    by (simp_all add: straying_def finder_def crossNamespaceConfigMap_def IsPaused_def mk_meta_def empty_meta_def)
  ultimately show ?thesis using refused_source_reads_nothing [OF finder_libs(1), of straying finder_start r t'] by auto
qed

text \<open>Three names and room for two.\<close>
definition limited :: discovery_source where
  "limited = finder\<lparr>d_spec := (d_spec finder)\<lparr>dsp_filters := Some \<lparr>df_include = [], df_exclude = [], df_max = Some 2\<rparr>\<rparr>\<rparr>"

theorem filters_keep_the_first_witness:
  "length (applyFilters std_lib limited [(''b'', found_one), (''a'', found_one), (''c'', found_one)]) = 2
   \<and> set (applyFilters std_lib limited [(''b'', found_one), (''a'', found_one), (''c'', found_one)])
      \<subseteq> {(''b'', found_one), (''a'', found_one), (''c'', found_one)}"
  using filters_keep_the_first [of "[(''b'', found_one), (''a'', found_one), (''c'', found_one)]" limited
      "\<lparr>df_include = [], df_exclude = [], df_max = Some 2\<rparr>" 2 std_lib]
  by (auto simp: limited_def passes_def matches_any_def)

end
