(* ===== verification/Watches.thy ===== *)
theory Watches
  imports ServerController NamespaceEgress EgressWatch ServerGroup DiscoverySync
begin

text \<open>
  What wakes the controllers: \<open>SetupWithManager\<close> of the five reconcilers, as functions from a
  change of an object in the cluster to the requests that are queued.  The predicates and
  handlers of controller-runtime they use are written out as they are documented: an event
  filter passes every change that is not an update, the handler of a controller's own kind
  queues the object's key, that of an owned kind the controlling owner of the old and the
  new object, and a mapping is asked about both.
\<close>

section \<open>Changes\<close>

datatype watch_obj = WObj kobj | WNamespace namespace_obj

datatype change = Added watch_obj | Modified watch_obj watch_obj | Removed watch_obj

definition meta_of :: "watch_obj \<Rightarrow> object_meta" where
  "meta_of x = (case x of
     WNamespace n \<Rightarrow> ns_meta n
   | WObj k \<Rightarrow> (case k of
        KServer s \<Rightarrow> s_meta s | KPolicy p \<Rightarrow> p_meta p | KGroup g \<Rightarrow> g_meta g | KSource d \<Rightarrow> d_meta d
      | KNetPol np \<Rightarrow> np_meta np | KCilium u \<Rightarrow> un_meta u | KDeploy d \<Rightarrow> dep_meta d | KPod p \<Rightarrow> pod_meta p
      | KLease l \<Rightarrow> le_meta l))"

definition key_of :: "watch_obj \<Rightarrow> request" where
  "key_of x = (m_namespace (meta_of x), m_name (meta_of x))"

definition current :: "change \<Rightarrow> watch_obj" where
  "current c = (case c of Added x \<Rightarrow> x | Modified old new \<Rightarrow> new | Removed x \<Rightarrow> x)"

definition both :: "change \<Rightarrow> watch_obj list" where
  "both c = (case c of Added x \<Rightarrow> [x] | Modified old new \<Rightarrow> [old, new] | Removed x \<Rightarrow> [x])"

text \<open>Two maps of labels with the same entries.\<close>
definition same_entries :: "labels \<Rightarrow> labels \<Rightarrow> bool" where
  "same_entries a b = list_all (\<lambda>k. map_of a k = map_of b k) (map fst a @ map fst b)"

text \<open>\<open>GenerationChangedPredicate\<close>, \<open>LabelChangedPredicate\<close>, \<open>AnnotationChangedPredicate\<close>.\<close>
definition generation_changed :: "change \<Rightarrow> bool" where
  "generation_changed c = (case c of
     Modified old new \<Rightarrow> m_generation (meta_of new) \<noteq> m_generation (meta_of old) | _ \<Rightarrow> True)"

definition labels_changed :: "change \<Rightarrow> bool" where
  "labels_changed c = (case c of
     Modified old new \<Rightarrow> \<not> same_entries (m_labels (meta_of new)) (m_labels (meta_of old)) | _ \<Rightarrow> True)"

definition annotations_changed :: "change \<Rightarrow> bool" where
  "annotations_changed c = (case c of
     Modified old new \<Rightarrow> \<not> same_entries (m_annotations (meta_of new)) (m_annotations (meta_of old)) | _ \<Rightarrow> True)"

text \<open>The handler of \<open>Owns\<close>: the controlling owner of that kind, in the object's namespace.\<close>
definition owner_key :: "'e klib_scheme \<Rightarrow> string \<Rightarrow> watch_obj \<Rightarrow> request list" where
  "owner_key L kind x = (case controller_of L (meta_of x) of
     None \<Rightarrow> [] | Some r \<Rightarrow> (if or_kind r = kind then [(m_namespace (meta_of x), or_name r)] else []))"

definition owned_by :: "'e klib_scheme \<Rightarrow> string \<Rightarrow> change \<Rightarrow> request list" where
  "owned_by L kind c = remdups (concat (map (owner_key L kind) (both c)))"

text \<open>\<open>EnqueueRequestsFromMapFunc\<close>.\<close>
fun gather :: "(watch_obj \<Rightarrow> ('o, 's, request list) prog) \<Rightarrow> watch_obj list \<Rightarrow> ('o, 's, request list) prog" where
  "gather f [] = ret []"
| "gather f (x # xs) = do { a \<leftarrow> f x; b \<leftarrow> gather f xs; ret (remdups (a @ b)) }"

section \<open>The controllers\<close>

definition label_event :: "change \<Rightarrow> watch_event" where
  "label_event c = (case c of
     Added x \<Rightarrow> CreateEvent
   | Modified old new \<Rightarrow> UpdateEvent (Some (m_labels (meta_of old))) (Some (m_labels (meta_of new)))
   | Removed x \<Rightarrow> DeleteEvent)"

definition server_watch :: "'e env_scheme \<Rightarrow> change \<Rightarrow> (request list) srv" where
  "server_watch E c = (case current c of
     WNamespace _ \<Rightarrow> (if enforceEgressLabelChanged (label_event c)
       then gather (\<lambda>x. mcpServersInNamespace E (m_name (meta_of x))) (both c) else ret [])
   | WObj k \<Rightarrow> (case k of
        KServer _ \<Rightarrow> ret (if generation_changed c \<or> labels_changed c \<or> annotations_changed c then [key_of (current c)] else [])
      | KDeploy _ \<Rightarrow> ret (owned_by E ''MCPServer'' c)
      | KNetPol _ \<Rightarrow> ret (owned_by E ''MCPServer'' c)
      | KPod _ \<Rightarrow> ret (remdups (concat (map (\<lambda>x. providerPodToServer (meta_of x)) (both c))))
      | _ \<Rightarrow> ret []))"

text \<open>The namespace of a cluster-scoped request is empty.\<close>
definition namespace_watch :: "'e env_scheme \<Rightarrow> change \<Rightarrow> (request list) nsp" where
  "namespace_watch E c = (case current c of
     WNamespace n \<Rightarrow> ret [([], m_name (ns_meta n))]
   | WObj k \<Rightarrow> (case k of
        KNetPol _ \<Rightarrow> ret (remdups (map (\<lambda>q. ([], snd q)) (owned_by E ''Namespace'' c)))
      | _ \<Rightarrow> ret []))"

definition group_change :: "server_group \<Rightarrow> change \<Rightarrow> group_event" where
  "group_change g c = (case c of
     Added _ \<Rightarrow> GroupCreated g
   | Modified old _ \<Rightarrow> GroupUpdated (case old of WObj (KGroup g') \<Rightarrow> g' | _ \<Rightarrow> g) g
   | Removed _ \<Rightarrow> GroupDeleted g)"

definition group_watch :: "'e env_scheme \<Rightarrow> change \<Rightarrow> (request list) grp" where
  "group_watch E c = (case current c of
     WNamespace _ \<Rightarrow> ret []
   | WObj k \<Rightarrow> (case k of
        KGroup g \<Rightarrow> ret (if groupSelfWatchPredicate (\<lambda>_. generation_changed c) (group_change g c) then [key_of (current c)] else [])
      | KServer _ \<Rightarrow> gather (\<lambda>x. case x of WObj (KServer s) \<Rightarrow> findGroupsForMCPServer E s | _ \<Rightarrow> ret []) (both c)
      | _ \<Rightarrow> ret []))"

definition source_watch :: "'e env_scheme \<Rightarrow> change \<Rightarrow> (request list) dsc" where
  "source_watch E c = (case current c of
     WNamespace _ \<Rightarrow> ret []
   | WObj k \<Rightarrow> (case k of
        KSource _ \<Rightarrow> ret [key_of (current c)]
      | KServer _ \<Rightarrow> ret (owned_by E ''MCPDiscoverySource'' c)
      | _ \<Rightarrow> ret []))"

definition pod_change :: "pod \<Rightarrow> change \<Rightarrow> pod_event" where
  "pod_change p c = (case c of
     Added _ \<Rightarrow> PodCreated p
   | Modified old _ \<Rightarrow> PodUpdated (case old of WObj (KPod q) \<Rightarrow> Some q | _ \<Rightarrow> None) p
   | Removed _ \<Rightarrow> PodDeleted p)"

text \<open>\<open>crd\<close>: whether the Cilium CRD was served when the controller was set up.\<close>
definition policy_watch :: "'e env_scheme \<Rightarrow> policy_reconciler \<Rightarrow> bool \<Rightarrow> change \<Rightarrow> (request list) pol" where
  "policy_watch E R crd c = (case current c of
     WNamespace _ \<Rightarrow> ret []
   | WObj k \<Rightarrow> (case k of
        KPolicy _ \<Rightarrow> ret [key_of (current c)]
      | KNetPol _ \<Rightarrow> ret (owned_by E ''MCPEgressPolicy'' c)
      | KCilium _ \<Rightarrow> ret (if crd then owned_by E ''MCPEgressPolicy'' c else [])
      | KServer _ \<Rightarrow> (if generation_changed c \<or> labels_changed c
          then gather (\<lambda>x. case x of WObj (KServer s) \<Rightarrow> policiesForMCPServer E s | _ \<Rightarrow> ret []) (both c) else ret [])
      | KGroup _ \<Rightarrow> (if generation_changed c
          then gather (\<lambda>x. case x of WObj (KGroup g) \<Rightarrow> policiesForMCPServerGroup E g | _ \<Rightarrow> ret []) (both c) else ret [])
      | KPod p \<Rightarrow> (if gatewayWatchEnabled R \<and> gatewayPodBecameReady E (pr_gateway R) (pod_change p c)
          then gatewayPodHandler E (pod_change p c) else ret [])
      | _ \<Rightarrow> ret []))"

section \<open>What a status write wakes\<close>

text \<open>A watch queues these requests, whatever the cluster answers, or queues none and asks nothing.\<close>
definition wakes :: "('o, 's, request list) prog \<Rightarrow> request list \<Rightarrow> bool" where
  "wakes m ks = (\<forall>t. run_state m t = (ks, t))"

lemma wakes_ret [simp]: "wakes (ret x) ks = (x = ks)"
  by (auto simp: wakes_def)

lemma same_entries_refl [simp]: "same_entries a a"
  by (simp add: same_entries_def list_all_iff)

lemma status_only_quiet [simp]:
  "meta_of new = meta_of old \<Longrightarrow> \<not> generation_changed (Modified old new)"
  "meta_of new = meta_of old \<Longrightarrow> \<not> labels_changed (Modified old new)"
  "meta_of new = meta_of old \<Longrightarrow> \<not> annotations_changed (Modified old new)"
  by (simp_all add: generation_changed_def labels_changed_def annotations_changed_def)

lemma owned_by_same: "meta_of new = meta_of old \<Longrightarrow> owned_by L kind (Modified old new) = owner_key L kind old"
  by (auto simp: owned_by_def both_def owner_key_def key_of_def split: option.split)

lemma change_simps [simp]:
  "current (Modified old new) = new" "both (Modified old new) = [old, new]"
  "meta_of (WObj (KServer s)) = s_meta s" "meta_of (WObj (KGroup g)) = g_meta g"
  "meta_of (WObj (KSource d)) = d_meta d" "meta_of (WObj (KPolicy p)) = p_meta p"
  by (simp_all add: current_def both_def meta_of_def)

lemmas watch_defs = server_watch_def namespace_watch_def group_watch_def source_watch_def policy_watch_def

text \<open>The five controllers, none of which asks the cluster anything.\<close>
definition wakes_all ::
  "'e env_scheme \<Rightarrow> policy_reconciler \<Rightarrow> bool \<Rightarrow> change \<Rightarrow> request list \<Rightarrow> request list \<Rightarrow> request list \<Rightarrow> bool" where
  "wakes_all E R crd c groups policies sources =
     (wakes (server_watch E c) [] \<and> wakes (namespace_watch E c) [] \<and> wakes (group_watch E c) groups
      \<and> wakes (policy_watch E R crd c) policies \<and> wakes (source_watch E c) sources)"

lemma server_status_wakes:
  assumes "s_meta s' = s_meta s"
  shows "let c = Modified (WObj (KServer s)) (WObj (KServer s')) in
    wakes (server_watch E c) [] \<and> wakes (namespace_watch E c) [] \<and> wakes (policy_watch E R crd c) []
    \<and> wakes (source_watch E c) (owner_key E ''MCPDiscoverySource'' (WObj (KServer s)))"
  using assms by (simp add: watch_defs Let_def owned_by_same)

text \<open>What an update of the status alone wakes.  Of a server: neither the servers' nor the
  policies' controller, of the sources the one that owns it, and the groups that select it.
  Of a group: nobody.  Of a policy or a source: itself, so these two rest on writing nothing
  when nothing changed.\<close>
theorem status_writes_wake:
  assumes "s_meta s' = s_meta s" and "g_meta g' = g_meta g" and "m_deletion (g_meta g) = None"
    and "p_meta p' = p_meta p" and "d_meta d' = d_meta d"
    and "\<And>l. list_groups E l (s_ns s) None = Inr gs"
  shows "(let c = Modified (WObj (KServer s)) (WObj (KServer s')) in
      wakes (server_watch E c) [] \<and> wakes (namespace_watch E c) [] \<and> wakes (policy_watch E R crd c) []
      \<and> wakes (source_watch E c) (owner_key E ''MCPDiscoverySource'' (WObj (KServer s)))
      \<and> set (fst (run_state (group_watch E c) t)) = (\<lambda>g. (g_ns g, g_name g)) ` {g \<in> set gs. group_matches E (m_labels (s_meta s)) g})
    \<and> wakes_all E R crd (Modified (WObj (KGroup g)) (WObj (KGroup g'))) [] [] []
    \<and> wakes_all E R crd (Modified (WObj (KPolicy p)) (WObj (KPolicy p'))) [] [(p_ns p, p_name p)] []
    \<and> wakes_all E R crd (Modified (WObj (KSource d)) (WObj (KSource d'))) [] [] [(d_ns d, d_name d)]"
proof (intro conjI)
  have "set (fst (run_state (group_watch E (Modified (WObj (KServer s)) (WObj (KServer s')))) t))
    = (\<lambda>g. (g_ns g, g_name g)) ` {g \<in> set gs. group_matches E (m_labels (s_meta s)) g}"
    using assms(1,6) by (auto simp: watch_defs findGroupsForMCPServer_def run_bind image_iff)
  then show "let c = Modified (WObj (KServer s)) (WObj (KServer s')) in
      wakes (server_watch E c) [] \<and> wakes (namespace_watch E c) [] \<and> wakes (policy_watch E R crd c) []
      \<and> wakes (source_watch E c) (owner_key E ''MCPDiscoverySource'' (WObj (KServer s)))
      \<and> set (fst (run_state (group_watch E c) t)) = (\<lambda>g. (g_ns g, g_name g)) ` {g \<in> set gs. group_matches E (m_labels (s_meta s)) g}"
    using server_status_wakes [OF assms(1), of E R crd] by (simp add: Let_def)
qed (use assms(2-5) in \<open>simp_all add: wakes_all_def watch_defs groupSelfWatchPredicate_def group_change_def key_of_def\<close>)

text \<open>C27 A source wakes itself: a sync that ends at another time than the last one in the
  status it was read with patches the status, and the update that patch makes queues the
  source again at once, whatever its refresh interval.\<close>
theorem source_wakes_itself:
  assumes "lib_conds E" and "run_state (sync_source E d) t = (r, t')"
    and "fst (run_state (discoverProviders E d) t) = Inr x"
    and "st_base t = Some b" and "\<And>l. dst_last_sync b \<noteq> Some (clock E l)"
  shows "\<exists>es. st_log t' = st_log t @ es \<and> StatusPatch (KSource (st_obj t')) \<in> set es
    \<and> wakes (source_watch E (Modified (WObj (KSource d)) (WObj (KSource (st_obj t'))))) [(d_ns (st_obj t'), d_name (st_obj t'))]"
  using sync_always_writes [OF assms] by (simp add: watch_defs key_of_def)

theorem source_wakes_itself_witness:
  "\<exists>r t' es. finder_run = (r, t') \<and> st_log t' = es \<and> StatusPatch (KSource (st_obj t')) \<in> set es
    \<and> wakes (source_watch finder_env (Modified (WObj (KSource finder)) (WObj (KSource (st_obj t')))))
        [(d_ns (st_obj t'), d_name (st_obj t'))]"
proof -
  obtain r t' where r: "run_state (sync_source finder_env finder) finder_start = (r, t')" by fastforce
  have "dst_last_sync (d_status finder) \<noteq> Some (clock finder_env l)" for l by (simp add: finder_def)
  then show ?thesis using source_wakes_itself [OF finder_libs(1) r finder_scan] r by (auto simp: finder_run_def)
qed

text \<open>A server, a group that selects it, a policy and a source, with the status changed.\<close>
theorem status_writes_wake_witness:
  "wakes (server_watch team_env (Modified (WObj (KServer (member ''a'' Ready))) (WObj (KServer (member ''a'' Dead))))) []
   \<and> wakes (group_watch team_env (Modified (WObj (KGroup team)) (WObj (KGroup team)))) []"
proof -
  have g: "list_groups team_env l (s_ns (member ''a'' Ready)) None = Inr []" for l
    by (simp add: team_env_def std_env_eqs)
  have "s_meta (member ''a'' Dead) = s_meta (member ''a'' Ready)" "m_deletion (g_meta team) = None"
    by (simp_all add: member_def team_def empty_meta_def)
  then show ?thesis
    using status_writes_wake [where s = "member ''a'' Ready" and s' = "member ''a'' Dead" and g = team and g' = team
      and E = team_env, OF _ refl _ refl refl g] by (simp add: Let_def wakes_all_def)
qed

end
