(* ===== verification/Metrics.thy ===== *)
theory Metrics
  imports Cluster
begin

text \<open>
  \<open>pkg/metrics/metrics.go\<close>: the metric vectors, the functions that set and clear the series
  of an object, and what a history of effects leaves in the registry.  A registry maps a
  series, the name of a vector with its label values, to its value; the value of a
  histogram is the number of its observations.  The effect \<open>Metric\<close> of theory Cluster
  carries the name and the labels of an update and not the value a gauge is set to, so
  the replay of a history takes those values as an argument.
\<close>

datatype metric_kind = Gauge | Counter | Histogram

record metric_vec =
  mv_kind :: metric_kind
  mv_name :: string
  mv_labels :: "string list"

text \<open>All vectors are of the namespace \<open>mcp\<close> and the subsystem \<open>operator\<close>.\<close>
definition vec :: "metric_kind \<Rightarrow> string \<Rightarrow> string list \<Rightarrow> metric_vec" where
  "vec k n ls = \<lparr>mv_kind = k, mv_name = n, mv_labels = ls\<rparr>"

definition MCPServerState :: metric_vec where
  "MCPServerState = vec Gauge ''provider_state'' [''namespace'', ''name'', ''state'']"

definition MCPServerToolsCount :: metric_vec where
  "MCPServerToolsCount = vec Gauge ''provider_tools_count'' [''namespace'', ''name'']"

definition MCPServerHealthCheckFailures :: metric_vec where
  "MCPServerHealthCheckFailures = vec Counter ''provider_health_check_failures_total'' [''namespace'', ''name'']"

definition MCPServerRestarts :: metric_vec where
  "MCPServerRestarts = vec Counter ''provider_restarts_total'' [''namespace'', ''name'']"

definition GroupMCPServerCount :: metric_vec where
  "GroupMCPServerCount = vec Gauge ''group_provider_count'' [''namespace'', ''name'', ''state'']"

definition DiscoverySourceCount :: metric_vec where
  "DiscoverySourceCount = vec Gauge ''discovery_source_count'' [''namespace'', ''name'']"

definition DiscoverySyncDuration :: metric_vec where
  "DiscoverySyncDuration = vec Histogram ''discovery_sync_duration_seconds'' [''namespace'', ''name'']"

definition HangarClientErrors :: metric_vec where
  "HangarClientErrors = vec Counter ''hangar_client_errors_total'' [''operation'']"

definition HangarClientLatency :: metric_vec where
  "HangarClientLatency = vec Histogram ''hangar_client_latency_seconds'' [''operation'']"

definition GroupStatusWriteTotal :: metric_vec where
  "GroupStatusWriteTotal = vec Counter ''group_status_write_total'' [''namespace'', ''name'', ''result'']"

definition CapabilityViolationsTotal :: metric_vec where
  "CapabilityViolationsTotal = vec Counter ''capability_violations_total'' [''namespace'', ''name'', ''violation_type'']"

lemmas vec_defs = vec_def MCPServerState_def MCPServerToolsCount_def MCPServerHealthCheckFailures_def
  MCPServerRestarts_def GroupMCPServerCount_def DiscoverySourceCount_def DiscoverySyncDuration_def
  HangarClientErrors_def HangarClientLatency_def GroupStatusWriteTotal_def CapabilityViolationsTotal_def

text \<open>What \<open>init\<close> registers.\<close>
definition registered :: "metric_vec list" where
  "registered = [MCPServerState, MCPServerToolsCount, MCPServerHealthCheckFailures, MCPServerRestarts,
     GroupMCPServerCount, GroupStatusWriteTotal, DiscoverySourceCount, DiscoverySyncDuration,
     HangarClientErrors, HangarClientLatency, CapabilityViolationsTotal]"

section \<open>Series\<close>

type_synonym series = "string \<times> string list"
type_synonym registry = "series \<rightharpoonup> int"

definition gauge_set :: "metric_vec \<Rightarrow> string list \<Rightarrow> int \<Rightarrow> registry \<Rightarrow> registry" where
  "gauge_set v ls x r = r((mv_name v, ls) \<mapsto> x)"

text \<open>\<open>Inc\<close> of a counter, and \<open>Observe\<close> of a histogram, of which the count is kept.\<close>
definition count_one :: "metric_vec \<Rightarrow> string list \<Rightarrow> registry \<Rightarrow> registry" where
  "count_one v ls r = r((mv_name v, ls) \<mapsto> (case r (mv_name v, ls) of None \<Rightarrow> 1 | Some n \<Rightarrow> n + 1))"

definition delete_series :: "metric_vec \<Rightarrow> string list \<Rightarrow> registry \<Rightarrow> registry" where
  "delete_series v ls r = r((mv_name v, ls) := None)"

text \<open>\<open>DeletePartialMatch\<close>: every series of the vector that has these label values.\<close>
definition label_match :: "metric_vec \<Rightarrow> labels \<Rightarrow> string list \<Rightarrow> bool" where
  "label_match v ps ls = list_all (\<lambda>(k, x). map_of (zip (mv_labels v) ls) k = Some x) ps"

definition delete_matching :: "metric_vec \<Rightarrow> labels \<Rightarrow> registry \<Rightarrow> registry" where
  "delete_matching v ps r = (\<lambda>k. if fst k = mv_name v \<and> label_match v ps (snd k) then None else r k)"

definition state_labels :: "string list" where
  "state_labels = [''Cold'', ''Initializing'', ''Ready'', ''Degraded'', ''Dead'']"

definition write_results :: "string list" where
  "write_results = [''skipped'', ''success'', ''conflict'', ''error'']"

definition set_server_state :: "string \<Rightarrow> string \<Rightarrow> string \<Rightarrow> registry \<Rightarrow> registry" where
  "set_server_state ns n st r =
     foldl (\<lambda>r s. gauge_set MCPServerState [ns, n, s] (if s = st then 1 else 0) r) r state_labels"

definition clear_provider_metrics :: "string \<Rightarrow> string \<Rightarrow> registry \<Rightarrow> registry" where
  "clear_provider_metrics ns n r =
     delete_matching CapabilityViolationsTotal [(''namespace'', ns), (''name'', n)]
       (delete_series MCPServerRestarts [ns, n]
         (delete_series MCPServerHealthCheckFailures [ns, n]
           (delete_series MCPServerToolsCount [ns, n]
             (foldl (\<lambda>r s. delete_series MCPServerState [ns, n, s] r) r state_labels))))"

definition clear_group_metrics :: "string \<Rightarrow> string \<Rightarrow> registry \<Rightarrow> registry" where
  "clear_group_metrics ns n r =
     foldl (\<lambda>r s. delete_series GroupStatusWriteTotal [ns, n, s] r)
       (foldl (\<lambda>r s. delete_series GroupMCPServerCount [ns, n, s] r) r state_labels) write_results"

definition clear_discovery_metrics :: "string \<Rightarrow> string \<Rightarrow> registry \<Rightarrow> registry" where
  "clear_discovery_metrics ns n r =
     delete_series DiscoverySyncDuration [ns, n] (delete_series DiscoverySourceCount [ns, n] r)"

definition RecordViolation :: "string \<Rightarrow> string \<Rightarrow> string \<Rightarrow> registry \<Rightarrow> registry" where
  "RecordViolation ns n ty r = count_one CapabilityViolationsTotal [ns, n, ty] r"

section \<open>What a history leaves\<close>

text \<open>\<open>WithLabelValues\<close> panics unless there is a value for every label; such an update
  changes nothing.\<close>
definition update_vec :: "int \<Rightarrow> metric_vec \<Rightarrow> string list \<Rightarrow> registry \<Rightarrow> registry" where
  "update_vec x v ls r =
     (if length ls \<noteq> length (mv_labels v) then r
      else (case mv_kind v of Gauge \<Rightarrow> gauge_set v ls x r | _ \<Rightarrow> count_one v ls r))"

definition record_effect :: "int \<Rightarrow> effect \<Rightarrow> registry \<Rightarrow> registry" where
  "record_effect x e r = (case e of
     Metric m ls \<Rightarrow>
       (if m = mv_name MCPServerState then
          (case ls of [ns, n, st] \<Rightarrow> set_server_state ns n st r | _ \<Rightarrow> r)
        else if m = ''clear_provider_metrics'' then
          (case ls of [ns, n] \<Rightarrow> clear_provider_metrics ns n r | _ \<Rightarrow> r)
        else if m = ''clear_group_metrics'' then
          (case ls of [ns, n] \<Rightarrow> clear_group_metrics ns n r | _ \<Rightarrow> r)
        else if m = ''clear_discovery_metrics'' then
          (case ls of [ns, n] \<Rightarrow> clear_discovery_metrics ns n r | _ \<Rightarrow> r)
        else (case List.find (\<lambda>v. mv_name v = m) registered of
            None \<Rightarrow> r | Some v \<Rightarrow> update_vec x v ls r))
   | _ \<Rightarrow> r)"

text \<open>\<open>v h\<close> is the value a gauge is set to after the history \<open>h\<close>.\<close>
fun replay :: "(history \<Rightarrow> int) \<Rightarrow> history \<Rightarrow> history \<Rightarrow> registry \<Rightarrow> registry" where
  "replay v h [] r = r"
| "replay v h (e # es) r = replay v (h @ [e]) es (record_effect (v h) e r)"

definition registry_after :: "(history \<Rightarrow> int) \<Rightarrow> history \<Rightarrow> registry" where
  "registry_after v es = replay v [] es Map.empty"

lemma replay_append: "replay v h (es @ fs) r = replay v (h @ es) fs (replay v h es r)"
  by (induction es arbitrary: h r) auto

lemma registry_after_snoc:
  "registry_after v (es @ [e]) = record_effect (v es) e (registry_after v es)"
  by (simp add: registry_after_def replay_append)

lemma registry_after_Nil [simp]: "registry_after v [] = Map.empty"
  by (simp add: registry_after_def)

text \<open>No two vectors have one name: \<open>MustRegister\<close> does not panic.\<close>
lemma registered_distinct: "distinct (map mv_name registered)"
  by (simp add: registered_def vec_defs)

section \<open>The state of a server\<close>

text \<open>The five state series of a server.\<close>
definition state_series :: "registry \<Rightarrow> string \<Rightarrow> string \<Rightarrow> int option list" where
  "state_series r ns n = map (\<lambda>s. r (mv_name MCPServerState, [ns, n, s])) state_labels"

text \<open>The state an update reports of a server, if it does.\<close>
definition reported :: "string \<Rightarrow> string \<Rightarrow> string \<Rightarrow> string list \<Rightarrow> string option" where
  "reported ns n m ls = (case ls of
     [a, b, st] \<Rightarrow> (if m = ''provider_state'' \<and> a = ns \<and> b = n then Some st else None)
   | _ \<Rightarrow> None)"

text \<open>The state last reported of a server, if it was not cleared since; the last effect is
  the head of the list.\<close>
fun last_state :: "string \<Rightarrow> string \<Rightarrow> history \<Rightarrow> string option" where
  "last_state ns n [] = None"
| "last_state ns n (e # es) = (case e of
     Metric m ls \<Rightarrow>
       (case reported ns n m ls of
          Some st \<Rightarrow> Some st
        | None \<Rightarrow> (if m = ''clear_provider_metrics'' \<and> ls = [ns, n] then None else last_state ns n es))
   | _ \<Rightarrow> last_state ns n es)"

lemma vec_names [simp]: "mv_name MCPServerState = ''provider_state''"
  "mv_name MCPServerToolsCount = ''provider_tools_count''"
  "mv_name MCPServerHealthCheckFailures = ''provider_health_check_failures_total''"
  "mv_name MCPServerRestarts = ''provider_restarts_total''"
  "mv_name GroupMCPServerCount = ''group_provider_count''"
  "mv_name DiscoverySourceCount = ''discovery_source_count''"
  "mv_name DiscoverySyncDuration = ''discovery_sync_duration_seconds''"
  "mv_name GroupStatusWriteTotal = ''group_status_write_total''"
  "mv_name CapabilityViolationsTotal = ''capability_violations_total''"
  by (simp_all add: vec_defs)

lemma foldl_delete:
  "foldl (\<lambda>r s. delete_series v (f s) r) r ss k = (if fst k = mv_name v \<and> snd k \<in> f ` set ss then None else r k)"
  by (induction ss arbitrary: r) (auto simp: delete_series_def prod_eq_iff)

lemma foldl_gauge:
  "inj f \<Longrightarrow> foldl (\<lambda>r s. gauge_set v (f s) (g s) r) r ss (mv_name v, f s) = (if s \<in> set ss then Some (g s) else r (mv_name v, f s))"
  by (induction ss arbitrary: r) (auto simp: gauge_set_def inj_eq)

lemma foldl_gauge_other:
  "k \<notin> (\<lambda>s. (mv_name v, f s)) ` set ss \<Longrightarrow> foldl (\<lambda>r s. gauge_set v (f s) (g s) r) r ss k = r k"
  by (induction ss arbitrary: r) (auto simp: gauge_set_def)

lemma state_series_cong:
  "(\<And>s. s \<in> set state_labels \<Longrightarrow> r (''provider_state'', [ns, n, s]) = f s) \<Longrightarrow> state_series r ns n = map f state_labels"
  by (simp add: state_series_def)

lemma state_series_set:
  "state_series (set_server_state ns n st r) ns' n' =
     (if ns' = ns \<and> n' = n then map (\<lambda>s. Some (if s = st then 1 else 0)) state_labels else state_series r ns' n')"
proof (cases "ns' = ns \<and> n' = n")
  case True
  have "inj (\<lambda>s. [ns, n, s])" by (simp add: inj_def)
  then show ?thesis using True foldl_gauge [of "\<lambda>s. [ns, n, s]" MCPServerState]
    by (auto simp: set_server_state_def intro!: state_series_cong)
next
  case False
  have "set_server_state ns n st r (''provider_state'', [ns', n', s]) = r (''provider_state'', [ns', n', s])" for s
    unfolding set_server_state_def by (rule foldl_gauge_other) (use False in auto)
  then show ?thesis using False by (auto simp: state_series_def)
qed

lemma delete_apply:
  "delete_series v ls r k = (if fst k = mv_name v \<and> snd k = ls then None else r k)"
  by (cases k) (simp add: delete_series_def)

lemma clear_provider_series:
  "clear_provider_metrics ns n r k =
     (if (fst k = mv_name MCPServerState \<and> snd k \<in> (\<lambda>s. [ns, n, s]) ` set state_labels)
        \<or> (fst k \<in> mv_name ` {MCPServerToolsCount, MCPServerHealthCheckFailures, MCPServerRestarts} \<and> snd k = [ns, n])
        \<or> (fst k = mv_name CapabilityViolationsTotal
            \<and> label_match CapabilityViolationsTotal [(''namespace'', ns), (''name'', n)] (snd k))
      then None else r k)"
  unfolding clear_provider_metrics_def delete_matching_def delete_apply foldl_delete image_insert image_empty
    insert_iff empty_iff by (auto simp only: split: if_split)

lemma clear_group_series:
  "clear_group_metrics ns n r k =
     (if (fst k = mv_name GroupMCPServerCount \<and> snd k \<in> (\<lambda>s. [ns, n, s]) ` set state_labels)
        \<or> (fst k = mv_name GroupStatusWriteTotal \<and> snd k \<in> (\<lambda>s. [ns, n, s]) ` set write_results)
      then None else r k)"
  unfolding clear_group_metrics_def foldl_delete by (rule if_splits(1) [THEN iffD2]) auto

lemma clear_discovery_series:
  "clear_discovery_metrics ns n r k =
     (if fst k \<in> mv_name ` {DiscoverySourceCount, DiscoverySyncDuration} \<and> snd k = [ns, n] then None else r k)"
  by (cases k) (simp add: clear_discovery_metrics_def delete_series_def)

lemma state_series_clear:
  "state_series (clear_provider_metrics ns n r) ns' n' =
     (if ns' = ns \<and> n' = n then map (\<lambda>s. None) state_labels else state_series r ns' n')"
proof (cases "ns' = ns \<and> n' = n")
  case True
  then show ?thesis by (auto simp: clear_provider_series intro!: state_series_cong)
next
  case False
  then have "clear_provider_metrics ns n r (''provider_state'', [ns', n', s]) = r (''provider_state'', [ns', n', s])" for s
    by (auto simp: clear_provider_series)
  then show ?thesis using False by (auto simp: state_series_def)
qed

lemma state_series_other:
  "state_series (clear_group_metrics ns n r) ns' n' = state_series r ns' n'"
  "state_series (clear_discovery_metrics ns n r) ns' n' = state_series r ns' n'"
  by (simp_all add: state_series_def clear_group_series clear_discovery_series)

lemma state_series_update:
  "mv_name w \<noteq> ''provider_state'' \<Longrightarrow> state_series (update_vec x w ls r) ns n = state_series r ns n"
  by (auto simp: state_series_def update_vec_def gauge_set_def count_one_def split: metric_kind.split)

lemma find_name: "List.find (\<lambda>v. mv_name v = m) vs = Some w \<Longrightarrow> mv_name w = m \<and> w \<in> set vs"
  by (auto simp: find_Some_iff)

lemma not_reported: "m \<noteq> ''provider_state'' \<Longrightarrow> reported ns n m ls = None"
  by (simp add: reported_def split: list.split)

lemma record_other:
  assumes "m \<noteq> ''provider_state''" and "m \<noteq> ''clear_provider_metrics''"
  shows "state_series (record_effect x (Metric m ls) r) ns n = state_series r ns n"
proof -
  have "state_series (case List.find (\<lambda>v. mv_name v = m) registered of None \<Rightarrow> r | Some v \<Rightarrow> update_vec x v ls r) ns n
    = state_series r ns n"
  proof (cases "List.find (\<lambda>v. mv_name v = m) registered")
    case (Some w)
    then have "mv_name w \<noteq> ''provider_state''" using assms(1) find_name by metis
    then show ?thesis by (simp add: Some state_series_update)
  qed simp
  then show ?thesis using assms
    by (simp add: record_effect_def state_series_other split: list.split)
qed

lemma record_state:
  "state_series (record_effect x (Metric ''provider_state'' ls) r) ns n =
     (case reported ns n ''provider_state'' ls of
        Some st \<Rightarrow> map (\<lambda>s. Some (if s = st then 1 else 0)) state_labels | None \<Rightarrow> state_series r ns n)"
  by (simp add: record_effect_def reported_def state_series_set split: list.split)

lemma record_clear:
  "state_series (record_effect x (Metric ''clear_provider_metrics'' ls) r) ns n =
     (if ls = [ns, n] then map (\<lambda>s. None) state_labels else state_series r ns n)"
  by (simp add: record_effect_def state_series_clear split: list.split)

lemma no_metric: "\<not> (\<exists>m ls. e = Metric m ls) \<Longrightarrow> record_effect x e r = r"
  by (cases e) (simp_all add: record_effect_def)

text \<open>C36 In the registry any history leaves, the state series of a server say exactly the
  state last reported for it: after a report all five exist and only that of the reported
  state is 1, and without one since the last clear none exists.\<close>
theorem state_series_say_last_report:
  "state_series (registry_after v es) ns n = (case last_state ns n (rev es) of
     None \<Rightarrow> [None, None, None, None, None]
   | Some st \<Rightarrow> map (\<lambda>s. Some (if s = st then 1 else 0)) state_labels)"
proof (induction es rule: rev_induct)
  case (snoc e es)
  show ?case
  proof (cases "\<exists>m ls. e = Metric m ls")
    case True
    then obtain m ls where e: "e = Metric m ls" by blast
    consider "m = ''provider_state''" | "m = ''clear_provider_metrics''"
      | "m \<noteq> ''provider_state''" "m \<noteq> ''clear_provider_metrics''" by blast
    then show ?thesis
    proof cases
      case 1
      show ?thesis unfolding e registry_after_snoc 1 record_state snoc by (simp split: option.split)
    next
      case 2
      have "reported ns n ''clear_provider_metrics'' ls = None" by (rule not_reported) simp
      then show ?thesis unfolding e registry_after_snoc 2 record_clear snoc by (simp add: state_labels_def)
    next
      case 3
      show ?thesis unfolding e registry_after_snoc record_other [OF 3] snoc by (simp add: not_reported 3)
    qed
  next
    case False
    then have "last_state ns n (rev (es @ [e])) = last_state ns n (rev es)" by (cases e) auto
    then show ?thesis using False snoc by (simp add: registry_after_snoc no_metric)
  qed
qed (simp add: state_series_def state_labels_def)

section \<open>What clearing leaves\<close>

text \<open>The series of an object: of these vectors, with its namespace and name first.\<close>
definition object_series :: "metric_vec list \<Rightarrow> string \<Rightarrow> string \<Rightarrow> registry \<Rightarrow> series set" where
  "object_series vs ns n r = {k \<in> dom r. fst k \<in> mv_name ` set vs \<and> take 2 (snd k) = [ns, n]}"

definition provider_vecs :: "metric_vec list" where
  "provider_vecs = [MCPServerState, MCPServerToolsCount, MCPServerHealthCheckFailures, MCPServerRestarts, CapabilityViolationsTotal]"

definition group_vecs :: "metric_vec list" where
  "group_vecs = [GroupMCPServerCount, GroupStatusWriteTotal]"

definition discovery_vecs :: "metric_vec list" where
  "discovery_vecs = [DiscoverySourceCount, DiscoverySyncDuration]"

text \<open>The label values the operator uses where an update leaves them open.\<close>
definition metric_ok :: "effect \<Rightarrow> bool" where
  "metric_ok e = (case e of
     Metric m ls \<Rightarrow>
       (if m = ''group_provider_count'' then last ls \<in> set state_labels
        else if m = ''group_status_write_total'' then last ls \<in> set write_results else True)
   | _ \<Rightarrow> True)"

text \<open>A series belongs to a registered vector and has a value for every label; those of
  \<open>MCPServerState\<close> are of one of the states, and with \<open>g\<close> those of the groups are of a state
  or result the operator uses.\<close>
definition series_ok :: "bool \<Rightarrow> series \<Rightarrow> bool" where
  "series_ok g k = ((case List.find (\<lambda>v. mv_name v = fst k) registered of
       None \<Rightarrow> False | Some v \<Rightarrow> length (snd k) = length (mv_labels v))
     \<and> (fst k = ''provider_state'' \<longrightarrow> last (snd k) \<in> set state_labels)
     \<and> (g \<longrightarrow> fst k = ''group_provider_count'' \<longrightarrow> last (snd k) \<in> set state_labels)
     \<and> (g \<longrightarrow> fst k = ''group_status_write_total'' \<longrightarrow> last (snd k) \<in> set write_results))"

definition registry_ok :: "bool \<Rightarrow> registry \<Rightarrow> bool" where
  "registry_ok g r = (\<forall>k \<in> dom r. series_ok g k)"

lemma registry_ok_mono: "registry_ok g r \<Longrightarrow> (\<And>k. r' k \<noteq> None \<Longrightarrow> r k \<noteq> None \<or> series_ok g k) \<Longrightarrow> registry_ok g r'"
  unfolding registry_ok_def by blast

lemma state_find: "List.find (\<lambda>v. mv_name v = ''provider_state'') registered = Some MCPServerState"
  by (simp add: registered_def)

lemma ok_set_state:
  assumes "registry_ok g r" shows "registry_ok g (set_server_state ns n st r)"
proof (rule registry_ok_mono [OF assms])
  fix k assume k: "set_server_state ns n st r k \<noteq> None"
  show "r k \<noteq> None \<or> series_ok g k"
  proof (cases "k \<in> (\<lambda>s. (mv_name MCPServerState, [ns, n, s])) ` set state_labels")
    case True
    then show ?thesis by (auto simp: series_ok_def state_find) (simp_all add: MCPServerState_def vec_def)
  next
    case False
    then show ?thesis using k by (simp add: set_server_state_def foldl_gauge_other)
  qed
qed

lemma ok_clear:
  assumes "registry_ok g r"
  shows "registry_ok g (clear_provider_metrics ns n r)" "registry_ok g (clear_group_metrics ns n r)"
    "registry_ok g (clear_discovery_metrics ns n r)"
  by (rule registry_ok_mono [OF assms], simp add: clear_provider_series clear_group_series clear_discovery_series
      split: if_split_asm)+

lemma ok_update:
  assumes "registry_ok g r" and "List.find (\<lambda>v. mv_name v = m) registered = Some w" and "m \<noteq> ''provider_state''"
    and "g \<longrightarrow> metric_ok (Metric m ls)"
  shows "registry_ok g (update_vec x w ls r)"
proof -
  have m: "mv_name w = m" using find_name [OF assms(2)] by simp
  have "series_ok g (m, ls)" if "length ls = length (mv_labels w)"
    using assms(2-4) that by (auto simp: series_ok_def metric_ok_def)
  then show ?thesis
    by (auto intro!: registry_ok_mono [OF assms(1)] simp: update_vec_def gauge_set_def count_one_def m
        split: metric_kind.split if_split_asm)
qed

lemma ok_record:
  assumes "registry_ok g r" and "g \<longrightarrow> metric_ok e" shows "registry_ok g (record_effect x e r)"
proof (cases e)
  case (Metric m ls)
  have "registry_ok g (case List.find (\<lambda>v. mv_name v = m) registered of None \<Rightarrow> r | Some v \<Rightarrow> update_vec x v ls r)"
    if "m \<noteq> ''provider_state''"
    using assms ok_update [OF assms(1) _ that] by (simp add: Metric split: option.split)
  then show ?thesis using assms(1)
    by (simp add: Metric record_effect_def ok_set_state ok_clear split: list.split)
qed (simp_all add: record_effect_def assms(1))

lemma ok_after: "(g \<longrightarrow> list_all metric_ok es) \<Longrightarrow> registry_ok g (registry_after v es)"
proof (induction es rule: rev_induct)
  case (snoc e es)
  then show ?case by (simp add: registry_after_snoc ok_record)
qed (simp add: registry_ok_def)

lemma two_labels: "length ls = 2 \<Longrightarrow> take 2 ls = [ns, n] \<Longrightarrow> ls = [ns, n]" by simp

lemma three_labels: "length ls = 3 \<Longrightarrow> take 2 ls = [ns, n] \<Longrightarrow> ls = [ns, n, last ls]"
  by (cases ls; cases "tl ls"; cases "tl (tl ls)") auto

lemma vecs_of_three: "m \<in> {''provider_state'', ''group_provider_count'', ''group_status_write_total'', ''capability_violations_total''}
    \<Longrightarrow> \<exists>w. List.find (\<lambda>v. mv_name v = m) registered = Some w \<and> length (mv_labels w) = 3"
  by (elim insertE emptyE; simp add: registered_def vec_defs)

lemma vecs_of_two: "m \<in> {''provider_tools_count'', ''provider_health_check_failures_total'', ''provider_restarts_total'',
      ''discovery_source_count'', ''discovery_sync_duration_seconds''}
    \<Longrightarrow> \<exists>w. List.find (\<lambda>v. mv_name v = m) registered = Some w \<and> length (mv_labels w) = 2"
  by (elim insertE emptyE; simp add: registered_def vec_defs)

lemma series_labels:
  assumes "series_ok g k" and "take 2 (snd k) = [ns, n]"
  shows "fst k \<in> {''provider_state'', ''group_provider_count'', ''group_status_write_total'', ''capability_violations_total''}
      \<Longrightarrow> snd k = [ns, n, last (snd k)]"
    and "fst k \<in> {''provider_tools_count'', ''provider_health_check_failures_total'', ''provider_restarts_total'',
        ''discovery_source_count'', ''discovery_sync_duration_seconds''} \<Longrightarrow> snd k = [ns, n]"
proof -
  have arity: "length (snd k) = length (mv_labels w)" if "List.find (\<lambda>v. mv_name v = fst k) registered = Some w" for w
    using assms(1) that by (simp add: series_ok_def)
  show "snd k = [ns, n, last (snd k)]" if "fst k \<in> {''provider_state'', ''group_provider_count'', ''group_status_write_total'', ''capability_violations_total''}"
    using vecs_of_three [OF that] arity assms(2) by (metis three_labels)
  show "snd k = [ns, n]" if "fst k \<in> {''provider_tools_count'', ''provider_health_check_failures_total'', ''provider_restarts_total'',
        ''discovery_source_count'', ''discovery_sync_duration_seconds''}"
    using vecs_of_two [OF that] arity assms(2) by (metis two_labels)
qed

lemma cleared_iff: "object_series vs ns n r = {} \<longleftrightarrow>
    (\<forall>k. fst k \<in> mv_name ` set vs \<longrightarrow> take 2 (snd k) = [ns, n] \<longrightarrow> r k = None)"
  by (auto simp: object_series_def)

lemma violation_match: "label_match CapabilityViolationsTotal [(''namespace'', ns), (''name'', n)] [ns, n, ty]"
  by (simp add: label_match_def CapabilityViolationsTotal_def vec_def)

lemma provider_cleared:
  assumes "registry_ok g r" shows "object_series provider_vecs ns n (clear_provider_metrics ns n r) = {}"
  unfolding cleared_iff
proof (intro allI impI)
  fix k assume k: "fst k \<in> mv_name ` set provider_vecs" "take 2 (snd k) = [ns, n]"
  show "clear_provider_metrics ns n r k = None"
  proof (cases "r k")
    case (Some x)
    then have ok: "series_ok g k" using assms by (auto simp: registry_ok_def)
    note ls = series_labels [OF ok k(2)]
    consider "fst k = ''provider_state''" | "fst k = ''capability_violations_total''"
      | "fst k \<in> {''provider_tools_count'', ''provider_health_check_failures_total'', ''provider_restarts_total''}"
      using k(1) by (auto simp: provider_vecs_def)
    then show ?thesis
    proof cases
      case 1
      then have "snd k \<in> (\<lambda>s. [ns, n, s]) ` set state_labels"
        using ok ls(1) by (intro image_eqI [where x = "last (snd k)"]) (auto simp: series_ok_def)
      then show ?thesis using 1 by (simp add: clear_provider_series)
    next
      case 2
      then have "label_match CapabilityViolationsTotal [(''namespace'', ns), (''name'', n)] (snd k)"
        using ls(1) violation_match [of ns n "last (snd k)"] by simp
      then show ?thesis using 2 by (simp add: clear_provider_series)
    next
      case 3
      then show ?thesis using ls(2) by (auto simp: clear_provider_series)
    qed
  qed (simp add: clear_provider_series)
qed

lemma group_cleared:
  assumes "registry_ok True r" shows "object_series group_vecs ns n (clear_group_metrics ns n r) = {}"
  unfolding cleared_iff
proof (intro allI impI)
  fix k assume k: "fst k \<in> mv_name ` set group_vecs" "take 2 (snd k) = [ns, n]"
  show "clear_group_metrics ns n r k = None"
  proof (cases "r k")
    case (Some x)
    then have ok: "series_ok True k" using assms by (auto simp: registry_ok_def)
    have two: "fst k = ''group_provider_count'' \<or> fst k = ''group_status_write_total''"
      using k(1) by (auto simp: group_vecs_def)
    then have "snd k = [ns, n, last (snd k)]" using series_labels(1) [OF ok k(2)] by auto
    then have "snd k \<in> (\<lambda>s. [ns, n, s]) ` L" if "last (snd k) \<in> L" for L
      using that by (metis image_eqI)
    then show ?thesis using two ok by (auto simp: clear_group_series series_ok_def)
  qed (simp add: clear_group_series)
qed

lemma discovery_cleared:
  assumes "registry_ok g r" shows "object_series discovery_vecs ns n (clear_discovery_metrics ns n r) = {}"
  unfolding cleared_iff
proof (intro allI impI)
  fix k assume k: "fst k \<in> mv_name ` set discovery_vecs" "take 2 (snd k) = [ns, n]"
  show "clear_discovery_metrics ns n r k = None"
  proof (cases "r k")
    case (Some x)
    then have ok: "series_ok g k" using assms by (auto simp: registry_ok_def)
    then show ?thesis using k series_labels(2) [OF ok k(2)] by (auto simp: clear_discovery_series discovery_vecs_def)
  qed (simp add: clear_discovery_series)
qed

text \<open>A history whose last metric update is a clear leaves nothing of the object.\<close>
lemma registry_after_quiet:
  "list_all (\<lambda>e. \<not> (\<exists>m ls. e = Metric m ls)) fs \<Longrightarrow> registry_after v (es @ fs) = registry_after v es"
proof (induction fs rule: rev_induct)
  case (snoc e fs)
  then show ?case using registry_after_snoc [of v "es @ fs" e] by (simp add: no_metric)
qed simp

lemma cleared_after:
  assumes "list_all (\<lambda>e. \<not> (\<exists>m ls. e = Metric m ls)) fs"
  shows "object_series provider_vecs ns n (registry_after v (es @ Metric ''clear_provider_metrics'' [ns, n] # fs)) = {}"
    and "list_all metric_ok es \<Longrightarrow> object_series group_vecs ns n (registry_after v (es @ Metric ''clear_group_metrics'' [ns, n] # fs)) = {}"
    and "object_series discovery_vecs ns n (registry_after v (es @ Metric ''clear_discovery_metrics'' [ns, n] # fs)) = {}"
proof -
  have q: "registry_after v (es @ e # fs) = record_effect (v es) e (registry_after v es)" for e
    using registry_after_quiet [OF assms, of v "es @ [e]"] by (simp add: registry_after_snoc)
  have ok: "registry_ok False (registry_after v es)" by (rule ok_after) simp
  show "object_series provider_vecs ns n (registry_after v (es @ Metric ''clear_provider_metrics'' [ns, n] # fs)) = {}"
    using provider_cleared [OF ok] by (simp add: q record_effect_def)
  show "object_series group_vecs ns n (registry_after v (es @ Metric ''clear_group_metrics'' [ns, n] # fs)) = {}"
    if "list_all metric_ok es" using group_cleared [OF ok_after] that by (simp add: q record_effect_def)
  show "object_series discovery_vecs ns n (registry_after v (es @ Metric ''clear_discovery_metrics'' [ns, n] # fs)) = {}"
    using discovery_cleared [OF ok] by (simp add: q record_effect_def)
qed

end
