(* ===== verification/Operator.thy ===== *)
theory Operator
  imports ServerController NamespaceEgress EgressWatch
begin

text \<open>
  \<open>cmd/operator\<close>: the start of the operator (\<open>main.go\<close>) and the render command
  (\<open>render.go\<close>), with \<open>TLSConfigFromCAFile\<close> of \<open>pkg/hangar/client.go\<close> and
  \<open>RegistrationNamespace\<close> of \<open>mcpserver_registration.go\<close>.  The flags, as package flag has
  parsed them, are a record.  The start is the list of what main asks of the manager, in
  order; it stops at the first refusal, which is an exit with status 1.  What the platform
  answers (the process environment, files, \<open>labels.Parse\<close>, the manager) is the record
  \<open>platform\<close>.
\<close>

section \<open>Flags\<close>

record flags =
  fl_metrics_addr :: string
  fl_metrics_secure :: bool
  fl_probe_addr :: string
  fl_leader_elect :: bool
  fl_webhooks :: bool
  fl_url :: string
  fl_key :: string
  fl_lease :: int
  fl_renew :: int
  fl_retry :: int
  fl_election_ns :: string
  fl_grace :: int
  fl_dns_selectors :: string
  fl_dns_cidrs :: string
  fl_ingress :: bool
  fl_ingress_ns :: string
  fl_gateway :: string
  fl_ca_file :: string
  fl_tls_name :: string
  fl_max_concurrent :: int
  fl_enforcement :: string

definition defaultGracefulShutdownTimeout :: int where
  "defaultGracefulShutdownTimeout = seconds 10"

text \<open>The flags of a command line that sets none, by the process environment.\<close>
definition default_flags :: "(string \<Rightarrow> string) \<Rightarrow> flags" where
  "default_flags getenv = \<lparr>fl_metrics_addr = '':8080'', fl_metrics_secure = True, fl_probe_addr = '':8081'',
     fl_leader_elect = False, fl_webhooks = False, fl_url = getenv ''HANGAR_URL'', fl_key = getenv ''HANGAR_API_KEY'',
     fl_lease = seconds 15, fl_renew = seconds 10, fl_retry = seconds 2, fl_election_ns = [],
     fl_grace = defaultGracefulShutdownTimeout, fl_dns_selectors = [], fl_dns_cidrs = [], fl_ingress = False,
     fl_ingress_ns = [], fl_gateway = DefaultGatewayPodSelector, fl_ca_file = [], fl_tls_name = [],
     fl_max_concurrent = 4, fl_enforcement = ''auto''\<rparr>"

section \<open>What is asked of the manager\<close>

record metrics_options =
  mo_addr :: string
  mo_secure :: bool
  mo_authenticated :: bool

definition metricsServerOptions :: "string \<Rightarrow> bool \<Rightarrow> metrics_options" where
  "metricsServerOptions addr secure = \<lparr>mo_addr = addr, mo_secure = secure, mo_authenticated = secure\<rparr>"

record manager_options =
  mg_metrics :: metrics_options
  mg_probe_addr :: string
  mg_leader_elect :: bool
  mg_election_id :: string
  mg_election_ns :: string
  mg_release :: bool
  mg_lease :: int
  mg_renew :: int
  mg_retry :: int
  mg_grace :: int
  mg_deployments :: labels

definition mgr_options :: "flags \<Rightarrow> manager_options" where
  "mgr_options f = \<lparr>mg_metrics = metricsServerOptions (fl_metrics_addr f) (fl_metrics_secure f),
     mg_probe_addr = fl_probe_addr f, mg_leader_elect = fl_leader_elect f,
     mg_election_id = ''mcp-hangar-operator.mcp-hangar.io'', mg_election_ns = fl_election_ns f, mg_release = True,
     mg_lease = fl_lease f, mg_renew = fl_renew f, mg_retry = fl_retry f, mg_grace = fl_grace f,
     mg_deployments = [(LabelManagedBy, DefaultManagerName)]\<rparr>"

text \<open>A controller is set up with its reconciler and, where it has one, its concurrency.\<close>
datatype startup =
  NewManager manager_options
| ManageServers server_reconciler int
| ManageNamespaces namespace_reconciler
| ManageGroups
| ManageSources
| ManagePolicies policy_reconciler int
| SetCiliumDetected bool
| RegisterWebhook string
| RegisterPodWebhook
| HealthzPing
| ReadyzLeader
| ReadyzPing
| ReadyzWebhook
| StartManager

text \<open>\<open>pf_answer\<close> is the manager's answer to a step after the steps before it.\<close>
record platform =
  pf_env :: "string \<Rightarrow> string"
  pf_file :: "string \<Rightarrow> gerr + string"
  pf_pem :: "string \<Rightarrow> bool"
  pf_labels :: "string \<Rightarrow> gerr + label_selector"
  pf_cilium :: bool
  pf_answer :: "startup list \<Rightarrow> startup \<Rightarrow> gerr option"

section \<open>Reading the flags\<close>

definition parseEnforcementOverride :: "string \<Rightarrow> gerr + verdict" where
  "parseEnforcementOverride x =
     (if x = ''auto'' then Inr VerdictUnset
      else if x = ''enforced'' then Inr Observed
      else if x = ''unenforced'' then Inr NotObserved
      else Inl (Plain (''must be auto, enforced or unenforced, got '' @ quote x)))"

definition parseGatewaySelector :: "platform \<Rightarrow> string \<Rightarrow> gerr + label_selector option" where
  "parseGatewaySelector P x =
     (if trim_space x = [] then Inr None
      else (case pf_labels P x of
          Inl e \<Rightarrow> Inl e
        | Inr sel \<Rightarrow> (if selector_empty sel then Inl (Plain (''selector '' @ quote x @ '' matches every pod''))
            else Inr (Some sel))))"

text \<open>The error a step stops at, with the message it is logged under.\<close>
type_synonym fatal = "gerr \<times> string"

record settings =
  se_dns :: dns_config
  se_override :: verdict
  se_gateway :: "label_selector option"
  se_ingress :: ingress_config

definition no_extra_dns :: dns_config where
  "no_extra_dns = \<lparr>dc_peers = [], dc_selectors = []\<rparr>"

definition dns_cidrs_flag :: "flags \<Rightarrow> dns_config \<Rightarrow> gerr option \<times> dns_config" where
  "dns_cidrs_flag f d = (if fl_dns_cidrs f = [] then (None, d)
     else SetExtraDNSCIDRs d (split_on CHR '','' (fl_dns_cidrs f)))"

definition dns_selectors_flag :: "klib \<Rightarrow> flags \<Rightarrow> dns_config \<Rightarrow> gerr option \<times> dns_config" where
  "dns_selectors_flag L f d = (if fl_dns_selectors f = [] then (None, d)
     else SetExtraDNSSelectors L d (split_on CHR '';'' (fl_dns_selectors f)))"

definition configure :: "klib \<Rightarrow> platform \<Rightarrow> flags \<Rightarrow> fatal + settings" where
  "configure L P f = (case dns_cidrs_flag f no_extra_dns of
     (Some e, _) \<Rightarrow> Inl (e, ''invalid --dns-egress-cidrs'')
   | (None, d1) \<Rightarrow> (case dns_selectors_flag L f d1 of
        (Some e, _) \<Rightarrow> Inl (e, ''invalid --dns-egress-selectors'')
      | (None, d2) \<Rightarrow>
         (if fl_max_concurrent f < 1 then
            Inl (Plain (''must be at least 1, got '' @ itoa (fl_max_concurrent f)), ''invalid --max-concurrent-reconciles'')
          else (case parseEnforcementOverride (fl_enforcement f) of
             Inl e \<Rightarrow> Inl (e, ''invalid --networkpolicy-enforcement'')
           | Inr v \<Rightarrow> (case parseGatewaySelector P (fl_gateway f) of
                Inl e \<Rightarrow> Inl (e, ''invalid --hangar-gateway-selector'')
              | Inr sel \<Rightarrow> (case ParseProviderIngressConfig L (fl_ingress f) (fl_ingress_ns f) (fl_gateway f) of
                   Inl e \<Rightarrow> Inl (e, ''invalid provider ingress configuration'')
                 | Inr c \<Rightarrow> Inr \<lparr>se_dns = d2, se_override = v, se_gateway = sel, se_ingress = c\<rparr>))))))"

section \<open>The connection to core\<close>

record tls_config =
  tc_roots :: string
  tc_server_name :: string

definition TLSConfigFromCAFile :: "platform \<Rightarrow> string \<Rightarrow> string \<Rightarrow> gerr + tls_config" where
  "TLSConfigFromCAFile P ca name = (case pf_file P ca of
     Inl e \<Rightarrow> Inl (Wrap ''read CA file: '' e)
   | Inr pem \<Rightarrow> (if pf_pem P pem then Inr \<lparr>tc_roots = pem, tc_server_name = name\<rparr>
       else Inl (Plain (''CA file '' @ ca @ '' holds no PEM certificate''))))"

definition core_connection :: "platform \<Rightarrow> flags \<Rightarrow> fatal + (client \<times> tls_config option) option" where
  "core_connection P f =
     (if fl_tls_name f \<noteq> [] \<and> fl_ca_file f = [] then
        Inl (Plain ''--hangar-tls-server-name needs --hangar-ca-file'', ''invalid core TLS flags'')
      else (case (if fl_ca_file f = [] then Inr None
              else map_sum id Some (TLSConfigFromCAFile P (fl_ca_file f) (fl_tls_name f))) of
          Inl e \<Rightarrow> Inl (e, ''invalid --hangar-ca-file'')
        | Inr tls \<Rightarrow> Inr (if fl_url f = [] then None
            else Some (NewClient (Some \<lparr>cc_url = fl_url f, cc_key = fl_key f, cc_retries = 3, cc_delay = 0\<rparr>), tls))))"

definition RegistrationNamespace :: "platform \<Rightarrow> string" where
  "RegistrationNamespace P = (let ns = trim_space (pf_env P ''POD_NAMESPACE'') in
     if ns \<noteq> [] then ns
     else (case pf_file P ''/var/run/secrets/kubernetes.io/serviceaccount/namespace'' of
         Inr b \<Rightarrow> trim_space b | Inl e \<Rightarrow> []))"

section \<open>The start\<close>

definition enforcement_probe :: "settings \<Rightarrow> probe_config" where
  "enforcement_probe se = \<lparr>pb_mapper = True, pb_reader = True, pb_override = se_override se, pb_ttl = 0\<rparr>"

definition server_controller :: "platform \<Rightarrow> settings \<Rightarrow> client option \<Rightarrow> server_reconciler" where
  "server_controller P se c = \<lparr>sr_client = c,
     sr_claims = (if RegistrationNamespace P = [] then None else Some (RegistrationNamespace P)),
     sr_probe = Some (enforcement_probe se), sr_ingress = se_ingress se, sr_dns = se_dns se\<rparr>"

definition namespace_controller :: "settings \<Rightarrow> namespace_reconciler" where
  "namespace_controller se = \<lparr>nr_probe = Some (enforcement_probe se), nr_dns = se_dns se\<rparr>"

definition policy_controller :: "settings \<Rightarrow> client option \<Rightarrow> policy_reconciler" where
  "policy_controller se c = \<lparr>pr_client = c, pr_probe = Some (enforcement_probe se), pr_gateway = se_gateway se,
     pr_dns = se_dns se\<rparr>"

definition controllers :: "platform \<Rightarrow> flags \<Rightarrow> settings \<Rightarrow> client option \<Rightarrow> startup list" where
  "controllers P f se c = [ManageServers (server_controller P se c) (fl_max_concurrent f),
     ManageNamespaces (namespace_controller se), ManageGroups, ManageSources,
     ManagePolicies (policy_controller se c) (fl_max_concurrent f)]"

definition webhooks :: "platform \<Rightarrow> startup list" where
  "webhooks P = SetCiliumDetected (pf_cilium P) # map RegisterWebhook Registrations @ [RegisterPodWebhook]"

definition checks :: "flags \<Rightarrow> startup list" where
  "checks f = [HealthzPing, if fl_leader_elect f then ReadyzLeader else ReadyzPing]
     @ (if fl_webhooks f then [ReadyzWebhook] else [])"

definition startup_steps :: "platform \<Rightarrow> flags \<Rightarrow> settings \<Rightarrow> client option \<Rightarrow> startup list" where
  "startup_steps P f se c = controllers P f se c @ (if fl_webhooks f then webhooks P else []) @ checks f"

text \<open>Setting the package variable and registering a handler cannot fail.\<close>
definition fallible :: "startup \<Rightarrow> bool" where
  "fallible x = (case x of SetCiliumDetected _ \<Rightarrow> False | RegisterPodWebhook \<Rightarrow> False | _ \<Rightarrow> True)"

definition startup_answer :: "platform \<Rightarrow> startup list \<Rightarrow> startup \<Rightarrow> gerr option" where
  "startup_answer P before x = (if fallible x then pf_answer P before x else None)"

definition startup_message :: "startup \<Rightarrow> string" where
  "startup_message x = (case x of
     NewManager _ \<Rightarrow> ''unable to create manager''
   | RegisterWebhook _ \<Rightarrow> ''unable to create webhook''
   | HealthzPing \<Rightarrow> ''unable to set up health check''
   | ReadyzLeader \<Rightarrow> ''unable to set up readiness check''
   | ReadyzPing \<Rightarrow> ''unable to set up readiness check''
   | ReadyzWebhook \<Rightarrow> ''unable to set up webhook readiness check''
   | StartManager \<Rightarrow> ''problem running manager''
   | _ \<Rightarrow> ''unable to create controller'')"

fun run_startup :: "platform \<Rightarrow> startup list \<Rightarrow> startup list \<Rightarrow> fatal option \<times> startup list" where
  "run_startup P before [] = (None, before)"
| "run_startup P before (x # xs) = (case startup_answer P before x of
     Some e \<Rightarrow> (Some (e, startup_message x), before @ [x])
   | None \<Rightarrow> run_startup P (before @ [x]) xs)"

text \<open>What main asked of the manager, and the error it exits with; none is an exit after the
  manager was told to stop.\<close>
definition start_operator :: "klib \<Rightarrow> platform \<Rightarrow> flags \<Rightarrow> fatal option \<times> startup list" where
  "start_operator L P f = (case configure L P f of
     Inl x \<Rightarrow> (Some x, [])
   | Inr se \<Rightarrow> (case run_startup P [] [NewManager (mgr_options f)] of
        (Some x, l) \<Rightarrow> (Some x, l)
      | (None, l) \<Rightarrow> (case core_connection P f of
           Inl x \<Rightarrow> (Some x, l)
         | Inr core \<Rightarrow> run_startup P l (startup_steps P f se (map_option fst core) @ [StartManager]))))"

section \<open>The render command\<close>

definition renderCommand :: string where "renderCommand = ''render''"

text \<open>\<open>render\<close>: the input is read whole, parsed (\<open>parse\<close>) and printed (\<open>show\<close>) by others;
  the result is what is written to the output, by \<open>put\<close>, or the error.\<close>
definition render ::
  "(string \<Rightarrow> gerr + mcp_server) \<Rightarrow> (deployment \<Rightarrow> gerr + string) \<Rightarrow> (string \<Rightarrow> gerr option) \<Rightarrow> gerr + string \<Rightarrow> gerr option" where
  "render parse show_yaml put inp = (case inp of
     Inl e \<Rightarrow> Some e
   | Inr raw \<Rightarrow> (case parse raw of
        Inl e \<Rightarrow> Some (Wrap ''reading the MCPServer: '' e)
      | Inr s \<Rightarrow>
         (if sp_mode (s_spec s) \<noteq> ModeContainer then Some (Plain ''only a container-mode MCPServer renders a Deployment'')
          else (case BuildDeploymentForMCPServer s of
              Inl e \<Rightarrow> Some e
            | Inr d \<Rightarrow> (case show_yaml d of Inl e \<Rightarrow> Some e | Inr out \<Rightarrow> put out)))))"

text \<open>\<open>main\<close>: the render command when it is the first argument, else the operator.\<close>
datatype outcome_of_main = Rendered "gerr option" | Ran "fatal option" "startup list"

definition operator_main ::
  "klib \<Rightarrow> platform \<Rightarrow> (string \<Rightarrow> gerr + mcp_server) \<Rightarrow> (deployment \<Rightarrow> gerr + string) \<Rightarrow> (string \<Rightarrow> gerr option)
    \<Rightarrow> string list \<Rightarrow> gerr + string \<Rightarrow> flags \<Rightarrow> outcome_of_main" where
  "operator_main L P parse show_yaml put args inp f =
     (if args \<noteq> [] \<and> hd args = renderCommand then Rendered (render parse show_yaml put inp)
      else (case start_operator L P f of (x, l) \<Rightarrow> Ran x l))"

section \<open>What a start does\<close>

text \<open>Every step of a list was accepted after the steps before it.\<close>
definition all_accepted :: "platform \<Rightarrow> startup list \<Rightarrow> bool" where
  "all_accepted P l = list_all (\<lambda>i. startup_answer P (take i l) (l ! i) = None) [0..<length l]"

lemma all_accepted_snoc: "all_accepted P (l @ [x]) \<longleftrightarrow> all_accepted P l \<and> startup_answer P l x = None"
  by (auto simp: all_accepted_def list_all_iff nth_append less_Suc_eq)

lemma all_accepted_Nil: "all_accepted P []"
  by (simp add: all_accepted_def)

text \<open>A run that stops tried a step that was refused after an accepted part of the list.\<close>
lemma run_stops:
  "run_startup P before xs = (x, l) \<Longrightarrow> all_accepted P before \<Longrightarrow> (case x of
     None \<Rightarrow> l = before @ xs \<and> all_accepted P l
   | Some e \<Rightarrow> \<exists>ys y zs. xs = ys @ y # zs \<and> l = before @ ys @ [y] \<and> all_accepted P (before @ ys)
       \<and> startup_answer P (before @ ys) y = Some (fst e) \<and> snd e = startup_message y)"
proof (induction P before xs rule: run_startup.induct)
  case (2 P before y xs)
  show ?case
  proof (cases "startup_answer P before y")
    case None
    then have "all_accepted P (before @ [y])" using 2(3) by (simp add: all_accepted_snoc)
    from 2(1) [OF None _ this] 2(2) None show ?thesis
      by (cases x) (fastforce intro: exI [of _ "y # _"])+
  next
    case (Some e)
    then have "x = Some (e, startup_message y) \<and> l = before @ [y]" using 2(2) by auto
    then show ?thesis using Some 2(3)
      by (auto intro!: exI [of _ "[]"])
  qed
qed auto

lemma start_cases:
  assumes "start_operator L P f = (x, l)"
  obtains (flags) y where "configure L P f = Inl y" "x = Some y" "l = []"
  | (manager) se e where "configure L P f = Inr se" "x = Some e" "l = [NewManager (mgr_options f)]"
      "startup_answer P [] (NewManager (mgr_options f)) \<noteq> None"
  | (core) se y where "configure L P f = Inr se" "core_connection P f = Inl y" "x = Some y" "l = [NewManager (mgr_options f)]"
  | (steps) se c where "configure L P f = Inr se" "core_connection P f = Inr c"
      "all_accepted P [NewManager (mgr_options f)]"
      "run_startup P [NewManager (mgr_options f)] (startup_steps P f se (map_option fst c) @ [StartManager]) = (x, l)"
proof (cases "configure L P f")
  case (Inl y)
  then show ?thesis using assms flags by (simp add: start_operator_def)
next
  case (Inr se)
  obtain w k where w: "run_startup P [] [NewManager (mgr_options f)] = (w, k)" by fastforce
  show ?thesis
  proof (cases w)
    case None
    then have k: "k = [NewManager (mgr_options f)]" "all_accepted P k"
      using run_stops [OF w all_accepted_Nil] by auto
    show ?thesis
      using assms Inr w None k core [of se] steps [of se]
      by (cases "core_connection P f") (auto simp: start_operator_def)
  next
    case (Some e)
    then have "k = [NewManager (mgr_options f)]" "startup_answer P [] (NewManager (mgr_options f)) \<noteq> None"
      using run_stops [OF w all_accepted_Nil] by (auto simp: Cons_eq_append_conv)
    then show ?thesis using assms Inr w Some manager [of se e] by (simp add: start_operator_def)
  qed
qed

lemma steps_no_start: "StartManager \<notin> set (startup_steps P f se c)"
  by (auto simp: startup_steps_def controllers_def webhooks_def checks_def)

lemma all_accepted_at: "all_accepted P (ys @ y # zs) \<Longrightarrow> startup_answer P ys y = None"
  unfolding all_accepted_def list_all_iff by (elim ballE [of _ _ "length ys"]) simp_all

text \<open>What main asks for before it starts the manager, in its order: the manager, the five
  controllers, with webhooks on what the warnings need to know, the two validators and the pod
  webhook, and then the checks, the readiness one by whether there is an election.\<close>
definition start_sequence :: "platform \<Rightarrow> flags \<Rightarrow> settings \<Rightarrow> client option \<Rightarrow> startup list" where
  "start_sequence P f se c =
     [NewManager (mgr_options f),
      ManageServers (server_controller P se c) (fl_max_concurrent f),
      ManageNamespaces (namespace_controller se),
      ManageGroups,
      ManageSources,
      ManagePolicies (policy_controller se c) (fl_max_concurrent f)]
     @ (if fl_webhooks f then
          [SetCiliumDetected (pf_cilium P), RegisterWebhook ''MCPServer/v1alpha2'',
           RegisterWebhook ''MCPDiscoverySource/v1alpha2'', RegisterPodWebhook] else [])
     @ [HealthzPing] @ (if fl_leader_elect f then [ReadyzLeader] else [ReadyzPing])
     @ (if fl_webhooks f then [ReadyzWebhook] else [])"

lemma steps_are_sequence: "NewManager (mgr_options f) # startup_steps P f se c = start_sequence P f se c"
  by (simp add: startup_steps_def start_sequence_def controllers_def webhooks_def checks_def Registrations_def)

lemma sequence_no_start: "StartManager \<notin> set (start_sequence P f se c)"
  using steps_no_start [of P f se c] by (simp flip: steps_are_sequence)

text \<open>How a run of the sequence ends.\<close>
lemma sequence_run:
  assumes "all_accepted P [NewManager (mgr_options f)]"
    and "run_startup P [NewManager (mgr_options f)] (startup_steps P f se c @ [StartManager]) = (x, l)"
  shows "(StartManager \<in> set l \<longleftrightarrow> all_accepted P (start_sequence P f se c))
    \<and> (StartManager \<in> set l \<longrightarrow> l = start_sequence P f se c @ [StartManager])
    \<and> (x = None \<longrightarrow> StartManager \<in> set l)"
proof (cases x)
  case None
  then have "l = start_sequence P f se c @ [StartManager] \<and> all_accepted P l"
    using run_stops [OF assms(2,1)] by (auto simp flip: steps_are_sequence)
  then show ?thesis by (auto simp: all_accepted_snoc)
next
  case (Some e)
  let ?m = "NewManager (mgr_options f)"
  obtain ys y zs where z: "startup_steps P f se c @ [StartManager] = ys @ y # zs" "l = ?m # ys @ [y]"
    "all_accepted P (?m # ys)" "startup_answer P (?m # ys) y \<noteq> None"
    using run_stops [OF assms(2,1)] Some by auto
  show ?thesis
  proof (cases zs rule: rev_cases)
    case Nil
    then have "ys = startup_steps P f se c" "y = StartManager" using z(1) by simp_all
    then show ?thesis using z(2,3) Some by (simp flip: steps_are_sequence)
  next
    case (snoc vs v)
    then have steps: "startup_steps P f se c = ys @ y # vs" using z(1) by simp
    then have "StartManager \<notin> set l" using z(2) steps_no_start [of P f se c] by auto
    moreover have "\<not> all_accepted P (start_sequence P f se c)"
      using z(4) all_accepted_at [of P "?m # ys" y vs] by (auto simp: steps simp flip: steps_are_sequence)
    ultimately show ?thesis using Some by simp
  qed
qed

text \<open>C33 Starting is all or nothing: the manager is told to start exactly when the flags and
  the connection to core are valid and it accepted, in this order, the manager itself, the five
  controllers, with webhooks on every validator and the pod webhook, and the health and
  readiness checks; nothing else is asked of it, and main ends without an error only then.
  Invalid core TLS flags are refused once the manager is created and before anything is set up
  in it, every other invalid flag before the manager is created.\<close>
theorem start_is_all_or_nothing:
  "case start_operator L P f of (x, l) \<Rightarrow>
     (StartManager \<in> set l \<longleftrightarrow> (\<exists>se c. configure L P f = Inr se \<and> core_connection P f = Inr c
        \<and> all_accepted P (start_sequence P f se (map_option fst c))))
     \<and> (if StartManager \<in> set l then (\<exists>se c. configure L P f = Inr se \<and> core_connection P f = Inr c
          \<and> l = start_sequence P f se (map_option fst c) @ [StartManager])
        else x \<noteq> None)
     \<and> (case configure L P f of Inl y \<Rightarrow> l = [] \<and> x = Some y
        | Inr se \<Rightarrow> l \<noteq> [] \<and> hd l = NewManager (mgr_options f)
            \<and> (case core_connection P f of Inl y \<Rightarrow> l = [NewManager (mgr_options f)] \<and> x \<noteq> None | Inr c \<Rightarrow> True))"
proof -
  obtain x l where s: "start_operator L P f = (x, l)" by fastforce
  from s show ?thesis
  proof (cases rule: start_cases)
    case (manager se e)
    then have "\<not> all_accepted P (start_sequence P f u c)" for u c
      using all_accepted_at [of P "[]" "NewManager (mgr_options f)"] by (auto simp: start_sequence_def)
    then show ?thesis using s manager by (simp split: sum.split)
  next
    case (steps se c)
    have "l \<noteq> [] \<and> hd l = NewManager (mgr_options f)"
      using run_stops [OF steps(4,3)] by (cases x) auto
    then show ?thesis using s steps(1,2) sequence_run [OF steps(3,4)] by auto
  qed (use s in auto)
qed


section \<open>One configuration\<close>

lemma dns_flag_ok:
  "dns_cidrs_flag f d = (None, d') \<Longrightarrow> dns_ok d \<Longrightarrow> dns_ok d'"
  "dns_selectors_flag L f d = (None, d') \<Longrightarrow> dns_ok d \<Longrightarrow> dns_ok d'"
  using dns_flags_keep_ok [of d]
  by (auto simp: dns_cidrs_flag_def dns_selectors_flag_def split: if_split_asm) (metis snd_conv)+

lemma dns_flags_ok: "configure L P f = Inr se \<Longrightarrow> dns_ok (se_dns se)"
  by (auto simp: configure_def dns_ok_def no_extra_dns_def split: prod.split_asm option.split_asm if_split_asm sum.split_asm
      dest!: dns_flag_ok)

definition fence_ok :: "mcp_server \<Rightarrow> ingress_config \<Rightarrow> bool" where
  "fence_ok s c = (ic_enabled c \<longrightarrow> (case BuildProviderIngress s c of Inl _ \<Rightarrow> False | Inr _ \<Rightarrow> True))"

lemma fence_builds:
  assumes "dns1123_errors L [] \<noteq> []" and "ParseProviderIngressConfig L on ns gw = Inr c"
  shows "fence_ok s c"
  using assms
  by (auto simp: fence_ok_def ParseProviderIngressConfig_def BuildProviderIngress_def Let_def split: if_split_asm sum.split_asm option.split)

lemma configured:
  assumes "configure L P f = Inr se"
  shows "1 \<le> fl_max_concurrent f" "parseEnforcementOverride (fl_enforcement f) = Inr (se_override se)"
    "parseGatewaySelector P (fl_gateway f) = Inr (se_gateway se)"
    "ParseProviderIngressConfig L (fl_ingress f) (fl_ingress_ns f) (fl_gateway f) = Inr (se_ingress se)"
  using assms by (auto simp: configure_def split: prod.split_asm option.split_asm if_split_asm sum.split_asm)

text \<open>What follows the manager in the log of a start are steps of one configuration.\<close>
lemma started_steps:
  assumes "start_operator L P f = (x, l)" and "1 < length l"
  obtains se c where "configure L P f = Inr se" and "core_connection P f = Inr c"
    and "set l \<subseteq> {NewManager (mgr_options f), StartManager} \<union> set (startup_steps P f se (map_option fst c))"
  using assms(1)
proof (cases rule: start_cases)
  case (steps se c)
  have "set l \<subseteq> set (NewManager (mgr_options f) # startup_steps P f se (map_option fst c) @ [StartManager])"
  proof (cases x)
    case None
    then show ?thesis using run_stops [OF steps(4) steps(3)] by auto
  next
    case (Some e)
    then obtain ys z zs where z: "startup_steps P f se (map_option fst c) @ [StartManager] = ys @ z # zs"
      "l = NewManager (mgr_options f) # ys @ [z]" using run_stops [OF steps(4) steps(3)] by auto
    then show ?thesis using arg_cong [OF z(1), of set] by auto
  qed
  then show ?thesis using that [OF steps(1,2)] by auto
qed (use assms in auto)

text \<open>The probe with an override, and what a reconciler that is started runs with: DNS peers,
  override and client.\<close>
definition probe_with :: "verdict \<Rightarrow> probe_config" where
  "probe_with v = \<lparr>pb_mapper = True, pb_reader = True, pb_override = v, pb_ttl = 0\<rparr>"

definition runs_with :: "flags \<Rightarrow> mcp_server \<Rightarrow> dns_config \<Rightarrow> verdict \<Rightarrow> client option \<Rightarrow> startup \<Rightarrow> bool" where
  "runs_with f s d v c y = (case y of
     ManageServers R k \<Rightarrow> sr_dns R = d \<and> sr_probe R = Some (probe_with v) \<and> sr_client R = c \<and> 1 \<le> k
       \<and> fence_ok s (sr_ingress R)
   | ManageNamespaces R \<Rightarrow> nr_dns R = d \<and> nr_probe R = Some (probe_with v)
   | ManagePolicies R k \<Rightarrow> pr_dns R = d \<and> pr_probe R = Some (probe_with v) \<and> pr_client R = c \<and> 1 \<le> k
       \<and> (case pr_gateway R of None \<Rightarrow> trim_space (fl_gateway f) = [] | Some sel \<Rightarrow> \<not> selector_empty sel)
   | _ \<Rightarrow> True)"

lemma steps_run_with:
  assumes "dns1123_errors L [] \<noteq> []" and "configure L P f = Inr se" and "y \<in> set (startup_steps P f se c)"
  shows "runs_with f s (se_dns se) (se_override se) c y"
proof -
  note ok = configured [OF assms(2)]
  have gateway: "case se_gateway se of None \<Rightarrow> trim_space (fl_gateway f) = [] | Some sel \<Rightarrow> \<not> selector_empty sel"
    using ok(3) by (cases "se_gateway se") (auto simp: parseGatewaySelector_def split: if_split_asm sum.split_asm)
  have fence: "fence_ok s (se_ingress se)"
    by (rule fence_builds [OF assms(1) ok(4)])
  have probe: "enforcement_probe se = probe_with (se_override se)"
    by (simp add: enforcement_probe_def probe_with_def)
  show ?thesis using assms(3) ok(1) gateway fence
    by (auto simp: startup_steps_def controllers_def webhooks_def checks_def runs_with_def
      server_controller_def namespace_controller_def policy_controller_def probe split: if_split_asm)
qed

text \<open>C34 Whatever is started runs with one configuration: every reconciler has the same DNS
  peers, which are well formed, and the probe with the override the flag names; those that
  talk to core have the same client, there exactly when there is a URL; the concurrency is
  at least one, a gateway selector selects something, and the provider ingress of an
  enabled fence builds for any server.\<close>
theorem one_configuration:
  assumes "dns1123_errors L [] \<noteq> []" and "start_operator L P f = (x, l)" and "1 < length l"
  shows "\<exists>d v c. dns_ok d \<and> parseEnforcementOverride (fl_enforcement f) = Inr v \<and> (c = None \<longleftrightarrow> fl_url f = [])
    \<and> list_all (runs_with f s d v c) l"
proof -
  obtain se c where se: "configure L P f = Inr se" "core_connection P f = Inr c"
    and l: "set l \<subseteq> {NewManager (mgr_options f), StartManager} \<union> set (startup_steps P f se (map_option fst c))"
    using started_steps [OF assms(2,3)] .
  have url: "map_option fst c = None \<longleftrightarrow> fl_url f = []"
    using se(2) by (auto simp: core_connection_def split: if_split_asm sum.split_asm)
  have "list_all (runs_with f s (se_dns se) (se_override se) (map_option fst c)) l"
    using l steps_run_with [OF assms(1) se(1)] by (fastforce simp: list_all_iff runs_with_def)
  then show ?thesis using dns_flags_ok [OF se(1)] configured(2) [OF se(1)] url by blast
qed

section \<open>Rendering\<close>

definition runs_spec :: "mcp_server \<Rightarrow> effect \<Rightarrow> bool" where
  "runs_spec s e = (case e of
     Apply (KDeploy x) \<Rightarrow> (case BuildDeploymentForMCPServer s of Inl _ \<Rightarrow> False | Inr d \<Rightarrow> dep_spec x = dep_spec d)
   | _ \<Rightarrow> True)"

lemma harmless_runs: "harmless e \<Longrightarrow> runs_spec s e"
  by (simp add: runs_spec_def harmless_def split: effect.splits)

lemma deployment_runs_spec: "emits (runs_spec s) (reconcileDeployment E R s inc)"
proof -
  have quiet: "emits (runs_spec s) m" if "emits harmless m" for m :: "'b srv"
    using emits_mono [OF that harmless_runs] .
  have app: "emits (runs_spec s) (applyOwned E (KDeploy x))"
    if "BuildDeploymentForMCPServer s = Inr d" "dep_spec x = dep_spec d" for x d
    by (intro emits_intro) (simp add: runs_spec_def applyUnstructured_def strip_meta_def that)
  have deploy: "emits (runs_spec s) (write_deployment E s x h)"
    if "BuildDeploymentForMCPServer s = Inr d" "dep_spec x = dep_spec d" for x d h
    unfolding write_deployment_def
    by (intro emits_intro app [OF that(1)] quiet [OF harmless_steps(1)] quiet [OF harmless_steps(2)])
      (simp_all add: that annotate_dep_def runs_spec_def)
  have legacy: "emits (runs_spec s) (removeLegacyPod E s)"
    unfolding removeLegacyPod_def by (intro emits_intro) (simp_all add: runs_spec_def)
  show ?thesis unfolding reconcileDeployment_def
    by (intro emits_intro legacy deploy quiet [OF harmless_steps(3)])
      (simp_all add: annotate_dep_def runs_spec_def)
qed

text \<open>C35 Rendering is a dry run: for the same MCPServer the Deployment the render command prints
  and any Deployment a reconcile applies have the same specification, so one pod template;
  another mode than container is refused.\<close>
theorem render_is_what_runs:
  assumes "parse raw = Inr s" and "run_state (reconcileDeployment E R s inc) t = (a, t')"
    and "st_log t' = st_log t @ es" and "Apply (KDeploy x) \<in> set es"
  shows "if sp_mode (s_spec s) = ModeContainer
    then \<exists>d. render parse show_yaml put (Inr raw) = (case show_yaml d of Inl e \<Rightarrow> Some e | Inr out \<Rightarrow> put out)
      \<and> dep_spec x = dep_spec d
    else render parse show_yaml put (Inr raw) = Some (Plain ''only a container-mode MCPServer renders a Deployment'')"
proof -
  have "runs_spec s (Apply (KDeploy x))"
    using emitsD [OF deployment_runs_spec assms(2)] assms(3,4) by (auto simp: list_all_iff)
  then show ?thesis using assms(1) by (auto simp: runs_spec_def render_def split: sum.split_asm)
qed

section \<open>A concrete start\<close>

definition willing :: platform where
  "willing = \<lparr>pf_env = (\<lambda>k. if k = ''POD_NAMESPACE'' then ''hangar'' else []), pf_file = (\<lambda>p. Inl (NotFound p)),
     pf_pem = (\<lambda>s. False), pf_labels = (\<lambda>s. Inr (match_labels [(''app.kubernetes.io/name'', ''mcp-hangar'')])),
     pf_cilium = False, pf_answer = (\<lambda>l x. None)\<rparr>"

definition willing_start :: "fatal option \<times> startup list" where
  "willing_start = start_operator std_lib willing (default_flags (\<lambda>k. []))"

lemma willing_starts: "fst willing_start = None \<and> 1 < length (snd willing_start)"
  by (simp add: willing_start_def start_operator_def configure_def dns_cidrs_flag_def dns_selectors_flag_def
      default_flags_def parseEnforcementOverride_def parseGatewaySelector_def ParseProviderIngressConfig_def
      core_connection_def startup_answer_def willing_def startup_steps_def controllers_def checks_def
      DefaultGatewayPodSelector_def selector_empty_def match_labels_def trim_space_def is_space_def)

theorem one_configuration_witness:
  "\<exists>d v. dns_ok d \<and> parseEnforcementOverride ''auto'' = Inr v \<and> list_all (runs_with (default_flags (\<lambda>k. [])) zero_server d v None) (snd willing_start)"
proof -
  have s: "start_operator std_lib willing (default_flags (\<lambda>k. [])) = (None, snd willing_start)"
    using willing_starts by (simp add: willing_start_def prod_eq_iff)
  have "dns1123_errors std_lib [] \<noteq> []" by (simp add: std_lib_def)
  from one_configuration [OF this s, of zero_server] willing_starts
  show ?thesis by (auto simp: default_flags_def)
qed

text \<open>The Deployment a reconcile creates for a server has the image its rendering shows.\<close>
definition shown_image :: "deployment \<Rightarrow> string" where
  "shown_image d = ct_image (hd (psp_containers (dep_pod (dep_spec d))))"

theorem render_is_what_runs_witness:
  "\<exists>x. Apply (KDeploy x) \<in> set (st_log (snd create_run))
    \<and> render (\<lambda>raw. Inr (demo_container ''i'')) (\<lambda>d. Inr (shown_image d))
        (\<lambda>out. if out = shown_image x then None else Some (Plain out)) (Inr ''in'') = None"
proof -
  obtain x where x: "st_log (snd create_run) ! 2 = Apply (KDeploy x)" "2 < length (st_log (snd create_run))"
    using create_run_applies by (auto split: effect.split_asm kobj.split_asm)
  have m: "sp_mode (s_spec (demo_container ''i'')) = ModeContainer" by (simp add: demo_container_def)
  have r: "run_state (reconcileDeployment std_env demo_reconciler (demo_container ''i'') False)
      (start_state (demo_container ''i'') zero_server_status) = (fst create_run, snd create_run)"
    by (simp add: create_run_def)
  have ap: "Apply (KDeploy x) \<in> set (st_log (snd create_run))" using x by (metis nth_mem)
  from render_is_what_runs [of "\<lambda>raw. Inr (demo_container ''i'')" "''in''", OF refl r, of "st_log (snd create_run)" x
      "\<lambda>d. Inr (shown_image d)" "\<lambda>out. if out = shown_image x then None else Some (Plain out)"] ap m
  show ?thesis by (auto simp: start_state_def shown_image_def)
qed

end
