(* ===== verification/GoHeap.thy ===== *)
theory GoHeap
  imports Main "HOL-Library.AList" "HOL-Library.Sublist"
begin

text \<open>
  Go values in a heap, for the code whose correctness is about sharing.  Everywhere else a
  Go value is a HOL value; that is sound where an object is copied before it is changed,
  and the copies are the generated functions of theory DeepCopy.  A pointer and a map refer
  to a cell; a slice refers to a part of the elements of one.  \<open>content\<close> is what can be read
  through a value of a type, \<open>reach\<close> the cells one can get to from it.
\<close>

datatype prim = PStr string | PInt int | PBool bool

text \<open>\<open>Slice a i n\<close> shows \<open>n\<close> elements of the array in cell \<open>a\<close> from index \<open>i\<close> on.\<close>
datatype val = Prim prim | NilV | Ref nat | Slice nat nat nat | Struct "(string \<times> val) list"

datatype cell = Obj val | Arr "val list" | Dict "(string \<times> string) list"

type_synonym heap = "cell list"

definition cell_at :: "heap \<Rightarrow> nat \<Rightarrow> cell option" where
  "cell_at h a = (if a < length h then Some (h ! a) else None)"

text \<open>The types of the API: basic types, pointers, slices, \<open>map[string]string\<close> and structs.\<close>
datatype shape = SPrim | SPtr shape | SSlice shape | SMap | SStruct "(string \<times> shape) list"

datatype tree = TPrim prim | TNil | TPtr tree | TSlice "tree list" | TMap "string \<rightharpoonup> string"
  | TStruct "(string \<times> tree) list"

section \<open>Reading\<close>

fun all_some :: "'a option list \<Rightarrow> 'a list option" where
  "all_some [] = Some []"
| "all_some (x # xs) = (case (x, all_some xs) of (Some y, Some ys) \<Rightarrow> Some (y # ys) | _ \<Rightarrow> None)"

lemma all_some_map [simp]: "all_some (map Some ys) = Some ys"
  by (induction ys) auto

lemma all_some_iff: "all_some xs = Some ys \<longleftrightarrow> xs = map Some ys"
proof
  show "all_some xs = Some ys \<Longrightarrow> xs = map Some ys"
    by (induction xs arbitrary: ys) (auto split: option.splits)
qed simp

definition shown :: "nat \<Rightarrow> nat \<Rightarrow> 'a list \<Rightarrow> 'a list" where
  "shown i n ws = take n (drop i ws)"

fun content :: "heap \<Rightarrow> shape \<Rightarrow> val \<Rightarrow> tree option"
and fields :: "heap \<Rightarrow> (string \<times> shape) list \<Rightarrow> (string \<times> val) list \<Rightarrow> (string \<times> tree) list option" where
  "content h SPrim v = (case v of Prim p \<Rightarrow> Some (TPrim p) | _ \<Rightarrow> None)"
| "content h (SPtr s) v = (case v of
     NilV \<Rightarrow> Some TNil
   | Ref a \<Rightarrow> (case cell_at h a of Some (Obj w) \<Rightarrow> map_option TPtr (content h s w) | _ \<Rightarrow> None)
   | _ \<Rightarrow> None)"
| "content h (SSlice s) v = (case v of
     NilV \<Rightarrow> Some TNil
   | Slice a i n \<Rightarrow> (case cell_at h a of
        Some (Arr ws) \<Rightarrow> if i + n \<le> length ws then map_option TSlice (all_some (map (content h s) (shown i n ws))) else None
      | _ \<Rightarrow> None)
   | _ \<Rightarrow> None)"
| "content h SMap v = (case v of
     NilV \<Rightarrow> Some TNil
   | Ref a \<Rightarrow> (case cell_at h a of Some (Dict kvs) \<Rightarrow> if distinct (map fst kvs) then Some (TMap (map_of kvs)) else None | _ \<Rightarrow> None)
   | _ \<Rightarrow> None)"
| "content h (SStruct fs) v = (case v of Struct ws \<Rightarrow> map_option TStruct (fields h fs ws) | _ \<Rightarrow> None)"
| "fields h [] [] = Some []"
| "fields h ((f, s) # fs) ((g, w) # ws) = (if f = g then
     (case (content h s w, fields h fs ws) of (Some t, Some ts) \<Rightarrow> Some ((f, t) # ts) | _ \<Rightarrow> None) else None)"
| "fields h _ _ = None"

fun reach :: "heap \<Rightarrow> shape \<Rightarrow> val \<Rightarrow> nat set"
and fields_reach :: "heap \<Rightarrow> (string \<times> shape) list \<Rightarrow> (string \<times> val) list \<Rightarrow> nat set" where
  "reach h SPrim v = {}"
| "reach h (SPtr s) v = (case v of
     Ref a \<Rightarrow> insert a (case cell_at h a of Some (Obj w) \<Rightarrow> reach h s w | _ \<Rightarrow> {}) | _ \<Rightarrow> {})"
| "reach h (SSlice s) v = (case v of
     Slice a i n \<Rightarrow> insert a (case cell_at h a of Some (Arr ws) \<Rightarrow> \<Union> (set (map (reach h s) (shown i n ws))) | _ \<Rightarrow> {})
   | _ \<Rightarrow> {})"
| "reach h SMap v = (case v of Ref a \<Rightarrow> {a} | _ \<Rightarrow> {})"
| "reach h (SStruct fs) v = (case v of Struct ws \<Rightarrow> fields_reach h fs ws | _ \<Rightarrow> {})"
| "fields_reach h ((f, s) # fs) ((g, w) # ws) = reach h s w \<union> fields_reach h fs ws"
| "fields_reach h _ _ = {}"

text \<open>A type without references: assigning a value of it copies all of it.\<close>
fun flat :: "shape \<Rightarrow> bool" and flat_fields :: "(string \<times> shape) list \<Rightarrow> bool" where
  "flat SPrim = True"
| "flat (SPtr s) = False"
| "flat (SSlice s) = False"
| "flat SMap = False"
| "flat (SStruct fs) = flat_fields fs"
| "flat_fields [] = True"
| "flat_fields ((f, s) # fs) = (flat s \<and> flat_fields fs)"

section \<open>Frames\<close>

definition same_on :: "nat set \<Rightarrow> heap \<Rightarrow> heap \<Rightarrow> bool" where
  "same_on A h h' = (\<forall>a \<in> A. cell_at h' a = cell_at h a)"

lemma same_on_mono: "same_on B h h' \<Longrightarrow> A \<subseteq> B \<Longrightarrow> same_on A h h'"
  by (auto simp: same_on_def)

text \<open>What a value shows depends only on the cells it reaches.\<close>
lemma fields_frame:
  assumes "\<And>f s v. (f, s) \<in> set fs \<Longrightarrow> same_on (reach h s v) h h' \<Longrightarrow> content h' s v = content h s v \<and> reach h' s v = reach h s v"
    and "same_on (fields_reach h fs ws) h h'"
  shows "fields h' fs ws = fields h fs ws \<and> fields_reach h' fs ws = fields_reach h fs ws"
  using assms
proof (induction fs arbitrary: ws)
  case Nil
  then show ?case by (cases ws) auto
next
  case (Cons x fs)
  then show ?case
  proof (cases ws)
    case (Cons y ws')
    have "same_on (reach h (snd x) (snd y)) h h'" "same_on (fields_reach h fs ws') h h'"
      using Cons.prems(2) Cons by (cases x; cases y; auto intro: same_on_mono)+
    moreover from this(2) have "fields h' fs ws' = fields h fs ws' \<and> fields_reach h' fs ws' = fields_reach h fs ws'"
      by (rule Cons.IH [rotated]) (use Cons.prems(1) in auto)
    ultimately show ?thesis
      using Cons.prems(1) [of "fst x" "snd x" "snd y"] Cons by (cases x; cases y) auto
  qed (cases x; simp)
qed

lemma content_frame:
  "same_on (reach h s v) h h' \<Longrightarrow> content h' s v = content h s v \<and> reach h' s v = reach h s v"
proof (induction s arbitrary: v)
  case (SPtr s)
  then show ?case by (auto simp: same_on_def split: val.splits cell.splits option.splits)
next
  case (SSlice s)
  show ?case
  proof (cases v)
    case (Slice a i n)
    have a: "cell_at h' a = cell_at h a" using SSlice.prems Slice by (simp add: same_on_def)
    have e: "content h' s w = content h s w \<and> reach h' s w = reach h s w" if "cell_at h a = Some (Arr ws)" "w \<in> set (shown i n ws)" for ws w
      using SSlice.prems Slice that by (intro SSlice.IH) (auto simp: same_on_def)
    show ?thesis using a e by (auto simp: Slice split: cell.splits option.splits cong: map_cong)
  qed auto
next
  case (SStruct fs)
  have IH: "content h' s w = content h s w \<and> reach h' s w = reach h s w"
    if "(f, s) \<in> set fs" "same_on (reach h s w) h h'" for f s w
    using SStruct.IH [of "(f, s)" s w] that by simp
  then show ?case using SStruct.prems fields_frame [of fs h h'] by (cases v) auto
qed (auto simp: same_on_def split: val.splits)

lemma flat_reach: "flat s \<Longrightarrow> reach h s v = {}" and flat_fields_reach: "flat_fields fs \<Longrightarrow> fields_reach h fs ws = {}"
proof (induction s and fs arbitrary: v and ws rule: flat_flat_fields.induct)
  case (7 f s fs)
  then show ?case by (cases ws) auto
qed (auto split: val.splits)

text \<open>Nothing that can be read lies beyond the heap.\<close>
lemma cell_at_bound: "cell_at h a = Some c \<Longrightarrow> a < length h"
  by (auto simp: cell_at_def split: if_splits)

lemma fields_bound:
  assumes "\<And>f s v t. (f, s) \<in> set fs \<Longrightarrow> content h s v = Some t \<Longrightarrow> reach h s v \<subseteq> {..<length h}" and "fields h fs ws = Some ts"
  shows "fields_reach h fs ws \<subseteq> {..<length h}"
  using assms
proof (induction fs arbitrary: ws ts)
  case (Cons x fs)
  obtain f s where x: "x = (f, s)" by (cases x)
  obtain w ws' where ws: "ws = (f, w) # ws'" using Cons.prems(2) by (cases ws) (auto simp: x split: if_splits)
  obtain t ts' where t: "content h s w = Some t" "fields h fs ws' = Some ts'"
    using Cons.prems(2) by (auto simp: x ws split: option.splits)
  have "reach h s' v \<subseteq> {..<length h}" if "(f', s') \<in> set fs" "content h s' v = Some u" for f' s' v u
    using Cons.prems(1) [of f' s' v u] that by simp
  then have "fields_reach h fs ws' \<subseteq> {..<length h}" using Cons.IH [OF _ t(2)] by blast
  then show ?case using Cons.prems(1) [OF _ t(1)] by (auto simp: x ws)
qed (cases ws; simp)

lemma content_bound: "content h s v = Some t \<Longrightarrow> reach h s v \<subseteq> {..<length h}"
proof (induction s arbitrary: v t)
  case (SPtr s)
  then show ?case by (fastforce dest: cell_at_bound split: val.splits cell.splits option.splits)
next
  case (SSlice s)
  show ?case
  proof (cases v)
    case (Slice a i n)
    then obtain ws us where ws: "cell_at h a = Some (Arr ws)" "map (content h s) (shown i n ws) = map Some us"
      using SSlice.prems by (auto simp: all_some_iff split: option.splits cell.splits if_splits)
    have "reach h s w \<subseteq> {..<length h}" if "w \<in> set (shown i n ws)" for w
    proof -
      have "content h s w \<in> Some ` set us" using that ws(2) by (metis image_eqI image_set list.set_map)
      then show ?thesis using SSlice.IH by auto
    qed
    then show ?thesis using Slice ws cell_at_bound [OF ws(1)] by auto
  qed (use SSlice.prems in auto)
next
  case (SStruct fs)
  have "reach h s w \<subseteq> {..<length h}" if "(f, s) \<in> set fs" "content h s w = Some u" for f s w u
    using SStruct.IH [of "(f, s)" s w u] that by simp
  then show ?case using SStruct.prems fields_bound [of fs h] by (auto split: val.splits)
qed (auto dest: cell_at_bound split: val.splits cell.splits option.splits if_splits)

section \<open>Copying\<close>

text \<open>A copier takes the value read and gives the value written and the heap after it.\<close>
type_synonym copier = "val \<Rightarrow> heap \<Rightarrow> val \<times> heap"

text \<open>\<open>*out = *in\<close>.\<close>
definition assign :: copier where
  "assign v h = (v, h)"

text \<open>\<open>*out = new(T); (*in).DeepCopyInto(*out)\<close> of a pointer that is not nil, which is also
  what \<open>DeepCopy\<close> does; the new cell is written after the copy is there.\<close>
definition new_copy :: "copier \<Rightarrow> copier" where
  "new_copy c v h = (case v of
     Ref a \<Rightarrow> (case cell_at h a of
        Some (Obj w) \<Rightarrow> (case c w (h @ [Obj NilV]) of (w', h') \<Rightarrow> (Ref (length h), h'[length h := Obj w']))
      | _ \<Rightarrow> (v, h))
   | _ \<Rightarrow> (v, h))"

text \<open>\<open>(*in)[i].DeepCopyInto(&(*out)[i])\<close> for every index, and \<open>copy\<close> with \<open>c = assign\<close>.\<close>
fun each :: "copier \<Rightarrow> val list \<Rightarrow> heap \<Rightarrow> val list \<times> heap" where
  "each c [] h = ([], h)"
| "each c (w # ws) h = (case c w h of (w', h1) \<Rightarrow> (case each c ws h1 of (ws', h2) \<Rightarrow> (w' # ws', h2)))"

text \<open>\<open>*out = make([]T, len( *in))\<close> and the loop over the elements.\<close>
definition make_slice :: "copier \<Rightarrow> copier" where
  "make_slice c v h = (case v of
     Slice a i n \<Rightarrow> (case cell_at h a of
        Some (Arr ws) \<Rightarrow> (case each c (shown i n ws) (h @ [Arr (replicate n NilV)]) of
           (ws', h') \<Rightarrow> (Slice (length h) 0 n, h'[length h := Arr ws']))
      | _ \<Rightarrow> (v, h))
   | _ \<Rightarrow> (v, h))"

text \<open>\<open>*out = make(map[string]string, len( *in))\<close> and the assignments of its entries.\<close>
definition make_map :: copier where
  "make_map v h = (case v of
     Ref a \<Rightarrow> (case cell_at h a of
        Some (Dict kvs) \<Rightarrow> (Ref (length h), h @ [Dict (foldl (\<lambda>m (k, x). AList.update k x m) [] kvs)])
      | _ \<Rightarrow> (v, h))
   | _ \<Rightarrow> (v, h))"

fun field :: "string \<Rightarrow> val \<Rightarrow> val option" where
  "field f (Struct ws) = map_of ws f"
| "field f _ = None"

fun put :: "string \<Rightarrow> val \<Rightarrow> val \<Rightarrow> val" where
  "put f w (Struct ws) = Struct (map (\<lambda>(g, x). (g, if g = f then w else x)) ws)"
| "put f w v = v"

text \<open>\<open>if in.F != nil { in, out := &in.F, &out.F; ... }\<close> for the fields of a list, in order;
  the copiers leave nil as it is.\<close>
fun copy_blocks :: "(string \<times> copier) list \<Rightarrow> val \<Rightarrow> val \<Rightarrow> heap \<Rightarrow> val \<times> heap" where
  "copy_blocks [] v out h = (out, h)"
| "copy_blocks ((f, c) # bs) v out h = (case field f v of
     None \<Rightarrow> copy_blocks bs v out h
   | Some w \<Rightarrow> (case c w h of (w', h') \<Rightarrow> copy_blocks bs v (put f w' out) h'))"

text \<open>A generated \<open>DeepCopyInto\<close>: \<open>*out = *in\<close>, and then its blocks.\<close>
definition copy_into :: "(string \<times> copier) list \<Rightarrow> copier" where
  "copy_into bs v h = copy_blocks bs v v h"

section \<open>Deep copies\<close>

text \<open>The copy shows what the original shows, the heap only grows, and every cell the copy
  reaches is new.\<close>
definition deep :: "copier \<Rightarrow> shape \<Rightarrow> bool" where
  "deep c s = (\<forall>h v t. content h s v = Some t \<longrightarrow> (case c v h of (v', h') \<Rightarrow>
     prefix h h' \<and> content h' s v' = Some t \<and> reach h' s v' \<subseteq> {length h ..< length h'}))"

named_theorems deep_rules "the copiers that are deep copies"

lemma deepI:
  assumes "\<And>h v t v' h'. content h s v = Some t \<Longrightarrow> c v h = (v', h')
    \<Longrightarrow> prefix h h' \<and> content h' s v' = Some t \<and> reach h' s v' \<subseteq> {length h ..< length h'}"
  shows "deep c s"
  unfolding deep_def
proof (intro allI impI)
  fix h v t assume "content h s v = Some t"
  then show "case c v h of (v', h') \<Rightarrow> prefix h h' \<and> content h' s v' = Some t \<and> reach h' s v' \<subseteq> {length h ..< length h'}"
    using assms [of h v t "fst (c v h)" "snd (c v h)"] by (simp add: case_prod_beta)
qed

lemma deepD:
  assumes "deep c s" "content h s v = Some t" "c v h = (v', h')"
  shows "prefix h h'" "content h' s v' = Some t" "reach h' s v' \<subseteq> {length h ..< length h'}"
proof -
  have "case c v h of (v', h') \<Rightarrow> prefix h h' \<and> content h' s v' = Some t \<and> reach h' s v' \<subseteq> {length h ..< length h'}"
    using assms(1) [unfolded deep_def, rule_format, OF assms(2)] .
  then show "prefix h h'" "content h' s v' = Some t" "reach h' s v' \<subseteq> {length h ..< length h'}" by (simp_all add: assms(3))
qed

lemma same_on_prefix: "prefix h h' \<Longrightarrow> A \<subseteq> {..<length h} \<Longrightarrow> same_on A h h'"
  by (fastforce simp: same_on_def cell_at_def prefix_def nth_append)

lemma content_prefix:
  assumes "content h s v = Some t" "prefix h h'"
  shows "content h' s v = Some t \<and> reach h' s v = reach h s v"
  using content_frame [OF same_on_prefix [OF assms(2) content_bound [OF assms(1)]]] assms(1) by simp

text \<open>Writing a cell nothing reaches.\<close>
lemma content_update:
  assumes "content h s v = Some t" "p \<notin> reach h s v"
  shows "content (h[p := x]) s v = Some t \<and> reach (h[p := x]) s v = reach h s v"
proof -
  have "same_on (reach h s v) h (h[p := x])" using assms(2) by (auto simp: same_on_def cell_at_def) (metis nth_list_update_neq)
  then show ?thesis using content_frame assms(1) by fastforce
qed

lemma prefix_update: "prefix (h @ [x]) h' \<Longrightarrow> prefix h (h'[length h := y])"
  by (auto simp: prefix_def list_update_append)

lemma cell_at_new: "prefix (h @ [x]) h' \<Longrightarrow> cell_at (h'[length h := y]) (length h) = Some y \<and> length h < length h'"
  by (auto simp: prefix_def cell_at_def)

lemma deep_assign [deep_rules]: "flat s \<Longrightarrow> deep assign s"
  by (rule deepI) (auto simp: assign_def flat_reach)

lemma deep_new_copy [deep_rules]:
  assumes "deep c s" shows "deep (new_copy c) (SPtr s)"
proof (rule deepI)
  fix h v t v' h' assume v: "content h (SPtr s) v = Some t" and c: "new_copy c v h = (v', h')"
  show "prefix h h' \<and> content h' (SPtr s) v' = Some t \<and> reach h' (SPtr s) v' \<subseteq> {length h ..< length h'}"
  proof (cases v)
    case (Ref a)
    then obtain w u where w: "cell_at h a = Some (Obj w)" "content h s w = Some u" "t = TPtr u"
      using v by (auto split: option.splits cell.splits)
    obtain w' h1 where c1: "c w (h @ [Obj NilV]) = (w', h1)" by fastforce
    note r = deepD [OF assms content_prefix [OF w(2), THEN conjunct1, of "h @ [Obj NilV]"] c1]
    have r1: "prefix (h @ [Obj NilV]) h1" "content h1 s w' = Some u" "length h \<notin> reach h1 s w'" "reach h1 s w' \<subseteq> {length h ..< length h1}"
      using r by auto
    show ?thesis
      using c r1(4) prefix_update [OF r1(1)] cell_at_new [OF r1(1)] content_update [OF r1(2,3)]
      by (clarsimp simp add: new_copy_def Ref w c1)
  qed (use v c in \<open>auto simp: new_copy_def\<close>)
qed

lemma each_prefix: "map (content h s) ws = map Some us \<Longrightarrow> prefix h h' \<Longrightarrow> map (content h' s) ws = map Some us"
proof (induction ws arbitrary: us)
  case (Cons w ws)
  from Cons.prems(1) obtain u us' where u: "us = u # us'" "content h s w = Some u" "map (content h s) ws = map Some us'"
    by (cases us) auto
  then show ?case using Cons.IH [OF u(3) Cons.prems(2)] content_prefix [OF u(2) Cons.prems(2)] by (simp add: u(1))
qed (cases us; simp)

lemma deep_each:
  assumes "deep c s" "map (content h s) ws = map Some us" "each c ws h = (ws', h')"
  shows "prefix h h' \<and> map (content h' s) ws' = map Some us \<and> \<Union> (reach h' s ` set ws') \<subseteq> {length h ..< length h'}"
  using assms(2,3)
proof (induction ws arbitrary: us h ws' h')
  case (Cons w ws)
  from Cons.prems(1) obtain u us' where u: "us = u # us'" "content h s w = Some u" "map (content h s) ws = map Some us'"
    by (cases us) auto
  obtain w1 h1 where c: "c w h = (w1, h1)" by fastforce
  obtain ws2 h2 where e: "each c ws h1 = (ws2, h2)" by fastforce
  note r = deepD [OF assms(1) u(2) c]
  note i = Cons.IH [OF each_prefix [OF u(3) r(1)] e]
  have p: "prefix h1 h2" using i by simp
  have "content h2 s w1 = Some u" "reach h2 s w1 = reach h1 s w1" using content_prefix [OF r(2) p] by auto
  moreover have "length h \<le> length h1" "length h1 \<le> length h2" using prefix_length_le [OF r(1)] prefix_length_le [OF p] by auto
  moreover have "prefix h h2" using r(1) p by (rule prefix_order.trans)
  moreover have "ws' = w1 # ws2" "h' = h2" using Cons.prems(2) c e by auto
  ultimately show ?case using i r(3) by (simp add: u(1)) (elim conjE, fastforce)
qed (cases us; simp)

lemma deep_make_slice [deep_rules]:
  assumes "deep c s" shows "deep (make_slice c) (SSlice s)"
proof (rule deepI)
  fix h v t v' h' assume v: "content h (SSlice s) v = Some t" and c: "make_slice c v h = (v', h')"
  show "prefix h h' \<and> content h' (SSlice s) v' = Some t \<and> reach h' (SSlice s) v' \<subseteq> {length h ..< length h'}"
  proof (cases v)
    case (Slice a i n)
    then obtain ws us where w: "cell_at h a = Some (Arr ws)" "i + n \<le> length ws" "map (content h s) (shown i n ws) = map Some us" "t = TSlice us"
      using v by (auto simp: all_some_iff split: option.splits cell.splits if_splits)
    let ?h = "h @ [Arr (replicate n NilV)]"
    obtain ws' h1 where e: "each c (shown i n ws) ?h = (ws', h1)" by fastforce
    note r = deep_each [OF assms each_prefix [OF w(3)] e, simplified]
    have "length ws' = length us" using r by (metis length_map)
    also have "length us = length (shown i n ws)" using w(3) by (metis length_map)
    finally have len: "length ws' = n" using w(2) by (simp add: shown_def)
    have p: "prefix ?h h1" using r by simp
    have k: "content (h1[length h := Arr ws']) s w = content h1 s w \<and> reach (h1[length h := Arr ws']) s w = reach h1 s w"
      if "w \<in> set ws'" for w
    proof -
      have "content h1 s w \<in> Some ` set us" using r that by (metis image_eqI image_set list.set_map)
      moreover have "length h \<notin> reach h1 s w" using r that by fastforce
      ultimately show ?thesis using content_update by (metis imageE)
    qed
    then have m: "map (content (h1[length h := Arr ws']) s) ws' = map Some us" using r by (metis (no_types, lifting) map_cong)
    have "reach (h1[length h := Arr ws']) s w \<subseteq> {length h ..< length h1}" if "w \<in> set ws'" for w
      using r k [OF that] that by fastforce
    then have "\<Union> (set (map (reach (h1[length h := Arr ws']) s) ws')) \<subseteq> {length h ..< length h1}" by auto
    moreover have "h' = h1[length h := Arr ws']" "v' = Slice (length h) 0 n" using c by (auto simp: make_slice_def Slice w e)
    ultimately show ?thesis
      using prefix_update [OF p] cell_at_new [OF p, of "Arr ws'"] m len by (simp add: shown_def w(4))
  qed (use v c in \<open>auto simp: make_slice_def\<close>)
qed

lemma updates_map_of: "map_of (foldl (\<lambda>m (k, x). AList.update k x m) m kvs) = map_of m ++ map_of (rev kvs)"
  by (induction kvs arbitrary: m) (auto simp: update_conv' map_add_def fun_eq_iff split: option.split)

lemma updates_distinct: "distinct (map fst m) \<Longrightarrow> distinct (map fst (foldl (\<lambda>m (k, x). AList.update k x m) m kvs))"
  by (induction kvs arbitrary: m) (auto simp: distinct_update)

lemma distinct_map_of_rev: "distinct (map fst kvs) \<Longrightarrow> map_of (rev kvs) k = map_of kvs k"
  by (induction kvs) (auto simp: map_add_def map_of_eq_None_iff [symmetric] split: option.split)

lemma map_of_rev_distinct: "distinct (map fst kvs) \<Longrightarrow> map_of (rev kvs) = map_of kvs"
  by (simp add: fun_eq_iff distinct_map_of_rev)

lemma deep_make_map [deep_rules]: "deep make_map SMap"
proof (rule deepI)
  fix h v t v' h' assume "content h SMap v = Some t" "make_map v h = (v', h')"
  then show "prefix h h' \<and> content h' SMap v' = Some t \<and> reach h' SMap v' \<subseteq> {length h ..< length h'}"
    by (auto simp: make_map_def cell_at_def updates_map_of map_of_rev_distinct updates_distinct split: val.splits option.splits cell.splits if_splits)
qed

text \<open>Structs, field by field.\<close>
lemma fields_names: "fields h fs ws = Some ts \<Longrightarrow> map fst ws = map fst fs \<and> map fst ts = map fst fs"
proof (induction fs arbitrary: ws ts)
  case Nil
  then show ?case by (cases ws) auto
next
  case (Cons x fs)
  then show ?case by (cases x; cases ws) (auto split: if_splits option.splits)
qed

definition shows_fields :: "heap \<Rightarrow> (string \<times> shape) list \<Rightarrow> (string \<times> val) list \<Rightarrow> (string \<times> tree) list \<Rightarrow> bool" where
  "shows_fields h fs ws ts = (\<forall>f s. (f, s) \<in> set fs \<longrightarrow> content h s (the (map_of ws f)) = Some (the (map_of ts f)))"

lemma fields_iff:
  assumes "distinct (map fst fs)" "map fst ws = map fst fs" "map fst ts = map fst fs"
  shows "fields h fs ws = Some ts \<longleftrightarrow> shows_fields h fs ws ts"
  using assms
proof (induction fs arbitrary: ws ts)
  case (Cons x fs)
  obtain f s where x: "x = (f, s)" by (cases x)
  obtain w ws' where ws: "ws = (f, w) # ws'" using Cons.prems(2) x by (cases ws) auto
  obtain t ts' where ts: "ts = (f, t) # ts'" using Cons.prems(3) x by (cases ts) auto
  have ne: "g \<noteq> f" if "(g, u) \<in> set fs" for g u using Cons.prems(1) that by (force simp: x)
  have "shows_fields h (x # fs) ws ts \<longleftrightarrow> content h s w = Some t \<and> shows_fields h fs ws' ts'"
    using ne unfolding shows_fields_def x ws ts by auto
  then show ?case using Cons.IH [of ws' ts'] Cons.prems by (auto simp: x ws ts split: option.splits)
qed (simp add: shows_fields_def)

lemma fields_reach_eq:
  assumes "distinct (map fst fs)" "map fst ws = map fst fs"
  shows "fields_reach h fs ws = (\<Union>(f, s) \<in> set fs. reach h s (the (map_of ws f)))"
  using assms
proof (induction fs arbitrary: ws)
  case (Cons x fs)
  obtain f s where x: "x = (f, s)" by (cases x)
  obtain w ws' where ws: "ws = (f, w) # ws'" using Cons.prems(2) x by (cases ws) auto
  have ne: "g \<noteq> f" if "(g, u) \<in> set fs" for g u using Cons.prems(1) that by (force simp: x)
  have "(\<Union>(f, s) \<in> set fs. reach h s (the (map_of ws f))) = (\<Union>(f, s) \<in> set fs. reach h s (the (map_of ws' f)))"
    by (intro SUP_cong refl) (auto simp: ws dest: ne)
  then show ?case using Cons.IH [of ws'] Cons.prems by (simp add: x ws)
qed simp

text \<open>After some blocks the fields that have none left show what they should, and the rest
  of the struct is still to be replaced.\<close>
definition copied :: "heap \<Rightarrow> (string \<times> shape) list \<Rightarrow> (string \<times> tree) list \<Rightarrow> string set \<Rightarrow> val \<Rightarrow> heap \<Rightarrow> bool" where
  "copied h0 fs ts todo out h = (\<exists>ws. out = Struct ws \<and> map fst ws = map fst fs \<and> prefix h0 h
     \<and> (\<forall>f s. (f, s) \<in> set fs \<longrightarrow> f \<notin> todo \<longrightarrow> content h s (the (map_of ws f)) = Some (the (map_of ts f))
          \<and> reach h s (the (map_of ws f)) \<subseteq> {length h0 ..< length h}))"

lemma put_lookup: "map_of (map (\<lambda>(g, x). (g, if g = f then w else x)) ws) g = (if g = f then map_option (\<lambda>_. w) (map_of ws g) else map_of ws g)"
  by (induction ws) auto

lemma map_fst_put: "map fst (map (\<lambda>(g, x). (g, if g = f then w else x)) ws) = map fst ws"
  by (induction ws) auto

lemma copied_step:
  assumes "distinct (map fst fs)" "copied h0 fs ts (insert f todo) out h" "(f, s) \<in> set fs" "deep c s"
    and "content h0 s w = Some (the (map_of ts f))" "c w h = (w', h')"
  shows "copied h0 fs ts todo (put f w' out) h'"
proof -
  obtain ws where ws: "out = Struct ws" "map fst ws = map fst fs" "prefix h0 h"
    and old: "\<And>g s. (g, s) \<in> set fs \<Longrightarrow> g \<notin> insert f todo \<Longrightarrow> content h s (the (map_of ws g)) = Some (the (map_of ts g))
          \<and> reach h s (the (map_of ws g)) \<subseteq> {length h0 ..< length h}"
    using assms(2) unfolding copied_def by blast
  note r = deepD [OF assms(4) content_prefix [OF assms(5) ws(3), THEN conjunct1] assms(6)]
  let ?ws = "map (\<lambda>(g, x). (g, if g = f then w' else x)) ws"
  have len: "length h0 \<le> length h" "length h \<le> length h'" using prefix_length_le ws(3) r(1) by auto
  have "content h' u (the (map_of ?ws g)) = Some (the (map_of ts g)) \<and> reach h' u (the (map_of ?ws g)) \<subseteq> {length h0 ..< length h'}"
    if g: "(g, u) \<in> set fs" "g \<notin> todo" for g u
  proof (cases "g = f")
    case True
    have "u = s" using assms(1,3) g(1) True by (metis eq_key_imp_eq_value)
    moreover have "map_of ws g \<noteq> None"
    proof -
      have "g \<in> set (map fst fs)" using g(1) by force
      then show ?thesis unfolding ws(2) [symmetric] by (simp add: map_of_eq_None_iff)
    qed
    ultimately show ?thesis using True r len by (auto simp: put_lookup)
  next
    case False
    then have "content h' u (the (map_of ws g)) = Some (the (map_of ts g)) \<and> reach h' u (the (map_of ws g)) = reach h u (the (map_of ws g))"
      using content_prefix [OF _ r(1)] old g by blast
    moreover have "reach h u (the (map_of ws g)) \<subseteq> {length h0 ..< length h}" using False old [OF g(1)] g(2) by simp
    ultimately show ?thesis using False len(2) by (simp add: put_lookup) (elim conjE, fastforce)
  qed
  moreover have "put f w' out = Struct ?ws" "map fst ?ws = map fst fs" using ws(1,2) by (simp_all only: put.simps map_fst_put)
  ultimately show ?thesis using prefix_order.trans [OF ws(3) r(1)] unfolding copied_def by blast
qed

lemma copied_skip:
  assumes "copied h0 fs ts (insert f todo) out h" "f \<notin> fst ` set fs" shows "copied h0 fs ts todo out h"
proof -
  have "f \<noteq> g" if "(g, s) \<in> set fs" for g s using assms(2) that by force
  then show ?thesis using assms(1) unfolding copied_def insert_iff by metis
qed

definition blocks_ok :: "(string \<times> copier) list \<Rightarrow> (string \<times> shape) list \<Rightarrow> bool" where
  "blocks_ok bs fs = (distinct (map fst bs) \<and> distinct (map fst fs)
     \<and> list_all (\<lambda>(f, s). case map_of bs f of Some c \<Rightarrow> deep c s | None \<Rightarrow> flat s) fs)"

lemma copy_blocks_copied:
  assumes "distinct (map fst bs)" "distinct (map fst fs)" "\<And>f c s. (f, c) \<in> set bs \<Longrightarrow> (f, s) \<in> set fs \<Longrightarrow> deep c s"
    and "map fst ws = map fst fs" "shows_fields h0 fs ws ts"
    and "copied h0 fs ts (fst ` set bs) out h" "copy_blocks bs (Struct ws) out h = (out', h')"
  shows "copied h0 fs ts {} out' h'"
  using assms
proof (induction bs arbitrary: out h)
  case (Cons b bs)
  obtain f c where b: "b = (f, c)" by (cases b)
  have todo: "copied h0 fs ts (insert f (fst ` set bs)) out h" using Cons.prems(6) by (simp add: b)
  have IH: "copied h0 fs ts {} out' h'" if "copied h0 fs ts (fst ` set bs) o1 h1" "copy_blocks bs (Struct ws) o1 h1 = (out', h')" for o1 h1
    using Cons.IH [OF _ assms(2) _ assms(4,5) that] Cons.prems(1,3) by auto
  show ?case
  proof (cases "map_of ws f")
    case None
    then have "f \<notin> fst ` set fs" using Cons.prems(4) by (metis map_of_eq_None_iff list.set_map)
    then show ?thesis using copied_skip [OF todo] IH Cons.prems(7) None by (simp add: b)
  next
    case (Some w)
    then have "f \<in> fst ` set fs" using Cons.prems(4) by (metis map_of_eq_None_iff list.set_map option.distinct(1))
    then obtain s where s: "(f, s) \<in> set fs" by auto
    obtain w' h1 where c: "c w h = (w', h1)" by fastforce
    have d1: "content h0 s w = Some (the (map_of ts f))" using Cons.prems(5) [unfolded shows_fields_def, rule_format, OF s] by (simp add: Some)
    have d2: "deep c s" by (rule Cons.prems(3) [OF _ s]) (simp add: b)
    have "copied h0 fs ts (fst ` set bs) (put f w' out) h1" by (rule copied_step [OF assms(2) todo s d2 d1 c])
    then show ?thesis using IH Cons.prems(7) Some c by (simp add: b)
  qed
qed simp

lemma copied_start:
  assumes "blocks_ok bs fs" "map fst ws = map fst fs" "shows_fields h fs ws ts"
  shows "copied h fs ts (fst ` set bs) (Struct ws) h"
proof -
  have "flat s" if "(f, s) \<in> set fs" "f \<notin> fst ` set bs" for f s
    using assms(1) that by (fastforce simp: blocks_ok_def list_all_iff map_of_eq_None_iff split: option.splits)
  then show ?thesis using assms(2,3) by (fastforce simp: copied_def shows_fields_def flat_reach)
qed

text \<open>A generated function copies deeply as soon as every field that has a reference has a
  block that copies it deeply.\<close>
lemma deep_into: assumes "blocks_ok bs fs" shows "deep (copy_into bs) (SStruct fs)"
proof (rule deepI)
  fix h v t v' h' assume v: "content h (SStruct fs) v = Some t" and c: "copy_into bs v h = (v', h')"
  obtain ws ts where ws: "v = Struct ws" "fields h fs ws = Some ts" "t = TStruct ts" using v by (auto split: val.splits)
  have n: "map fst ws = map fst fs" "map fst ts = map fst fs" using fields_names [OF ws(2)] by auto
  have d: "distinct (map fst bs)" "distinct (map fst fs)" using assms by (auto simp: blocks_ok_def)
  have "deep c s" if "(f, c) \<in> set bs" "(f, s) \<in> set fs" for f c s
    using assms that d(1) by (fastforce simp: blocks_ok_def list_all_iff)
  then have "copied h fs ts {} v' h'"
    using copy_blocks_copied [OF d _ n(1) _ copied_start [OF assms n(1)]] fields_iff [OF d(2) n] ws c by (auto simp: copy_into_def)
  then obtain ws' where ws': "v' = Struct ws'" "map fst ws' = map fst fs" "prefix h h'" "shows_fields h' fs ws' ts"
      "(\<Union>(f, s) \<in> set fs. reach h' s (the (map_of ws' f))) \<subseteq> {length h ..< length h'}"
    by (fastforce simp: copied_def shows_fields_def)
  then show "prefix h h' \<and> content h' (SStruct fs) v' = Some t \<and> reach h' (SStruct fs) v' \<subseteq> {length h ..< length h'}"
    using fields_iff [OF d(2) ws'(2) n(2)] fields_reach_eq [OF d(2) ws'(2)] ws(3) by simp
qed

section \<open>Separation\<close>

text \<open>\<open>h2\<close> comes from \<open>h1\<close> by writing cells of \<open>A\<close> and making new ones.\<close>
definition written_only :: "nat set \<Rightarrow> heap \<Rightarrow> heap \<Rightarrow> bool" where
  "written_only A h1 h2 = (length h1 \<le> length h2 \<and> (\<forall>a < length h1. a \<notin> A \<longrightarrow> h2 ! a = h1 ! a))"

lemma written_only_same: "written_only A h1 h2 \<Longrightarrow> B \<subseteq> {..<length h1} \<Longrightarrow> A \<inter> B = {} \<Longrightarrow> same_on B h1 h2"
  by (fastforce simp: written_only_def same_on_def cell_at_def)

text \<open>The original and the copy show the same, and whatever is written through one of them
  the other still shows it.\<close>
definition separated :: "shape \<Rightarrow> val \<Rightarrow> val \<Rightarrow> heap \<Rightarrow> tree \<Rightarrow> bool" where
  "separated s v v' h t = (content h s v = Some t \<and> content h s v' = Some t
     \<and> (\<forall>h2. written_only (reach h s v') h h2 \<longrightarrow> content h2 s v = Some t)
     \<and> (\<forall>h2. written_only (reach h s v) h h2 \<longrightarrow> content h2 s v' = Some t))"

lemma deep_separates:
  assumes "deep c s" "content h s v = Some t" "c v h = (v', h')"
  shows "separated s v v' h' t"
proof -
  note r = deepD [OF assms]
  have k: "content h' s v = Some t" "reach h' s v = reach h s v" using content_prefix [OF assms(2) r(1)] by auto
  have disjoint: "reach h' s v' \<inter> reach h' s v = {}" using r(3) content_bound [OF assms(2)] by (fastforce simp: k(2))
  have "content h2 s v = Some t" if "written_only (reach h' s v') h' h2" for h2
    using content_frame [OF written_only_same [OF that content_bound [OF k(1)] disjoint]] k(1) by simp
  moreover have "content h2 s v' = Some t" if "written_only (reach h' s v) h' h2" for h2
    using content_frame [OF written_only_same [OF that content_bound [OF r(2)]]] disjoint r(2) by (simp add: Int_commute)
  ultimately show ?thesis using k(1) r(2) by (simp add: separated_def)
qed

end
