(* ===== verification/DeepCopy.thy ===== *)
theory DeepCopy
  imports GoHeap
begin

text \<open>
  \<open>api/v1alpha2/zz_generated.deepcopy.go\<close>: the deep copies of the API types, one function per
  type and its blocks in the order of the file, over the heap of theory GoHeap.  The shape
  of a type lists the fields of its Go struct.  The copies are generated code; what is shown
  of them is what the controllers use them for: an object changed after it was copied
  leaves the copy alone, and the other way round, so that a status base, a template or a
  declared capability kept aside is a value.  A field added to a type without running the
  generator again is the error the shapes make visible.

  Types of the Kubernetes packages are arguments: their shapes, the \<open>DeepCopyInto\<close> of those
  that have one, and \<open>DeepCopy\<close> of \<open>metav1.Time\<close>.
\<close>

record third_party =
  ext_copy :: "string \<Rightarrow> copier"
  ext_shape :: "string \<Rightarrow> shape"
  time_copy :: copier

text \<open>The types whose \<open>DeepCopyInto\<close> is called, and those a value of which is only assigned.\<close>
definition copied_types :: "string list" where
  "copied_types = [
     ''corev1.Affinity'', ''corev1.EnvVar'', ''corev1.PodSecurityContext'', ''corev1.ResourceRequirements'',
     ''corev1.SecurityContext'', ''corev1.Toleration'', ''corev1.Volume'', ''corev1.VolumeMount'',
     ''metav1.Condition'', ''metav1.LabelSelector'', ''metav1.LabelSelectorRequirement'', ''metav1.ListMeta'',
     ''metav1.ObjectMeta'', ''metav1.Time'']"

definition assigned_types :: "string list" where
  "assigned_types = [
     ''corev1.LocalObjectReference'', ''metav1.Duration'', ''metav1.TypeMeta'']"

text \<open>The documented behaviour of the Kubernetes packages: their copies are deep, and the
  types assigned here hold no references.\<close>
definition third_party_ok :: "third_party \<Rightarrow> bool" where
  "third_party_ok X = ((\<forall>t \<in> set copied_types. deep (ext_copy X t) (ext_shape X t))
     \<and> (\<forall>t \<in> set assigned_types. flat (ext_shape X t))
     \<and> deep (time_copy X) (SPtr (ext_shape X ''metav1.Time'')))"

lemma third_party_facts:
  assumes "third_party_ok X"
  shows "t \<in> set copied_types \<Longrightarrow> deep (ext_copy X t) (ext_shape X t)"
    and "t \<in> set assigned_types \<Longrightarrow> flat (ext_shape X t)"
    and "deep (time_copy X) (SPtr (ext_shape X ''metav1.Time''))"
  using assms by (auto simp: third_party_ok_def)

lemmas type_lists [simp] = copied_types_def assigned_types_def

text \<open>\<open>if c := in.DeepCopy(); c != nil { return c }; return nil\<close>.\<close>
definition as_object :: "copier \<Rightarrow> copier" where
  "as_object c v h = (case c v h of (w, h') \<Rightarrow> if w \<noteq> NilV then (w, h') else (NilV, h'))"

lemma deep_as_object [deep_rules]: "deep c s \<Longrightarrow> deep (as_object c) s"
  by (rule deepI) (auto simp: as_object_def dest: deepD split: prod.splits if_splits)

section \<open>The types and their copies\<close>

definition AnnotationDiscoveryConfig_shape :: "shape" where
  "AnnotationDiscoveryConfig_shape = SStruct [
     (''PodSelector'', SMap), (''ServiceSelector'', SMap), (''AnnotationPrefix'', SPrim),
     (''RequiredAnnotations'', SSlice SPrim)]"

definition AnnotationDiscoveryConfig_DeepCopyInto :: "copier" where
  "AnnotationDiscoveryConfig_DeepCopyInto = copy_into [
     (''PodSelector'', make_map), (''ServiceSelector'', make_map), (''RequiredAnnotations'', make_slice assign)]"

definition AnnotationDiscoveryConfig_DeepCopy :: "copier" where
  "AnnotationDiscoveryConfig_DeepCopy = new_copy AnnotationDiscoveryConfig_DeepCopyInto"

lemma deep_AnnotationDiscoveryConfig [deep_rules]: "deep AnnotationDiscoveryConfig_DeepCopyInto AnnotationDiscoveryConfig_shape"
  unfolding AnnotationDiscoveryConfig_DeepCopyInto_def AnnotationDiscoveryConfig_shape_def
  by (rule deep_into) (simp add: blocks_ok_def deep_rules)

definition ArgumentDenyRules_shape :: "shape" where
  "ArgumentDenyRules_shape = SStruct [
     (''SecretPatterns'', SSlice SPrim), (''MaxPayloadBytes'', SPrim)]"

definition ArgumentDenyRules_DeepCopyInto :: "copier" where
  "ArgumentDenyRules_DeepCopyInto = copy_into [
     (''SecretPatterns'', make_slice assign)]"

definition ArgumentDenyRules_DeepCopy :: "copier" where
  "ArgumentDenyRules_DeepCopy = new_copy ArgumentDenyRules_DeepCopyInto"

lemma deep_ArgumentDenyRules [deep_rules]: "deep ArgumentDenyRules_DeepCopyInto ArgumentDenyRules_shape"
  unfolding ArgumentDenyRules_DeepCopyInto_def ArgumentDenyRules_shape_def
  by (rule deep_into) (simp add: blocks_ok_def deep_rules)

definition ArgumentRules_shape :: "shape" where
  "ArgumentRules_shape = SStruct [
     (''Deny'', SPtr ArgumentDenyRules_shape)]"

definition ArgumentRules_DeepCopyInto :: "copier" where
  "ArgumentRules_DeepCopyInto = copy_into [
     (''Deny'', new_copy ArgumentDenyRules_DeepCopyInto)]"

definition ArgumentRules_DeepCopy :: "copier" where
  "ArgumentRules_DeepCopy = new_copy ArgumentRules_DeepCopyInto"

lemma deep_ArgumentRules [deep_rules]: "deep ArgumentRules_DeepCopyInto ArgumentRules_shape"
  unfolding ArgumentRules_DeepCopyInto_def ArgumentRules_shape_def
  by (rule deep_into) (simp add: blocks_ok_def deep_rules)

definition ConfigMapReference_shape :: "shape" where
  "ConfigMapReference_shape = SStruct [
     (''Name'', SPrim), (''Namespace'', SPrim), (''Key'', SPrim)]"

definition ConfigMapReference_DeepCopyInto :: "copier" where
  "ConfigMapReference_DeepCopyInto = copy_into []"

definition ConfigMapReference_DeepCopy :: "copier" where
  "ConfigMapReference_DeepCopy = new_copy ConfigMapReference_DeepCopyInto"

lemma flat_ConfigMapReference [deep_rules]: "flat ConfigMapReference_shape"
  by (simp add: ConfigMapReference_shape_def)

lemma deep_ConfigMapReference [deep_rules]: "deep ConfigMapReference_DeepCopyInto ConfigMapReference_shape"
  unfolding ConfigMapReference_DeepCopyInto_def ConfigMapReference_shape_def
  by (rule deep_into) (simp add: blocks_ok_def deep_rules)

definition DiscoveredMCPServer_shape :: "third_party \<Rightarrow> shape" where
  "DiscoveredMCPServer_shape X = SStruct [
     (''Name'', SPrim), (''Source'', SPrim), (''DiscoveredAt'', ext_shape X ''metav1.Time''), (''Managed'', SPrim),
     (''Error'', SPrim)]"

definition DiscoveredMCPServer_DeepCopyInto :: "third_party \<Rightarrow> copier" where
  "DiscoveredMCPServer_DeepCopyInto X = copy_into [
     (''DiscoveredAt'', ext_copy X ''metav1.Time'')]"

definition DiscoveredMCPServer_DeepCopy :: "third_party \<Rightarrow> copier" where
  "DiscoveredMCPServer_DeepCopy X = new_copy (DiscoveredMCPServer_DeepCopyInto X)"

lemma deep_DiscoveredMCPServer [deep_rules]: "third_party_ok X \<Longrightarrow> deep (DiscoveredMCPServer_DeepCopyInto X) (DiscoveredMCPServer_shape X)"
  unfolding DiscoveredMCPServer_DeepCopyInto_def DiscoveredMCPServer_shape_def
  by (rule deep_into) (simp add: blocks_ok_def deep_rules third_party_facts)

definition DiscoveryFilters_shape :: "shape" where
  "DiscoveryFilters_shape = SStruct [
     (''IncludePatterns'', SSlice SPrim), (''ExcludePatterns'', SSlice SPrim), (''MaxProviders'', SPtr SPrim)]"

definition DiscoveryFilters_DeepCopyInto :: "copier" where
  "DiscoveryFilters_DeepCopyInto = copy_into [
     (''IncludePatterns'', make_slice assign), (''ExcludePatterns'', make_slice assign),
     (''MaxProviders'', new_copy assign)]"

definition DiscoveryFilters_DeepCopy :: "copier" where
  "DiscoveryFilters_DeepCopy = new_copy DiscoveryFilters_DeepCopyInto"

lemma deep_DiscoveryFilters [deep_rules]: "deep DiscoveryFilters_DeepCopyInto DiscoveryFilters_shape"
  unfolding DiscoveryFilters_DeepCopyInto_def DiscoveryFilters_shape_def
  by (rule deep_into) (simp add: blocks_ok_def deep_rules)

definition EgressRuleSpec_shape :: "shape" where
  "EgressRuleSpec_shape = SStruct [
     (''Host'', SPrim), (''Port'', SPrim), (''Protocol'', SPrim), (''CIDR'', SPrim)]"

definition EgressRuleSpec_DeepCopyInto :: "copier" where
  "EgressRuleSpec_DeepCopyInto = copy_into []"

definition EgressRuleSpec_DeepCopy :: "copier" where
  "EgressRuleSpec_DeepCopy = new_copy EgressRuleSpec_DeepCopyInto"

lemma flat_EgressRuleSpec [deep_rules]: "flat EgressRuleSpec_shape"
  by (simp add: EgressRuleSpec_shape_def)

lemma deep_EgressRuleSpec [deep_rules]: "deep EgressRuleSpec_DeepCopyInto EgressRuleSpec_shape"
  unfolding EgressRuleSpec_DeepCopyInto_def EgressRuleSpec_shape_def
  by (rule deep_into) (simp add: blocks_ok_def deep_rules)

definition EgressTargetRef_shape :: "shape" where
  "EgressTargetRef_shape = SStruct [
     (''Kind'', SPrim), (''Name'', SPrim)]"

definition EgressTargetRef_DeepCopyInto :: "copier" where
  "EgressTargetRef_DeepCopyInto = copy_into []"

definition EgressTargetRef_DeepCopy :: "copier" where
  "EgressTargetRef_DeepCopy = new_copy EgressTargetRef_DeepCopyInto"

lemma flat_EgressTargetRef [deep_rules]: "flat EgressTargetRef_shape"
  by (simp add: EgressTargetRef_shape_def)

lemma deep_EgressTargetRef [deep_rules]: "deep EgressTargetRef_DeepCopyInto EgressTargetRef_shape"
  unfolding EgressTargetRef_DeepCopyInto_def EgressTargetRef_shape_def
  by (rule deep_into) (simp add: blocks_ok_def deep_rules)

definition HeaderMatch_shape :: "shape" where
  "HeaderMatch_shape = SStruct [
     (''Name'', SPrim), (''Values'', SSlice SPrim)]"

definition HeaderMatch_DeepCopyInto :: "copier" where
  "HeaderMatch_DeepCopyInto = copy_into [
     (''Values'', make_slice assign)]"

definition HeaderMatch_DeepCopy :: "copier" where
  "HeaderMatch_DeepCopy = new_copy HeaderMatch_DeepCopyInto"

lemma deep_HeaderMatch [deep_rules]: "deep HeaderMatch_DeepCopyInto HeaderMatch_shape"
  unfolding HeaderMatch_DeepCopyInto_def HeaderMatch_shape_def
  by (rule deep_into) (simp add: blocks_ok_def deep_rules)

definition HeaderRules_shape :: "shape" where
  "HeaderRules_shape = SStruct [
     (''Allow'', SSlice HeaderMatch_shape), (''Deny'', SSlice HeaderMatch_shape),
     (''RequireApproval'', SSlice HeaderMatch_shape)]"

definition HeaderRules_DeepCopyInto :: "copier" where
  "HeaderRules_DeepCopyInto = copy_into [
     (''Allow'', make_slice HeaderMatch_DeepCopyInto), (''Deny'', make_slice HeaderMatch_DeepCopyInto),
     (''RequireApproval'', make_slice HeaderMatch_DeepCopyInto)]"

definition HeaderRules_DeepCopy :: "copier" where
  "HeaderRules_DeepCopy = new_copy HeaderRules_DeepCopyInto"

lemma deep_HeaderRules [deep_rules]: "deep HeaderRules_DeepCopyInto HeaderRules_shape"
  unfolding HeaderRules_DeepCopyInto_def HeaderRules_shape_def
  by (rule deep_into) (simp add: blocks_ok_def deep_rules)

definition HealthPolicy_shape :: "shape" where
  "HealthPolicy_shape = SStruct [
     (''MinHealthyPercentage'', SPrim), (''MinHealthyCount'', SPtr SPrim), (''UnhealthyThreshold'', SPrim)]"

definition HealthPolicy_DeepCopyInto :: "copier" where
  "HealthPolicy_DeepCopyInto = copy_into [
     (''MinHealthyCount'', new_copy assign)]"

definition HealthPolicy_DeepCopy :: "copier" where
  "HealthPolicy_DeepCopy = new_copy HealthPolicy_DeepCopyInto"

lemma deep_HealthPolicy [deep_rules]: "deep HealthPolicy_DeepCopyInto HealthPolicy_shape"
  unfolding HealthPolicy_DeepCopyInto_def HealthPolicy_shape_def
  by (rule deep_into) (simp add: blocks_ok_def deep_rules)

definition InitDataDigests_shape :: "shape" where
  "InitDataDigests_shape = SStruct [
     (''SHA256'', SPrim), (''SHA384'', SPrim), (''SHA512'', SPrim)]"

definition InitDataDigests_DeepCopyInto :: "copier" where
  "InitDataDigests_DeepCopyInto = copy_into []"

definition InitDataDigests_DeepCopy :: "copier" where
  "InitDataDigests_DeepCopy = new_copy InitDataDigests_DeepCopyInto"

lemma flat_InitDataDigests [deep_rules]: "flat InitDataDigests_shape"
  by (simp add: InitDataDigests_shape_def)

lemma deep_InitDataDigests [deep_rules]: "deep InitDataDigests_DeepCopyInto InitDataDigests_shape"
  unfolding InitDataDigests_DeepCopyInto_def InitDataDigests_shape_def
  by (rule deep_into) (simp add: blocks_ok_def deep_rules)

definition NamespaceSelectorConfig_shape :: "third_party \<Rightarrow> shape" where
  "NamespaceSelectorConfig_shape X = SStruct [
     (''MatchLabels'', SMap), (''MatchExpressions'', SSlice (ext_shape X ''metav1.LabelSelectorRequirement'')),
     (''ExcludeNamespaces'', SSlice SPrim)]"

definition NamespaceSelectorConfig_DeepCopyInto :: "third_party \<Rightarrow> copier" where
  "NamespaceSelectorConfig_DeepCopyInto X = copy_into [
     (''MatchLabels'', make_map),
     (''MatchExpressions'', make_slice (ext_copy X ''metav1.LabelSelectorRequirement'')),
     (''ExcludeNamespaces'', make_slice assign)]"

definition NamespaceSelectorConfig_DeepCopy :: "third_party \<Rightarrow> copier" where
  "NamespaceSelectorConfig_DeepCopy X = new_copy (NamespaceSelectorConfig_DeepCopyInto X)"

lemma deep_NamespaceSelectorConfig [deep_rules]: "third_party_ok X \<Longrightarrow> deep (NamespaceSelectorConfig_DeepCopyInto X) (NamespaceSelectorConfig_shape X)"
  unfolding NamespaceSelectorConfig_DeepCopyInto_def NamespaceSelectorConfig_shape_def
  by (rule deep_into) (simp add: blocks_ok_def deep_rules third_party_facts)

definition ServiceDiscoveryConfig_shape :: "shape" where
  "ServiceDiscoveryConfig_shape = SStruct [
     (''Selector'', SMap), (''PortName'', SPrim), (''Protocol'', SPrim)]"

definition ServiceDiscoveryConfig_DeepCopyInto :: "copier" where
  "ServiceDiscoveryConfig_DeepCopyInto = copy_into [
     (''Selector'', make_map)]"

definition ServiceDiscoveryConfig_DeepCopy :: "copier" where
  "ServiceDiscoveryConfig_DeepCopy = new_copy ServiceDiscoveryConfig_DeepCopyInto"

lemma deep_ServiceDiscoveryConfig [deep_rules]: "deep ServiceDiscoveryConfig_DeepCopyInto ServiceDiscoveryConfig_shape"
  unfolding ServiceDiscoveryConfig_DeepCopyInto_def ServiceDiscoveryConfig_shape_def
  by (rule deep_into) (simp add: blocks_ok_def deep_rules)

definition TemplateMetadata_shape :: "shape" where
  "TemplateMetadata_shape = SStruct [
     (''Labels'', SMap), (''Annotations'', SMap)]"

definition TemplateMetadata_DeepCopyInto :: "copier" where
  "TemplateMetadata_DeepCopyInto = copy_into [
     (''Labels'', make_map), (''Annotations'', make_map)]"

definition TemplateMetadata_DeepCopy :: "copier" where
  "TemplateMetadata_DeepCopy = new_copy TemplateMetadata_DeepCopyInto"

lemma deep_TemplateMetadata [deep_rules]: "deep TemplateMetadata_DeepCopyInto TemplateMetadata_shape"
  unfolding TemplateMetadata_DeepCopyInto_def TemplateMetadata_shape_def
  by (rule deep_into) (simp add: blocks_ok_def deep_rules)

definition PeerIdentity_shape :: "shape" where
  "PeerIdentity_shape = SStruct [
     (''KeyRef'', SPrim), (''SPKISHA256'', SSlice SPrim), (''Issuance'', SPrim)]"

definition PeerIdentity_DeepCopyInto :: "copier" where
  "PeerIdentity_DeepCopyInto = copy_into [
     (''SPKISHA256'', make_slice assign)]"

definition PeerIdentity_DeepCopy :: "copier" where
  "PeerIdentity_DeepCopy = new_copy PeerIdentity_DeepCopyInto"

lemma deep_PeerIdentity [deep_rules]: "deep PeerIdentity_DeepCopyInto PeerIdentity_shape"
  unfolding PeerIdentity_DeepCopyInto_def PeerIdentity_shape_def
  by (rule deep_into) (simp add: blocks_ok_def deep_rules)

definition MCPServerTLS_shape :: "third_party \<Rightarrow> shape" where
  "MCPServerTLS_shape X = SStruct [
     (''PeerIdentity'', SPtr PeerIdentity_shape), (''MaxConnectionAge'', SPtr (ext_shape X ''metav1.Duration''))]"

definition MCPServerTLS_DeepCopyInto :: "third_party \<Rightarrow> copier" where
  "MCPServerTLS_DeepCopyInto X = copy_into [
     (''PeerIdentity'', new_copy PeerIdentity_DeepCopyInto), (''MaxConnectionAge'', new_copy assign)]"

definition MCPServerTLS_DeepCopy :: "third_party \<Rightarrow> copier" where
  "MCPServerTLS_DeepCopy X = new_copy (MCPServerTLS_DeepCopyInto X)"

lemma deep_MCPServerTLS [deep_rules]: "third_party_ok X \<Longrightarrow> deep (MCPServerTLS_DeepCopyInto X) (MCPServerTLS_shape X)"
  unfolding MCPServerTLS_DeepCopyInto_def MCPServerTLS_shape_def
  by (rule deep_into) (simp add: blocks_ok_def deep_rules third_party_facts)

definition NetworkCapabilitiesSpec_shape :: "shape" where
  "NetworkCapabilitiesSpec_shape = SStruct [
     (''Egress'', SSlice EgressRuleSpec_shape), (''DNSAllowed'', SPtr SPrim), (''LoopbackAllowed'', SPtr SPrim)]"

definition NetworkCapabilitiesSpec_DeepCopyInto :: "copier" where
  "NetworkCapabilitiesSpec_DeepCopyInto = copy_into [
     (''Egress'', make_slice assign), (''DNSAllowed'', new_copy assign), (''LoopbackAllowed'', new_copy assign)]"

definition NetworkCapabilitiesSpec_DeepCopy :: "copier" where
  "NetworkCapabilitiesSpec_DeepCopy = new_copy NetworkCapabilitiesSpec_DeepCopyInto"

lemma deep_NetworkCapabilitiesSpec [deep_rules]: "deep NetworkCapabilitiesSpec_DeepCopyInto NetworkCapabilitiesSpec_shape"
  unfolding NetworkCapabilitiesSpec_DeepCopyInto_def NetworkCapabilitiesSpec_shape_def
  by (rule deep_into) (simp add: blocks_ok_def deep_rules)

definition ToolCapabilitiesSpec_shape :: "shape" where
  "ToolCapabilitiesSpec_shape = SStruct [
     (''MaxCount'', SPrim), (''SchemaDriftAlert'', SPtr SPrim), (''ExpectedTools'', SSlice SPrim)]"

definition ToolCapabilitiesSpec_DeepCopyInto :: "copier" where
  "ToolCapabilitiesSpec_DeepCopyInto = copy_into [
     (''SchemaDriftAlert'', new_copy assign), (''ExpectedTools'', make_slice assign)]"

definition ToolCapabilitiesSpec_DeepCopy :: "copier" where
  "ToolCapabilitiesSpec_DeepCopy = new_copy ToolCapabilitiesSpec_DeepCopyInto"

lemma deep_ToolCapabilitiesSpec [deep_rules]: "deep ToolCapabilitiesSpec_DeepCopyInto ToolCapabilitiesSpec_shape"
  unfolding ToolCapabilitiesSpec_DeepCopyInto_def ToolCapabilitiesSpec_shape_def
  by (rule deep_into) (simp add: blocks_ok_def deep_rules)

definition MCPServerCapabilities_shape :: "shape" where
  "MCPServerCapabilities_shape = SStruct [
     (''Network'', SPtr NetworkCapabilitiesSpec_shape), (''Tools'', SPtr ToolCapabilitiesSpec_shape),
     (''EnforcementMode'', SPrim)]"

definition MCPServerCapabilities_DeepCopyInto :: "copier" where
  "MCPServerCapabilities_DeepCopyInto = copy_into [
     (''Network'', new_copy NetworkCapabilitiesSpec_DeepCopyInto),
     (''Tools'', new_copy ToolCapabilitiesSpec_DeepCopyInto)]"

definition MCPServerCapabilities_DeepCopy :: "copier" where
  "MCPServerCapabilities_DeepCopy = new_copy MCPServerCapabilities_DeepCopyInto"

lemma deep_MCPServerCapabilities [deep_rules]: "deep MCPServerCapabilities_DeepCopyInto MCPServerCapabilities_shape"
  unfolding MCPServerCapabilities_DeepCopyInto_def MCPServerCapabilities_shape_def
  by (rule deep_into) (simp add: blocks_ok_def deep_rules)

definition MCPServerSpec_shape :: "third_party \<Rightarrow> shape" where
  "MCPServerSpec_shape X = SStruct [
     (''Mode'', SPrim), (''Image'', SPrim), (''Command'', SSlice SPrim), (''Args'', SSlice SPrim),
     (''WorkingDir'', SPrim), (''Endpoint'', SPrim), (''HealthPath'', SPrim), (''TLS'', SPtr (MCPServerTLS_shape X)),
     (''Replicas'', SPtr SPrim), (''StartupTimeout'', SPtr (ext_shape X ''metav1.Duration'')),
     (''ShutdownGracePeriod'', SPtr (ext_shape X ''metav1.Duration'')),
     (''Resources'', SPtr (ext_shape X ''corev1.ResourceRequirements'')),
     (''Env'', SSlice (ext_shape X ''corev1.EnvVar'')), (''Volumes'', SSlice (ext_shape X ''corev1.Volume'')),
     (''VolumeMounts'', SSlice (ext_shape X ''corev1.VolumeMount'')),
     (''PodSecurityContext'', SPtr (ext_shape X ''corev1.PodSecurityContext'')),
     (''ContainerSecurityContext'', SPtr (ext_shape X ''corev1.SecurityContext'')), (''ServiceAccountName'', SPrim),
     (''AutomountServiceAccountToken'', SPtr SPrim),
     (''ImagePullSecrets'', SSlice (ext_shape X ''corev1.LocalObjectReference'')), (''NodeSelector'', SMap),
     (''Tolerations'', SSlice (ext_shape X ''corev1.Toleration'')),
     (''Affinity'', SPtr (ext_shape X ''corev1.Affinity'')), (''PriorityClassName'', SPrim),
     (''RuntimeClassName'', SPtr SPrim), (''InitData'', SPrim), (''Capabilities'', SPtr MCPServerCapabilities_shape)]"

definition MCPServerSpec_DeepCopyInto :: "third_party \<Rightarrow> copier" where
  "MCPServerSpec_DeepCopyInto X = copy_into [
     (''Command'', make_slice assign), (''Args'', make_slice assign),
     (''TLS'', new_copy (MCPServerTLS_DeepCopyInto X)), (''Replicas'', new_copy assign),
     (''StartupTimeout'', new_copy assign), (''ShutdownGracePeriod'', new_copy assign),
     (''Resources'', new_copy (ext_copy X ''corev1.ResourceRequirements'')),
     (''Env'', make_slice (ext_copy X ''corev1.EnvVar'')), (''Volumes'', make_slice (ext_copy X ''corev1.Volume'')),
     (''VolumeMounts'', make_slice (ext_copy X ''corev1.VolumeMount'')),
     (''PodSecurityContext'', new_copy (ext_copy X ''corev1.PodSecurityContext'')),
     (''ContainerSecurityContext'', new_copy (ext_copy X ''corev1.SecurityContext'')),
     (''AutomountServiceAccountToken'', new_copy assign), (''ImagePullSecrets'', make_slice assign),
     (''NodeSelector'', make_map), (''Tolerations'', make_slice (ext_copy X ''corev1.Toleration'')),
     (''Affinity'', new_copy (ext_copy X ''corev1.Affinity'')), (''RuntimeClassName'', new_copy assign),
     (''Capabilities'', new_copy MCPServerCapabilities_DeepCopyInto)]"

definition MCPServerSpec_DeepCopy :: "third_party \<Rightarrow> copier" where
  "MCPServerSpec_DeepCopy X = new_copy (MCPServerSpec_DeepCopyInto X)"

lemma deep_MCPServerSpec [deep_rules]: "third_party_ok X \<Longrightarrow> deep (MCPServerSpec_DeepCopyInto X) (MCPServerSpec_shape X)"
  unfolding MCPServerSpec_DeepCopyInto_def MCPServerSpec_shape_def
  by (rule deep_into) (simp add: blocks_ok_def deep_rules third_party_facts)

definition MCPServerTemplateConfig_shape :: "third_party \<Rightarrow> shape" where
  "MCPServerTemplateConfig_shape X = SStruct [
     (''Metadata'', SPtr TemplateMetadata_shape), (''Spec'', SPtr (MCPServerSpec_shape X))]"

definition MCPServerTemplateConfig_DeepCopyInto :: "third_party \<Rightarrow> copier" where
  "MCPServerTemplateConfig_DeepCopyInto X = copy_into [
     (''Metadata'', new_copy TemplateMetadata_DeepCopyInto), (''Spec'', new_copy (MCPServerSpec_DeepCopyInto X))]"

definition MCPServerTemplateConfig_DeepCopy :: "third_party \<Rightarrow> copier" where
  "MCPServerTemplateConfig_DeepCopy X = new_copy (MCPServerTemplateConfig_DeepCopyInto X)"

lemma deep_MCPServerTemplateConfig [deep_rules]: "third_party_ok X \<Longrightarrow> deep (MCPServerTemplateConfig_DeepCopyInto X) (MCPServerTemplateConfig_shape X)"
  unfolding MCPServerTemplateConfig_DeepCopyInto_def MCPServerTemplateConfig_shape_def
  by (rule deep_into) (simp add: blocks_ok_def deep_rules third_party_facts)

definition OwnershipConfig_shape :: "shape" where
  "OwnershipConfig_shape = SStruct [
     (''Controller'', SPtr SPrim), (''BlockDeletion'', SPrim)]"

definition OwnershipConfig_DeepCopyInto :: "copier" where
  "OwnershipConfig_DeepCopyInto = copy_into [
     (''Controller'', new_copy assign)]"

definition OwnershipConfig_DeepCopy :: "copier" where
  "OwnershipConfig_DeepCopy = new_copy OwnershipConfig_DeepCopyInto"

lemma deep_OwnershipConfig [deep_rules]: "deep OwnershipConfig_DeepCopyInto OwnershipConfig_shape"
  unfolding OwnershipConfig_DeepCopyInto_def OwnershipConfig_shape_def
  by (rule deep_into) (simp add: blocks_ok_def deep_rules)

definition MCPDiscoverySourceSpec_shape :: "third_party \<Rightarrow> shape" where
  "MCPDiscoverySourceSpec_shape X = SStruct [
     (''Type'', SPrim), (''Mode'', SPrim), (''RefreshInterval'', SPtr (ext_shape X ''metav1.Duration'')),
     (''Paused'', SPrim), (''NamespaceSelector'', SPtr (NamespaceSelectorConfig_shape X)),
     (''ConfigMapRef'', SPtr ConfigMapReference_shape), (''Annotations'', SPtr AnnotationDiscoveryConfig_shape),
     (''ServiceDiscovery'', SPtr ServiceDiscoveryConfig_shape),
     (''MCPServerTemplate'', SPtr (MCPServerTemplateConfig_shape X)), (''Filters'', SPtr DiscoveryFilters_shape),
     (''Ownership'', SPtr OwnershipConfig_shape)]"

definition MCPDiscoverySourceSpec_DeepCopyInto :: "third_party \<Rightarrow> copier" where
  "MCPDiscoverySourceSpec_DeepCopyInto X = copy_into [
     (''RefreshInterval'', new_copy assign),
     (''NamespaceSelector'', new_copy (NamespaceSelectorConfig_DeepCopyInto X)), (''ConfigMapRef'', new_copy assign),
     (''Annotations'', new_copy AnnotationDiscoveryConfig_DeepCopyInto),
     (''ServiceDiscovery'', new_copy ServiceDiscoveryConfig_DeepCopyInto),
     (''MCPServerTemplate'', new_copy (MCPServerTemplateConfig_DeepCopyInto X)),
     (''Filters'', new_copy DiscoveryFilters_DeepCopyInto), (''Ownership'', new_copy OwnershipConfig_DeepCopyInto)]"

definition MCPDiscoverySourceSpec_DeepCopy :: "third_party \<Rightarrow> copier" where
  "MCPDiscoverySourceSpec_DeepCopy X = new_copy (MCPDiscoverySourceSpec_DeepCopyInto X)"

lemma deep_MCPDiscoverySourceSpec [deep_rules]: "third_party_ok X \<Longrightarrow> deep (MCPDiscoverySourceSpec_DeepCopyInto X) (MCPDiscoverySourceSpec_shape X)"
  unfolding MCPDiscoverySourceSpec_DeepCopyInto_def MCPDiscoverySourceSpec_shape_def
  by (rule deep_into) (simp add: blocks_ok_def deep_rules third_party_facts)

definition MCPDiscoverySourceStatus_shape :: "third_party \<Rightarrow> shape" where
  "MCPDiscoverySourceStatus_shape X = SStruct [
     (''DiscoveredCount'', SPrim), (''ManagedCount'', SPrim), (''LastSyncTime'', SPtr (ext_shape X ''metav1.Time'')),
     (''LastSyncDuration'', SPtr (ext_shape X ''metav1.Duration'')), (''LastSyncError'', SPrim),
     (''NextSyncTime'', SPtr (ext_shape X ''metav1.Time'')),
     (''DiscoveredMCPServers'', SSlice (DiscoveredMCPServer_shape X)), (''ObservedGeneration'', SPrim),
     (''Conditions'', SSlice (ext_shape X ''metav1.Condition''))]"

definition MCPDiscoverySourceStatus_DeepCopyInto :: "third_party \<Rightarrow> copier" where
  "MCPDiscoverySourceStatus_DeepCopyInto X = copy_into [
     (''LastSyncTime'', time_copy X), (''LastSyncDuration'', new_copy assign), (''NextSyncTime'', time_copy X),
     (''DiscoveredMCPServers'', make_slice (DiscoveredMCPServer_DeepCopyInto X)),
     (''Conditions'', make_slice (ext_copy X ''metav1.Condition''))]"

definition MCPDiscoverySourceStatus_DeepCopy :: "third_party \<Rightarrow> copier" where
  "MCPDiscoverySourceStatus_DeepCopy X = new_copy (MCPDiscoverySourceStatus_DeepCopyInto X)"

lemma deep_MCPDiscoverySourceStatus [deep_rules]: "third_party_ok X \<Longrightarrow> deep (MCPDiscoverySourceStatus_DeepCopyInto X) (MCPDiscoverySourceStatus_shape X)"
  unfolding MCPDiscoverySourceStatus_DeepCopyInto_def MCPDiscoverySourceStatus_shape_def
  by (rule deep_into) (simp add: blocks_ok_def deep_rules third_party_facts)

definition MCPDiscoverySource_shape :: "third_party \<Rightarrow> shape" where
  "MCPDiscoverySource_shape X = SStruct [
     (''TypeMeta'', ext_shape X ''metav1.TypeMeta''), (''ObjectMeta'', ext_shape X ''metav1.ObjectMeta''),
     (''Spec'', MCPDiscoverySourceSpec_shape X), (''Status'', MCPDiscoverySourceStatus_shape X)]"

definition MCPDiscoverySource_DeepCopyInto :: "third_party \<Rightarrow> copier" where
  "MCPDiscoverySource_DeepCopyInto X = copy_into [
     (''TypeMeta'', assign), (''ObjectMeta'', ext_copy X ''metav1.ObjectMeta''),
     (''Spec'', MCPDiscoverySourceSpec_DeepCopyInto X), (''Status'', MCPDiscoverySourceStatus_DeepCopyInto X)]"

definition MCPDiscoverySource_DeepCopy :: "third_party \<Rightarrow> copier" where
  "MCPDiscoverySource_DeepCopy X = new_copy (MCPDiscoverySource_DeepCopyInto X)"

definition MCPDiscoverySource_DeepCopyObject :: "third_party \<Rightarrow> copier" where
  "MCPDiscoverySource_DeepCopyObject X = as_object (MCPDiscoverySource_DeepCopy X)"

lemma deep_MCPDiscoverySource [deep_rules]: "third_party_ok X \<Longrightarrow> deep (MCPDiscoverySource_DeepCopyInto X) (MCPDiscoverySource_shape X)"
  unfolding MCPDiscoverySource_DeepCopyInto_def MCPDiscoverySource_shape_def
  by (rule deep_into) (simp add: blocks_ok_def deep_rules third_party_facts)

definition MCPDiscoverySourceList_shape :: "third_party \<Rightarrow> shape" where
  "MCPDiscoverySourceList_shape X = SStruct [
     (''TypeMeta'', ext_shape X ''metav1.TypeMeta''), (''ListMeta'', ext_shape X ''metav1.ListMeta''),
     (''Items'', SSlice (MCPDiscoverySource_shape X))]"

definition MCPDiscoverySourceList_DeepCopyInto :: "third_party \<Rightarrow> copier" where
  "MCPDiscoverySourceList_DeepCopyInto X = copy_into [
     (''TypeMeta'', assign), (''ListMeta'', ext_copy X ''metav1.ListMeta''),
     (''Items'', make_slice (MCPDiscoverySource_DeepCopyInto X))]"

definition MCPDiscoverySourceList_DeepCopy :: "third_party \<Rightarrow> copier" where
  "MCPDiscoverySourceList_DeepCopy X = new_copy (MCPDiscoverySourceList_DeepCopyInto X)"

definition MCPDiscoverySourceList_DeepCopyObject :: "third_party \<Rightarrow> copier" where
  "MCPDiscoverySourceList_DeepCopyObject X = as_object (MCPDiscoverySourceList_DeepCopy X)"

lemma deep_MCPDiscoverySourceList [deep_rules]: "third_party_ok X \<Longrightarrow> deep (MCPDiscoverySourceList_DeepCopyInto X) (MCPDiscoverySourceList_shape X)"
  unfolding MCPDiscoverySourceList_DeepCopyInto_def MCPDiscoverySourceList_shape_def
  by (rule deep_into) (simp add: blocks_ok_def deep_rules third_party_facts)

definition UpstreamMatch_shape :: "shape" where
  "UpstreamMatch_shape = SStruct [
     (''Host'', SPrim), (''ToolSchemaDigestRef'', SPrim), (''ImageDigest'', SPrim), (''Issuers'', SSlice SPrim)]"

definition UpstreamMatch_DeepCopyInto :: "copier" where
  "UpstreamMatch_DeepCopyInto = copy_into [
     (''Issuers'', make_slice assign)]"

definition UpstreamMatch_DeepCopy :: "copier" where
  "UpstreamMatch_DeepCopy = new_copy UpstreamMatch_DeepCopyInto"

lemma deep_UpstreamMatch [deep_rules]: "deep UpstreamMatch_DeepCopyInto UpstreamMatch_shape"
  unfolding UpstreamMatch_DeepCopyInto_def UpstreamMatch_shape_def
  by (rule deep_into) (simp add: blocks_ok_def deep_rules)

definition ToolRules_shape :: "shape" where
  "ToolRules_shape = SStruct [
     (''Allow'', SSlice SPrim), (''Deny'', SSlice SPrim), (''RequireApproval'', SSlice SPrim)]"

definition ToolRules_DeepCopyInto :: "copier" where
  "ToolRules_DeepCopyInto = copy_into [
     (''Allow'', make_slice assign), (''Deny'', make_slice assign), (''RequireApproval'', make_slice assign)]"

definition ToolRules_DeepCopy :: "copier" where
  "ToolRules_DeepCopy = new_copy ToolRules_DeepCopyInto"

lemma deep_ToolRules [deep_rules]: "deep ToolRules_DeepCopyInto ToolRules_shape"
  unfolding ToolRules_DeepCopyInto_def ToolRules_shape_def
  by (rule deep_into) (simp add: blocks_ok_def deep_rules)

definition UpstreamRule_shape :: "shape" where
  "UpstreamRule_shape = SStruct [
     (''Name'', SPrim), (''Match'', UpstreamMatch_shape), (''Tools'', SPtr ToolRules_shape),
     (''Arguments'', SPtr ArgumentRules_shape), (''Headers'', SPtr HeaderRules_shape)]"

definition UpstreamRule_DeepCopyInto :: "copier" where
  "UpstreamRule_DeepCopyInto = copy_into [
     (''Match'', UpstreamMatch_DeepCopyInto), (''Tools'', new_copy ToolRules_DeepCopyInto),
     (''Arguments'', new_copy ArgumentRules_DeepCopyInto), (''Headers'', new_copy HeaderRules_DeepCopyInto)]"

definition UpstreamRule_DeepCopy :: "copier" where
  "UpstreamRule_DeepCopy = new_copy UpstreamRule_DeepCopyInto"

lemma deep_UpstreamRule [deep_rules]: "deep UpstreamRule_DeepCopyInto UpstreamRule_shape"
  unfolding UpstreamRule_DeepCopyInto_def UpstreamRule_shape_def
  by (rule deep_into) (simp add: blocks_ok_def deep_rules)

definition NetworkBackstop_shape :: "shape" where
  "NetworkBackstop_shape = SStruct [
     (''Generate'', SPrim), (''Flavor'', SPrim)]"

definition NetworkBackstop_DeepCopyInto :: "copier" where
  "NetworkBackstop_DeepCopyInto = copy_into []"

definition NetworkBackstop_DeepCopy :: "copier" where
  "NetworkBackstop_DeepCopy = new_copy NetworkBackstop_DeepCopyInto"

lemma flat_NetworkBackstop [deep_rules]: "flat NetworkBackstop_shape"
  by (simp add: NetworkBackstop_shape_def)

lemma deep_NetworkBackstop [deep_rules]: "deep NetworkBackstop_DeepCopyInto NetworkBackstop_shape"
  unfolding NetworkBackstop_DeepCopyInto_def NetworkBackstop_shape_def
  by (rule deep_into) (simp add: blocks_ok_def deep_rules)

definition MCPEgressPolicySpec_shape :: "shape" where
  "MCPEgressPolicySpec_shape = SStruct [
     (''Mode'', SPrim), (''TargetRef'', EgressTargetRef_shape), (''DefaultAction'', SPrim),
     (''Upstreams'', SSlice UpstreamRule_shape), (''NetworkBackstop'', SPtr NetworkBackstop_shape)]"

definition MCPEgressPolicySpec_DeepCopyInto :: "copier" where
  "MCPEgressPolicySpec_DeepCopyInto = copy_into [
     (''TargetRef'', assign), (''Upstreams'', make_slice UpstreamRule_DeepCopyInto),
     (''NetworkBackstop'', new_copy assign)]"

definition MCPEgressPolicySpec_DeepCopy :: "copier" where
  "MCPEgressPolicySpec_DeepCopy = new_copy MCPEgressPolicySpec_DeepCopyInto"

lemma deep_MCPEgressPolicySpec [deep_rules]: "deep MCPEgressPolicySpec_DeepCopyInto MCPEgressPolicySpec_shape"
  unfolding MCPEgressPolicySpec_DeepCopyInto_def MCPEgressPolicySpec_shape_def
  by (rule deep_into) (simp add: blocks_ok_def deep_rules)

definition MCPEgressPolicyStatus_shape :: "third_party \<Rightarrow> shape" where
  "MCPEgressPolicyStatus_shape X = SStruct [
     (''ObservedGeneration'', SPrim), (''BackstopEnforcement'', SPrim),
     (''Conditions'', SSlice (ext_shape X ''metav1.Condition''))]"

definition MCPEgressPolicyStatus_DeepCopyInto :: "third_party \<Rightarrow> copier" where
  "MCPEgressPolicyStatus_DeepCopyInto X = copy_into [
     (''Conditions'', make_slice (ext_copy X ''metav1.Condition''))]"

definition MCPEgressPolicyStatus_DeepCopy :: "third_party \<Rightarrow> copier" where
  "MCPEgressPolicyStatus_DeepCopy X = new_copy (MCPEgressPolicyStatus_DeepCopyInto X)"

lemma deep_MCPEgressPolicyStatus [deep_rules]: "third_party_ok X \<Longrightarrow> deep (MCPEgressPolicyStatus_DeepCopyInto X) (MCPEgressPolicyStatus_shape X)"
  unfolding MCPEgressPolicyStatus_DeepCopyInto_def MCPEgressPolicyStatus_shape_def
  by (rule deep_into) (simp add: blocks_ok_def deep_rules third_party_facts)

definition MCPEgressPolicy_shape :: "third_party \<Rightarrow> shape" where
  "MCPEgressPolicy_shape X = SStruct [
     (''TypeMeta'', ext_shape X ''metav1.TypeMeta''), (''ObjectMeta'', ext_shape X ''metav1.ObjectMeta''),
     (''Spec'', MCPEgressPolicySpec_shape), (''Status'', MCPEgressPolicyStatus_shape X)]"

definition MCPEgressPolicy_DeepCopyInto :: "third_party \<Rightarrow> copier" where
  "MCPEgressPolicy_DeepCopyInto X = copy_into [
     (''TypeMeta'', assign), (''ObjectMeta'', ext_copy X ''metav1.ObjectMeta''),
     (''Spec'', MCPEgressPolicySpec_DeepCopyInto), (''Status'', MCPEgressPolicyStatus_DeepCopyInto X)]"

definition MCPEgressPolicy_DeepCopy :: "third_party \<Rightarrow> copier" where
  "MCPEgressPolicy_DeepCopy X = new_copy (MCPEgressPolicy_DeepCopyInto X)"

definition MCPEgressPolicy_DeepCopyObject :: "third_party \<Rightarrow> copier" where
  "MCPEgressPolicy_DeepCopyObject X = as_object (MCPEgressPolicy_DeepCopy X)"

lemma deep_MCPEgressPolicy [deep_rules]: "third_party_ok X \<Longrightarrow> deep (MCPEgressPolicy_DeepCopyInto X) (MCPEgressPolicy_shape X)"
  unfolding MCPEgressPolicy_DeepCopyInto_def MCPEgressPolicy_shape_def
  by (rule deep_into) (simp add: blocks_ok_def deep_rules third_party_facts)

definition MCPEgressPolicyList_shape :: "third_party \<Rightarrow> shape" where
  "MCPEgressPolicyList_shape X = SStruct [
     (''TypeMeta'', ext_shape X ''metav1.TypeMeta''), (''ListMeta'', ext_shape X ''metav1.ListMeta''),
     (''Items'', SSlice (MCPEgressPolicy_shape X))]"

definition MCPEgressPolicyList_DeepCopyInto :: "third_party \<Rightarrow> copier" where
  "MCPEgressPolicyList_DeepCopyInto X = copy_into [
     (''TypeMeta'', assign), (''ListMeta'', ext_copy X ''metav1.ListMeta''),
     (''Items'', make_slice (MCPEgressPolicy_DeepCopyInto X))]"

definition MCPEgressPolicyList_DeepCopy :: "third_party \<Rightarrow> copier" where
  "MCPEgressPolicyList_DeepCopy X = new_copy (MCPEgressPolicyList_DeepCopyInto X)"

definition MCPEgressPolicyList_DeepCopyObject :: "third_party \<Rightarrow> copier" where
  "MCPEgressPolicyList_DeepCopyObject X = as_object (MCPEgressPolicyList_DeepCopy X)"

lemma deep_MCPEgressPolicyList [deep_rules]: "third_party_ok X \<Longrightarrow> deep (MCPEgressPolicyList_DeepCopyInto X) (MCPEgressPolicyList_shape X)"
  unfolding MCPEgressPolicyList_DeepCopyInto_def MCPEgressPolicyList_shape_def
  by (rule deep_into) (simp add: blocks_ok_def deep_rules third_party_facts)

definition ViolationRecord_shape :: "third_party \<Rightarrow> shape" where
  "ViolationRecord_shape X = SStruct [
     (''Type'', SPrim), (''Detail'', SPrim), (''Severity'', SPrim), (''Action'', SPrim), (''Destination'', SPrim),
     (''Timestamp'', ext_shape X ''metav1.Time'')]"

definition ViolationRecord_DeepCopyInto :: "third_party \<Rightarrow> copier" where
  "ViolationRecord_DeepCopyInto X = copy_into [
     (''Timestamp'', ext_copy X ''metav1.Time'')]"

definition ViolationRecord_DeepCopy :: "third_party \<Rightarrow> copier" where
  "ViolationRecord_DeepCopy X = new_copy (ViolationRecord_DeepCopyInto X)"

lemma deep_ViolationRecord [deep_rules]: "third_party_ok X \<Longrightarrow> deep (ViolationRecord_DeepCopyInto X) (ViolationRecord_shape X)"
  unfolding ViolationRecord_DeepCopyInto_def ViolationRecord_shape_def
  by (rule deep_into) (simp add: blocks_ok_def deep_rules third_party_facts)

definition MCPServerStatus_shape :: "third_party \<Rightarrow> shape" where
  "MCPServerStatus_shape X = SStruct [
     (''State'', SPrim), (''Replicas'', SPrim), (''ReadyReplicas'', SPrim), (''AvailableReplicas'', SPrim),
     (''ToolsCount'', SPrim), (''Tools'', SSlice SPrim), (''Endpoint'', SPrim),
     (''LastStartedAt'', SPtr (ext_shape X ''metav1.Time'')),
     (''LastStoppedAt'', SPtr (ext_shape X ''metav1.Time'')),
     (''LastHealthCheck'', SPtr (ext_shape X ''metav1.Time'')), (''ConsecutiveFailures'', SPrim),
     (''ObservedGeneration'', SPrim), (''PodName'', SPrim),
     (''Conditions'', SSlice (ext_shape X ''metav1.Condition'')),
     (''Capabilities'', SPtr MCPServerCapabilities_shape), (''InitDataDigests'', SPtr InitDataDigests_shape),
     (''Violations'', SSlice (ViolationRecord_shape X))]"

definition MCPServerStatus_DeepCopyInto :: "third_party \<Rightarrow> copier" where
  "MCPServerStatus_DeepCopyInto X = copy_into [
     (''Tools'', make_slice assign), (''LastStartedAt'', time_copy X), (''LastStoppedAt'', time_copy X),
     (''LastHealthCheck'', time_copy X), (''Conditions'', make_slice (ext_copy X ''metav1.Condition'')),
     (''Capabilities'', new_copy MCPServerCapabilities_DeepCopyInto), (''InitDataDigests'', new_copy assign),
     (''Violations'', make_slice (ViolationRecord_DeepCopyInto X))]"

definition MCPServerStatus_DeepCopy :: "third_party \<Rightarrow> copier" where
  "MCPServerStatus_DeepCopy X = new_copy (MCPServerStatus_DeepCopyInto X)"

lemma deep_MCPServerStatus [deep_rules]: "third_party_ok X \<Longrightarrow> deep (MCPServerStatus_DeepCopyInto X) (MCPServerStatus_shape X)"
  unfolding MCPServerStatus_DeepCopyInto_def MCPServerStatus_shape_def
  by (rule deep_into) (simp add: blocks_ok_def deep_rules third_party_facts)

definition MCPServer_shape :: "third_party \<Rightarrow> shape" where
  "MCPServer_shape X = SStruct [
     (''TypeMeta'', ext_shape X ''metav1.TypeMeta''), (''ObjectMeta'', ext_shape X ''metav1.ObjectMeta''),
     (''Spec'', MCPServerSpec_shape X), (''Status'', MCPServerStatus_shape X)]"

definition MCPServer_DeepCopyInto :: "third_party \<Rightarrow> copier" where
  "MCPServer_DeepCopyInto X = copy_into [
     (''TypeMeta'', assign), (''ObjectMeta'', ext_copy X ''metav1.ObjectMeta''),
     (''Spec'', MCPServerSpec_DeepCopyInto X), (''Status'', MCPServerStatus_DeepCopyInto X)]"

definition MCPServer_DeepCopy :: "third_party \<Rightarrow> copier" where
  "MCPServer_DeepCopy X = new_copy (MCPServer_DeepCopyInto X)"

definition MCPServer_DeepCopyObject :: "third_party \<Rightarrow> copier" where
  "MCPServer_DeepCopyObject X = as_object (MCPServer_DeepCopy X)"

lemma deep_MCPServer [deep_rules]: "third_party_ok X \<Longrightarrow> deep (MCPServer_DeepCopyInto X) (MCPServer_shape X)"
  unfolding MCPServer_DeepCopyInto_def MCPServer_shape_def
  by (rule deep_into) (simp add: blocks_ok_def deep_rules third_party_facts)

definition MCPServerGroupSpec_shape :: "third_party \<Rightarrow> shape" where
  "MCPServerGroupSpec_shape X = SStruct [
     (''Selector'', SPtr (ext_shape X ''metav1.LabelSelector'')), (''HealthPolicy'', SPtr HealthPolicy_shape)]"

definition MCPServerGroupSpec_DeepCopyInto :: "third_party \<Rightarrow> copier" where
  "MCPServerGroupSpec_DeepCopyInto X = copy_into [
     (''Selector'', new_copy (ext_copy X ''metav1.LabelSelector'')),
     (''HealthPolicy'', new_copy HealthPolicy_DeepCopyInto)]"

definition MCPServerGroupSpec_DeepCopy :: "third_party \<Rightarrow> copier" where
  "MCPServerGroupSpec_DeepCopy X = new_copy (MCPServerGroupSpec_DeepCopyInto X)"

lemma deep_MCPServerGroupSpec [deep_rules]: "third_party_ok X \<Longrightarrow> deep (MCPServerGroupSpec_DeepCopyInto X) (MCPServerGroupSpec_shape X)"
  unfolding MCPServerGroupSpec_DeepCopyInto_def MCPServerGroupSpec_shape_def
  by (rule deep_into) (simp add: blocks_ok_def deep_rules third_party_facts)

definition MCPServerMemberStatus_shape :: "shape" where
  "MCPServerMemberStatus_shape = SStruct [
     (''Name'', SPrim), (''Namespace'', SPrim), (''State'', SPrim)]"

definition MCPServerMemberStatus_DeepCopyInto :: "copier" where
  "MCPServerMemberStatus_DeepCopyInto = copy_into []"

definition MCPServerMemberStatus_DeepCopy :: "copier" where
  "MCPServerMemberStatus_DeepCopy = new_copy MCPServerMemberStatus_DeepCopyInto"

lemma flat_MCPServerMemberStatus [deep_rules]: "flat MCPServerMemberStatus_shape"
  by (simp add: MCPServerMemberStatus_shape_def)

lemma deep_MCPServerMemberStatus [deep_rules]: "deep MCPServerMemberStatus_DeepCopyInto MCPServerMemberStatus_shape"
  unfolding MCPServerMemberStatus_DeepCopyInto_def MCPServerMemberStatus_shape_def
  by (rule deep_into) (simp add: blocks_ok_def deep_rules)

definition MCPServerGroupStatus_shape :: "third_party \<Rightarrow> shape" where
  "MCPServerGroupStatus_shape X = SStruct [
     (''ProviderCount'', SPrim), (''ReadyCount'', SPrim), (''DegradedCount'', SPrim), (''ColdCount'', SPrim),
     (''InitializingCount'', SPrim), (''DeadCount'', SPrim), (''Providers'', SSlice MCPServerMemberStatus_shape),
     (''ObservedGeneration'', SPrim), (''Conditions'', SSlice (ext_shape X ''metav1.Condition''))]"

definition MCPServerGroupStatus_DeepCopyInto :: "third_party \<Rightarrow> copier" where
  "MCPServerGroupStatus_DeepCopyInto X = copy_into [
     (''Providers'', make_slice assign), (''Conditions'', make_slice (ext_copy X ''metav1.Condition''))]"

definition MCPServerGroupStatus_DeepCopy :: "third_party \<Rightarrow> copier" where
  "MCPServerGroupStatus_DeepCopy X = new_copy (MCPServerGroupStatus_DeepCopyInto X)"

lemma deep_MCPServerGroupStatus [deep_rules]: "third_party_ok X \<Longrightarrow> deep (MCPServerGroupStatus_DeepCopyInto X) (MCPServerGroupStatus_shape X)"
  unfolding MCPServerGroupStatus_DeepCopyInto_def MCPServerGroupStatus_shape_def
  by (rule deep_into) (simp add: blocks_ok_def deep_rules third_party_facts)

definition MCPServerGroup_shape :: "third_party \<Rightarrow> shape" where
  "MCPServerGroup_shape X = SStruct [
     (''TypeMeta'', ext_shape X ''metav1.TypeMeta''), (''ObjectMeta'', ext_shape X ''metav1.ObjectMeta''),
     (''Spec'', MCPServerGroupSpec_shape X), (''Status'', MCPServerGroupStatus_shape X)]"

definition MCPServerGroup_DeepCopyInto :: "third_party \<Rightarrow> copier" where
  "MCPServerGroup_DeepCopyInto X = copy_into [
     (''TypeMeta'', assign), (''ObjectMeta'', ext_copy X ''metav1.ObjectMeta''),
     (''Spec'', MCPServerGroupSpec_DeepCopyInto X), (''Status'', MCPServerGroupStatus_DeepCopyInto X)]"

definition MCPServerGroup_DeepCopy :: "third_party \<Rightarrow> copier" where
  "MCPServerGroup_DeepCopy X = new_copy (MCPServerGroup_DeepCopyInto X)"

definition MCPServerGroup_DeepCopyObject :: "third_party \<Rightarrow> copier" where
  "MCPServerGroup_DeepCopyObject X = as_object (MCPServerGroup_DeepCopy X)"

lemma deep_MCPServerGroup [deep_rules]: "third_party_ok X \<Longrightarrow> deep (MCPServerGroup_DeepCopyInto X) (MCPServerGroup_shape X)"
  unfolding MCPServerGroup_DeepCopyInto_def MCPServerGroup_shape_def
  by (rule deep_into) (simp add: blocks_ok_def deep_rules third_party_facts)

definition MCPServerGroupList_shape :: "third_party \<Rightarrow> shape" where
  "MCPServerGroupList_shape X = SStruct [
     (''TypeMeta'', ext_shape X ''metav1.TypeMeta''), (''ListMeta'', ext_shape X ''metav1.ListMeta''),
     (''Items'', SSlice (MCPServerGroup_shape X))]"

definition MCPServerGroupList_DeepCopyInto :: "third_party \<Rightarrow> copier" where
  "MCPServerGroupList_DeepCopyInto X = copy_into [
     (''TypeMeta'', assign), (''ListMeta'', ext_copy X ''metav1.ListMeta''),
     (''Items'', make_slice (MCPServerGroup_DeepCopyInto X))]"

definition MCPServerGroupList_DeepCopy :: "third_party \<Rightarrow> copier" where
  "MCPServerGroupList_DeepCopy X = new_copy (MCPServerGroupList_DeepCopyInto X)"

definition MCPServerGroupList_DeepCopyObject :: "third_party \<Rightarrow> copier" where
  "MCPServerGroupList_DeepCopyObject X = as_object (MCPServerGroupList_DeepCopy X)"

lemma deep_MCPServerGroupList [deep_rules]: "third_party_ok X \<Longrightarrow> deep (MCPServerGroupList_DeepCopyInto X) (MCPServerGroupList_shape X)"
  unfolding MCPServerGroupList_DeepCopyInto_def MCPServerGroupList_shape_def
  by (rule deep_into) (simp add: blocks_ok_def deep_rules third_party_facts)

definition MCPServerList_shape :: "third_party \<Rightarrow> shape" where
  "MCPServerList_shape X = SStruct [
     (''TypeMeta'', ext_shape X ''metav1.TypeMeta''), (''ListMeta'', ext_shape X ''metav1.ListMeta''),
     (''Items'', SSlice (MCPServer_shape X))]"

definition MCPServerList_DeepCopyInto :: "third_party \<Rightarrow> copier" where
  "MCPServerList_DeepCopyInto X = copy_into [
     (''TypeMeta'', assign), (''ListMeta'', ext_copy X ''metav1.ListMeta''),
     (''Items'', make_slice (MCPServer_DeepCopyInto X))]"

definition MCPServerList_DeepCopy :: "third_party \<Rightarrow> copier" where
  "MCPServerList_DeepCopy X = new_copy (MCPServerList_DeepCopyInto X)"

definition MCPServerList_DeepCopyObject :: "third_party \<Rightarrow> copier" where
  "MCPServerList_DeepCopyObject X = as_object (MCPServerList_DeepCopy X)"

lemma deep_MCPServerList [deep_rules]: "third_party_ok X \<Longrightarrow> deep (MCPServerList_DeepCopyInto X) (MCPServerList_shape X)"
  unfolding MCPServerList_DeepCopyInto_def MCPServerList_shape_def
  by (rule deep_into) (simp add: blocks_ok_def deep_rules third_party_facts)

section \<open>No sharing\<close>

text \<open>Every \<open>DeepCopy\<close> and \<open>DeepCopyObject\<close> of the package, with the type it is for.\<close>
definition api_copies :: "third_party \<Rightarrow> (copier \<times> shape) list" where
  "api_copies X = [
     (AnnotationDiscoveryConfig_DeepCopy, SPtr AnnotationDiscoveryConfig_shape),
     (ArgumentDenyRules_DeepCopy, SPtr ArgumentDenyRules_shape), (ArgumentRules_DeepCopy, SPtr ArgumentRules_shape),
     (ConfigMapReference_DeepCopy, SPtr ConfigMapReference_shape),
     (DiscoveredMCPServer_DeepCopy X, SPtr (DiscoveredMCPServer_shape X)),
     (DiscoveryFilters_DeepCopy, SPtr DiscoveryFilters_shape), (EgressRuleSpec_DeepCopy, SPtr EgressRuleSpec_shape),
     (EgressTargetRef_DeepCopy, SPtr EgressTargetRef_shape), (HeaderMatch_DeepCopy, SPtr HeaderMatch_shape),
     (HeaderRules_DeepCopy, SPtr HeaderRules_shape), (HealthPolicy_DeepCopy, SPtr HealthPolicy_shape),
     (InitDataDigests_DeepCopy, SPtr InitDataDigests_shape),
     (NamespaceSelectorConfig_DeepCopy X, SPtr (NamespaceSelectorConfig_shape X)),
     (ServiceDiscoveryConfig_DeepCopy, SPtr ServiceDiscoveryConfig_shape),
     (TemplateMetadata_DeepCopy, SPtr TemplateMetadata_shape), (PeerIdentity_DeepCopy, SPtr PeerIdentity_shape),
     (MCPServerTLS_DeepCopy X, SPtr (MCPServerTLS_shape X)),
     (NetworkCapabilitiesSpec_DeepCopy, SPtr NetworkCapabilitiesSpec_shape),
     (ToolCapabilitiesSpec_DeepCopy, SPtr ToolCapabilitiesSpec_shape),
     (MCPServerCapabilities_DeepCopy, SPtr MCPServerCapabilities_shape),
     (MCPServerSpec_DeepCopy X, SPtr (MCPServerSpec_shape X)),
     (MCPServerTemplateConfig_DeepCopy X, SPtr (MCPServerTemplateConfig_shape X)),
     (OwnershipConfig_DeepCopy, SPtr OwnershipConfig_shape),
     (MCPDiscoverySourceSpec_DeepCopy X, SPtr (MCPDiscoverySourceSpec_shape X)),
     (MCPDiscoverySourceStatus_DeepCopy X, SPtr (MCPDiscoverySourceStatus_shape X)),
     (MCPDiscoverySource_DeepCopy X, SPtr (MCPDiscoverySource_shape X)),
     (MCPDiscoverySourceList_DeepCopy X, SPtr (MCPDiscoverySourceList_shape X)),
     (UpstreamMatch_DeepCopy, SPtr UpstreamMatch_shape), (ToolRules_DeepCopy, SPtr ToolRules_shape),
     (UpstreamRule_DeepCopy, SPtr UpstreamRule_shape), (NetworkBackstop_DeepCopy, SPtr NetworkBackstop_shape),
     (MCPEgressPolicySpec_DeepCopy, SPtr MCPEgressPolicySpec_shape),
     (MCPEgressPolicyStatus_DeepCopy X, SPtr (MCPEgressPolicyStatus_shape X)),
     (MCPEgressPolicy_DeepCopy X, SPtr (MCPEgressPolicy_shape X)),
     (MCPEgressPolicyList_DeepCopy X, SPtr (MCPEgressPolicyList_shape X)),
     (ViolationRecord_DeepCopy X, SPtr (ViolationRecord_shape X)),
     (MCPServerStatus_DeepCopy X, SPtr (MCPServerStatus_shape X)), (MCPServer_DeepCopy X, SPtr (MCPServer_shape X)),
     (MCPServerGroupSpec_DeepCopy X, SPtr (MCPServerGroupSpec_shape X)),
     (MCPServerMemberStatus_DeepCopy, SPtr MCPServerMemberStatus_shape),
     (MCPServerGroupStatus_DeepCopy X, SPtr (MCPServerGroupStatus_shape X)),
     (MCPServerGroup_DeepCopy X, SPtr (MCPServerGroup_shape X)),
     (MCPServerGroupList_DeepCopy X, SPtr (MCPServerGroupList_shape X)),
     (MCPServerList_DeepCopy X, SPtr (MCPServerList_shape X)),
     (MCPDiscoverySource_DeepCopyObject X, SPtr (MCPDiscoverySource_shape X)),
     (MCPDiscoverySourceList_DeepCopyObject X, SPtr (MCPDiscoverySourceList_shape X)),
     (MCPEgressPolicy_DeepCopyObject X, SPtr (MCPEgressPolicy_shape X)),
     (MCPEgressPolicyList_DeepCopyObject X, SPtr (MCPEgressPolicyList_shape X)),
     (MCPServer_DeepCopyObject X, SPtr (MCPServer_shape X)),
     (MCPServerGroup_DeepCopyObject X, SPtr (MCPServerGroup_shape X)),
     (MCPServerGroupList_DeepCopyObject X, SPtr (MCPServerGroupList_shape X)),
     (MCPServerList_DeepCopyObject X, SPtr (MCPServerList_shape X))]"

lemmas copy_defs = AnnotationDiscoveryConfig_DeepCopy_def ArgumentDenyRules_DeepCopy_def ArgumentRules_DeepCopy_def
  ConfigMapReference_DeepCopy_def DiscoveredMCPServer_DeepCopy_def DiscoveryFilters_DeepCopy_def
  EgressRuleSpec_DeepCopy_def EgressTargetRef_DeepCopy_def HeaderMatch_DeepCopy_def HeaderRules_DeepCopy_def
  HealthPolicy_DeepCopy_def InitDataDigests_DeepCopy_def NamespaceSelectorConfig_DeepCopy_def
  ServiceDiscoveryConfig_DeepCopy_def TemplateMetadata_DeepCopy_def PeerIdentity_DeepCopy_def
  MCPServerTLS_DeepCopy_def NetworkCapabilitiesSpec_DeepCopy_def ToolCapabilitiesSpec_DeepCopy_def
  MCPServerCapabilities_DeepCopy_def MCPServerSpec_DeepCopy_def MCPServerTemplateConfig_DeepCopy_def
  OwnershipConfig_DeepCopy_def MCPDiscoverySourceSpec_DeepCopy_def MCPDiscoverySourceStatus_DeepCopy_def
  MCPDiscoverySource_DeepCopy_def MCPDiscoverySourceList_DeepCopy_def UpstreamMatch_DeepCopy_def
  ToolRules_DeepCopy_def UpstreamRule_DeepCopy_def NetworkBackstop_DeepCopy_def MCPEgressPolicySpec_DeepCopy_def
  MCPEgressPolicyStatus_DeepCopy_def MCPEgressPolicy_DeepCopy_def MCPEgressPolicyList_DeepCopy_def
  ViolationRecord_DeepCopy_def MCPServerStatus_DeepCopy_def MCPServer_DeepCopy_def
  MCPServerGroupSpec_DeepCopy_def MCPServerMemberStatus_DeepCopy_def MCPServerGroupStatus_DeepCopy_def
  MCPServerGroup_DeepCopy_def MCPServerGroupList_DeepCopy_def MCPServerList_DeepCopy_def
  MCPDiscoverySource_DeepCopyObject_def MCPDiscoverySourceList_DeepCopyObject_def
  MCPEgressPolicy_DeepCopyObject_def MCPEgressPolicyList_DeepCopyObject_def MCPServer_DeepCopyObject_def
  MCPServerGroup_DeepCopyObject_def MCPServerGroupList_DeepCopyObject_def MCPServerList_DeepCopyObject_def

text \<open>C30 A deep copy of an object of the API shares nothing with it: both show the same, what
  is written through the copy the original does not show, and what is written through the
  original the copy does not show.\<close>
theorem deep_copies_share_nothing:
  assumes "third_party_ok X" "(c, s) \<in> set (api_copies X)" "content h s v = Some t" "c v h = (v', h')"
  shows "separated s v v' h' t"
proof -
  have "list_all (\<lambda>(c, s). deep c s) (api_copies X)"
    using assms(1) by (simp add: api_copies_def copy_defs deep_rules)
  then have "deep c s" using assms(2) by (auto simp: list_all_iff)
  then show ?thesis using assms(3,4) by (rule deep_separates)
qed

text \<open>The capabilities of a server with one egress rule, kept aside for the status.\<close>
definition declared :: heap where
  "declared = [
     Obj (Struct [(''Network'', Ref 1), (''Tools'', NilV), (''EnforcementMode'', Prim (PStr ''block''))]),
     Obj (Struct [(''Egress'', Slice 2 0 1), (''DNSAllowed'', Ref 3), (''LoopbackAllowed'', NilV)]),
     Arr [Struct [(''Host'', Prim (PStr ''api.example.com'')), (''Port'', Prim (PInt 443)), (''Protocol'', Prim (PStr [])), (''CIDR'', Prim (PStr []))]],
     Obj (Prim (PBool True))]"

definition flat_types :: third_party where
  "flat_types = \<lparr>ext_copy = \<lambda>_. assign, ext_shape = \<lambda>_. SPrim, time_copy = new_copy assign\<rparr>"

lemma flat_types_ok: "third_party_ok flat_types"
  by (simp add: third_party_ok_def flat_types_def deep_rules)

theorem deep_copies_share_nothing_witness:
  "\<exists>v' h' t. MCPServerCapabilities_DeepCopy (Ref 0) declared = (v', h') \<and> v' \<noteq> Ref 0
     \<and> separated (SPtr MCPServerCapabilities_shape) (Ref 0) v' h' t"
proof -
  have c: "(MCPServerCapabilities_DeepCopy, SPtr MCPServerCapabilities_shape) \<in> set (api_copies flat_types)"
    by (simp add: api_copies_def)
  obtain t where t: "content declared (SPtr MCPServerCapabilities_shape) (Ref 0) = Some t"
    by (simp add: declared_def cell_at_def MCPServerCapabilities_shape_def NetworkCapabilitiesSpec_shape_def
        EgressRuleSpec_shape_def ToolCapabilitiesSpec_shape_def shown_def)
  obtain v' h' where r: "MCPServerCapabilities_DeepCopy (Ref 0) declared = (v', h')" by fastforce
  moreover from r have "v' \<noteq> Ref 0"
    by (auto simp: MCPServerCapabilities_DeepCopy_def new_copy_def declared_def cell_at_def split: prod.splits)
  ultimately show ?thesis using deep_copies_share_nothing [OF flat_types_ok c t r] by blast
qed

end
