(* ===== verification/Interleaving.thy ===== *)
theory Interleaving
  imports ServerController
begin

text \<open>
  Reconciles of several MCPServers at once.  The other theories follow one reconcile against
  an environment that may answer anything; here many of them take turns against one set of
  claims, the Leases of \<open>mcpserver_registration.go\<close>, and what is shown is what the claims are
  for: a request that changes core is sent by the MCPServer that holds its name at that
  moment.  First the rule every run of \<open>Reconcile\<close> keeps, then the interleavings.
\<close>

section \<open>The rule of one run\<close>

abbreviation lease_name :: "mcp_server \<Rightarrow> string" where
  "lease_name s \<equiv> claimPrefix @ s_name s"

text \<open>The claim was read as this MCPServer's, or created by it, at position \<open>i\<close>.\<close>
definition claim_taken_at :: "'e env_scheme \<Rightarrow> string \<Rightarrow> mcp_server \<Rightarrow> history \<Rightarrow> nat \<Rightarrow> bool" where
  "claim_taken_at E cns s l i =
     ((l ! i = ReadObj LeaseKind cns (lease_name s)
        \<and> (\<exists>le. get_lease E (take i l) cns (lease_name s) = Inr le \<and> holds (Some le) s))
      \<or> (\<exists>le. l ! i = Create (KLease le) \<and> write_result E (take i l) (Create (KLease le)) = None
        \<and> holds (Some le) s \<and> m_name (le_meta le) = lease_name s \<and> m_namespace (le_meta le) = cns))"

definition lease_delete :: "effect \<Rightarrow> bool" where
  "lease_delete e = (case e of Delete k _ _ \<Rightarrow> k = LeaseKind | _ \<Rightarrow> False)"

text \<open>It was, since position \<open>n\<close>, and the run has deleted no claim after that.\<close>
definition claim_live :: "'e env_scheme \<Rightarrow> string \<Rightarrow> mcp_server \<Rightarrow> nat \<Rightarrow> history \<Rightarrow> bool" where
  "claim_live E cns s n l = (\<exists>i \<ge> n. i < length l \<and> claim_taken_at E cns s l i
     \<and> (\<forall>j. i < j \<and> j < length l \<longrightarrow> \<not> lease_delete (l ! j)))"

definition own_lease :: "string \<Rightarrow> mcp_server \<Rightarrow> lease \<Rightarrow> bool" where
  "own_lease cns s le = (holds (Some le) s \<and> m_name (le_meta le) = lease_name s \<and> m_namespace (le_meta le) = cns)"

text \<open>Core is changed, and the claim annotated or deleted, only while it is live; the only
  object created is the claim.\<close>
definition claim_rule :: "'e env_scheme \<Rightarrow> string \<Rightarrow> mcp_server \<Rightarrow> nat \<Rightarrow> history \<Rightarrow> effect \<Rightarrow> bool" where
  "claim_rule E cns s n l e = (case e of
     Http rq \<Rightarrow> hq_method rq \<noteq> ''GET'' \<longrightarrow> claim_live E cns s n l
   | Create k \<Rightarrow> (\<exists>le. k = KLease le \<and> own_lease cns s le)
   | Update (KLease le) \<Rightarrow> own_lease cns s le \<and> claim_live E cns s n l
   | Delete k ns nm \<Rightarrow> k = LeaseKind \<longrightarrow> ns = cns \<and> nm = lease_name s \<and> claim_live E cns s n l
   | _ \<Rightarrow> True)"

lemma claim_live_keep: "claim_live E cns s n l \<Longrightarrow> \<not> lease_delete e \<Longrightarrow> claim_live E cns s n (l @ [e])"
  unfolding claim_live_def claim_taken_at_def
  by (elim exE conjE, rule_tac x = i in exI) (auto simp: nth_append less_Suc_eq)

lemma claim_live_append:
  "claim_live E cns s n l \<Longrightarrow> list_all (\<lambda>e. \<not> lease_delete e) es \<Longrightarrow> claim_live E cns s n (l @ es)"
proof (induction es rule: rev_induct)
  case (snoc e es)
  then show ?case using claim_live_keep [of E cns s n "l @ es" e] by simp
qed simp

lemma claim_live_read:
  "n \<le> length l \<Longrightarrow> get_lease E l cns (lease_name s) = Inr le \<Longrightarrow> holds (Some le) s \<Longrightarrow>
   claim_live E cns s n (l @ [ReadObj LeaseKind cns (lease_name s)])"
  unfolding claim_live_def by (rule exI [of _ "length l"]) (auto simp: claim_taken_at_def)

lemma claim_live_create:
  "n \<le> length l \<Longrightarrow> write_result E l (Create (KLease le)) = None \<Longrightarrow> own_lease cns s le \<Longrightarrow>
   claim_live E cns s n (l @ [Create (KLease le)])"
  unfolding claim_live_def by (rule exI [of _ "length l"]) (auto simp: claim_taken_at_def own_lease_def)

lemma new_claim_own: "own_lease cns s (new_claim cns s ep)"
  by (simp add: own_lease_def new_claim_def holds_def mk_meta_def)

lemma annotated_own: "own_lease cns s l \<Longrightarrow> own_lease cns s (annotated l kv)"
  by (simp add: own_lease_def annotated_def holds_def)

text \<open>A read answers with the object of that name.\<close>
definition lease_named :: "'e env_scheme \<Rightarrow> bool" where
  "lease_named E = (\<forall>l ns n le. get_lease E l ns n = Inr le \<longrightarrow> m_name (le_meta le) = n \<and> m_namespace (le_meta le) = ns)"

text \<open>What a run knows of its claim \<open>cl\<close>.\<close>
definition claim_known :: "'e env_scheme \<Rightarrow> string \<Rightarrow> mcp_server \<Rightarrow> nat \<Rightarrow> lease option \<Rightarrow> history \<Rightarrow> bool" where
  "claim_known E cns s n cl l = (n \<le> length l \<and> (\<forall>le. cl = Some le \<longrightarrow> own_lease cns s le \<and> claim_live E cns s n l))"

abbreviation knows :: "'e env_scheme \<Rightarrow> string \<Rightarrow> mcp_server \<Rightarrow> nat \<Rightarrow> lease option \<Rightarrow> ('o, 's, 'x) st \<Rightarrow> bool" where
  "knows E cns s n cl t \<equiv> claim_known E cns s n cl (st_log t)"

lemma knows_less: "claim_known E cns s n cl l \<Longrightarrow> claim_known E cns s n None l"
  by (simp add: claim_known_def)

text \<open>Effects that need no claim, and those that need one and keep it.\<close>
definition unclaimed :: "effect \<Rightarrow> bool" where
  "unclaimed e = (case e of
     Http rq \<Rightarrow> hq_method rq = ''GET'' | Create _ \<Rightarrow> False | Update (KLease _) \<Rightarrow> False
   | Delete k _ _ \<Rightarrow> k \<noteq> LeaseKind | _ \<Rightarrow> True)"

definition keeping :: "effect \<Rightarrow> bool" where
  "keeping e = (case e of Http _ \<Rightarrow> True | _ \<Rightarrow> unclaimed e)"

lemma unclaimed_simps [simp]:
  "unclaimed (ReadObj k ns n)" "unclaimed (ListObjs k ns sel)" "unclaimed (Event ty r m)" "unclaimed (Metric a b)"
  "unclaimed (Sleep d)" "unclaimed (StatusPatch ob)" "unclaimed (StatusUpdate ob)" "unclaimed (Apply ob)"
  "unclaimed (Http rq) = (hq_method rq = ''GET'')" "unclaimed (Delete k ns n) = (k \<noteq> LeaseKind)"
  "unclaimed (Update (KServer x))" "\<not> unclaimed (Create ob)"
  by (simp_all add: unclaimed_def)

lemma keeping_simps [simp]: "keeping (Http rq)" "unclaimed e \<Longrightarrow> keeping e"
  by (auto simp: keeping_def split: effect.split)

lemma unclaimed_rule: "unclaimed e \<Longrightarrow> claim_rule E cns s n l e \<and> \<not> lease_delete e"
  by (auto simp: unclaimed_def claim_rule_def lease_delete_def split: effect.splits kobj.splits)

lemma keeping_rule: "keeping e \<Longrightarrow> claim_live E cns s n l \<Longrightarrow> claim_rule E cns s n l e \<and> \<not> lease_delete e"
  by (auto simp: keeping_def unclaimed_def claim_rule_def lease_delete_def split: effect.splits kobj.splits)

text \<open>A program whose effects keep an invariant of the history that each effect keeps.\<close>
lemma triple_step_invariant:
  fixes m :: "(('o, 's, 'x) st, 'a) state"
  assumes "emits B m" "\<And>l e. B e \<Longrightarrow> I l \<Longrightarrow> G l e \<and> I (l @ [e])"
  shows "triple G (\<lambda>t. I (st_log t)) m (\<lambda>a t. I (st_log t))"
  unfolding triple_def
proof (intro allI impI)
  fix t :: "('o, 's, 'x) st" assume "I (st_log t)"
  obtain es where es: "st_log (snd (run_state m t)) = st_log t @ es" "\<forall>i < length es. B (es ! i)"
    using assms(1) by (auto simp: triple_def)
  have "(\<forall>i < length es. G (st_log t @ take i es) (es ! i)) \<and> I (st_log t @ es)"
    using es(2)
  proof (induction es rule: rev_induct)
    case (snoc e es)
    have B: "B e" using snoc.prems [rule_format, of "length es"] by simp
    have "\<forall>i < length es. B (es ! i)"
    proof (intro allI impI)
      fix i assume "i < length es"
      then show "B (es ! i)" using snoc.prems [rule_format, of i] by (simp add: nth_append)
    qed
    then have IH: "(\<forall>i < length es. G (st_log t @ take i es) (es ! i)) \<and> I (st_log t @ es)" by (rule snoc.IH)
    then show ?case using assms(2) [OF B, of "st_log t @ es"] by (auto simp: nth_append less_Suc_eq)
  qed (use \<open>I (st_log t)\<close> in simp)
  then show "\<exists>es. st_log (snd (run_state m t)) = st_log t @ es \<and> (\<forall>i < length es. G (st_log t @ take i es) (es ! i))
      \<and> I (st_log (snd (run_state m t)))"
    using es(1) by auto
qed

lemma unclaimed_step:
  assumes "emits unclaimed m"
  shows "triple (claim_rule E cns s n) (knows E cns s n cl) m (\<lambda>a. knows E cns s n cl)"
  by (rule triple_step_invariant [OF assms, where I = "claim_known E cns s n cl"])
    (auto simp: claim_known_def unclaimed_rule claim_live_keep)

lemma claimed_step:
  assumes "emits keeping m"
  shows "triple (claim_rule E cns s n) (knows E cns s n (Some l)) m (\<lambda>a. knows E cns s n (Some l))"
  by (rule triple_step_invariant [OF assms, where I = "claim_known E cns s n (Some l)"])
    (auto simp: claim_known_def keeping_rule claim_live_keep)

subsection \<open>The steps of a registration\<close>

lemma keeping_calls [emits_intro]: "emits keeping (call E c op meth url body answer)"
  by (rule emits_call) simp_all

lemma unclaimed_get [emits_intro]: "emits unclaimed (call E c op ''GET'' url body answer)"
  by (rule emits_call) simp_all

lemma unclaimed_steps [emits_intro]:
  "emits unclaimed (report E reason msg)" "emits unclaimed (writeRegistrationStatus E reason msg)"
  "emits unclaimed (peerIdentityRefusal E c s)" "emits unclaimed (discoveredFromItsOwnPod E c s)"
  "emits unclaimed (claim_get E cns m)" "emits unclaimed (reg_refuse E c s None)"
  unfolding peerIdentityRefusal_def discoveredFromItsOwnPod_def reg_refuse_def client_defs
  by (intro emits_intro; simp)+

abbreviation (input) follows :: "'e env_scheme \<Rightarrow> string \<Rightarrow> mcp_server \<Rightarrow> nat \<Rightarrow> lease option \<Rightarrow> 'a srv \<Rightarrow> ('a \<Rightarrow> lease option) \<Rightarrow> bool" where
  "follows E cns s n cl m after \<equiv> triple (claim_rule E cns s n) (knows E cns s n cl) m (\<lambda>a. knows E cns s n (after a))"

lemma follows_less: "follows E cns s n None m after \<Longrightarrow> follows E cns s n cl m after"
  by (erule triple_pre) (rule knows_less)

lemma follows_end: "follows E cns s n cl m after \<Longrightarrow> follows E cns s n cl m (\<lambda>a. None)"
  by (erule triple_post) (rule knows_less)

lemma follows_bind:
  "follows E cns s n cl m mid \<Longrightarrow> (\<And>a. follows E cns s n (mid a) (f a) after) \<Longrightarrow>
   follows E cns s n cl (State_Monad.bind m f) after"
  by (rule triple_bind)

lemma follows_ret: "follows E cns s n (after x) (ret x) after"
  by (rule triple_return)

lemma follows_done: "follows E cns s n cl (ret x) (\<lambda>a. None)"
  by (rule triple_return) (rule knows_less)

lemma follows_get:
  assumes "lease_named E"
  shows "follows E cns s n None (claim_get E cns (s_name s))
    (\<lambda>r. case r of Inr (Some l) \<Rightarrow> if holds (Some l) s then Some l else None | _ \<Rightarrow> None)"
  unfolding claim_get_def
  by (rule triple_pre, (rule wp)+)
    (use assms in \<open>auto simp: claim_rule_def claim_known_def lease_named_def own_lease_def claim_live_read split: sum.splits if_splits\<close>)

lemma follows_take:
  assumes "lease_named E"
  shows "follows E cns s n None (claim_take E cns s ep) (\<lambda>r. case r of Inr cl \<Rightarrow> cl | _ \<Rightarrow> None)"
proof -
  have get: "follows E cns s n None
      (do { g \<leftarrow> claim_get E cns (s_name s);
            ret (case g of Inl e2 \<Rightarrow> Inl e2 | Inr ex \<Rightarrow> (if holds ex s then Inr ex else Inr None)) })
      (\<lambda>r. case r of Inr cl \<Rightarrow> cl | _ \<Rightarrow> None)"
    by (rule triple_bind [OF follows_get [OF assms]], rule triple_return)
      (auto simp: holds_def claim_known_def split: sum.splits option.splits if_splits)
  have create: "triple (claim_rule E cns s n) (knows E cns s n None) (perform E (Create (KLease (new_claim cns s ep))))
      (\<lambda>err. knows E cns s n (case err of None \<Rightarrow> Some (new_claim cns s ep) | Some e \<Rightarrow> None))"
    by (rule triple_pre, rule wp)
      (auto simp: claim_rule_def new_claim_own claim_known_def claim_live_create split: option.split)
  show ?thesis unfolding claim_take_def
  proof (rule triple_bind [OF create])
    show "triple (claim_rule E cns s n) (knows E cns s n (case err of None \<Rightarrow> Some (new_claim cns s ep) | Some e \<Rightarrow> None))
     (case err of None \<Rightarrow> ret (Inr (Some (new_claim cns s ep)))
      | Some e \<Rightarrow> (if is_already_exists e then do {
            g \<leftarrow> claim_get E cns (s_name s);
            ret (case g of Inl e2 \<Rightarrow> Inl e2 | Inr ex \<Rightarrow> (if holds ex s then Inr ex else Inr None)) }
          else ret (Inl e))) (\<lambda>r. knows E cns s n (case r of Inr cl \<Rightarrow> cl | _ \<Rightarrow> None))" for err
      by (cases err) (auto intro: triple_pre [OF triple_ret] get)
  qed
qed

lemma follows_annotate: "follows E cns s n (Some l) (claim_annotate E l kv) (\<lambda>(l2, e). Some l2)"
  unfolding claim_annotate_def
  by (rule triple_pre, (rule wp)+) (auto simp: claim_rule_def claim_known_def annotated_own lease_delete_def intro!: claim_live_keep)

lemma follows_release: "follows E cns s n (Some l) (claim_release E l) (\<lambda>r. None)"
  unfolding claim_release_def
  by (rule triple_pre, (rule wp)+) (auto simp: claim_rule_def claim_known_def own_lease_def)

text \<open>Any effect that keeps the claim, and then nothing is known of it.\<close>
lemma follows_keeping: "emits keeping m \<Longrightarrow> follows E cns s n (Some l) m (\<lambda>a. None)"
  by (rule follows_end [OF claimed_step])

lemma follows_unclaimed: "emits unclaimed m \<Longrightarrow> follows E cns s n cl m (\<lambda>a. None)"
  by (rule follows_end [OF unclaimed_step])

lemmas follows_intro = triple_cases follows_done follows_unclaimed [OF unclaimed_steps(1)]

lemma follows_start: "follows E cns s n (Some l) (start E c s l) (\<lambda>a. None)"
proof -
  have call: "emits keeping (StartMCPServer E c (s_name s))" unfolding client_defs by (intro emits_intro)
  have ann: "follows E cns s n (Some l) (do {
      (l2, e) \<leftarrow> claim_annotate E l kv; ret (case e of Some x \<Rightarrow> done_with (Some x) | None \<Rightarrow> not_done) }) (\<lambda>a. None)" for kv
    by (rule triple_bind [OF follows_annotate]) (auto intro: follows_done)
  show ?thesis unfolding start_def
    by (rule triple_bind [OF claimed_step [OF call]], intro follows_intro ann)
qed

lemma follows_register_claimed: "follows E cns s n (Some l) (register_claimed E c s l ep) (\<lambda>a. None)"
proof -
  have call: "emits keeping (case coreTLS s of Some tls \<Rightarrow> RegisterKeyPinnedMCPServer E c (s_name s) ep tls
      | None \<Rightarrow> RegisterRemoteMCPServer E c (s_name s) ep)"
    unfolding client_defs by (intro emits_intro)
  have event: "follows E cns s n (Some l) (event ty r m) (\<lambda>a. Some l)" for ty r m
    by (rule claimed_step) (intro emits_intro, simp)
  have ann: "follows E cns s n (Some l) (do {
      (l2, e) \<leftarrow> claim_annotate E l kv;
      (case e of Some x \<Rightarrow> ret (done_with (Some x))
       | None \<Rightarrow> (if ep = [] then ret not_done else start E c s l2)) }) (\<lambda>a. None)" for kv
    by (rule triple_bind [OF follows_annotate]) (auto intro!: follows_intro follows_start)
  have release: "follows E cns s n (Some l) (do {
      x \<leftarrow> claim_release E l;
      (case x of Some y \<Rightarrow> ret (done_with (Some y)) | None \<Rightarrow> report E r m) }) (\<lambda>a. None)" for r m
    by (rule triple_bind [OF follows_release], intro follows_intro)
  show ?thesis unfolding register_claimed_def
    by (intro follows_intro triple_bind [OF claimed_step [OF call]] triple_bind [OF event] ann release)
qed

lemma follows_register:
  assumes "lease_named E" shows "follows E cns s n cl (register E c cns s cl ep) (\<lambda>a. None)"
proof (cases cl)
  case None
  have after: "follows E cns s n (case r of Inr cl \<Rightarrow> cl | _ \<Rightarrow> None) (case r of
       Inl e \<Rightarrow> ret (done_with (Some e)) | Inr None \<Rightarrow> ret (True, errorRequeueAfter, None)
     | Inr (Some l) \<Rightarrow> register_claimed E c s l ep) (\<lambda>a. None)" for r
    by (auto intro: follows_intro follows_register_claimed split: sum.split option.split)
  show ?thesis unfolding None register_def option.case by (rule triple_bind [OF follows_take [OF assms] after])
next
  case (Some l)
  then show ?thesis by (simp add: register_def follows_register_claimed)
qed

lemma follows_deliver: "follows E cns s n (Some l) (deliverConnection E c s l tls ep) (\<lambda>(x, l2). Some l2)"
proof -
  have call: "emits keeping (UpdateMCPServerConnection E c (s_name s) ep tls)" unfolding client_defs by (intro emits_intro)
  have says: "follows E cns s n (Some k) (do { y \<leftarrow> m; ret (f y, k) }) (\<lambda>(x, l2). Some l2)" if "emits unclaimed m"
    for k :: lease and m :: "'b srv" and f :: "'b \<Rightarrow> reg_result"
    by (rule triple_bind [OF unclaimed_step [OF that]], rule triple_return) simp
  have told: "emits unclaimed (case r of Inr _ \<Rightarrow> event Normal ReasonUpdated (msg_delivered s) | Inl _ \<Rightarrow> ret ())"
    for r :: "gerr + 'b"
    by (intro emits_intro) simp
  have ann: "follows E cns s n (Some l) (do {
      (l2, e) \<leftarrow> claim_annotate E l kv;
      (case e of Some x \<Rightarrow> ret (done_with (Some x), l2)
       | None \<Rightarrow> do {
           (case r of Inr _ \<Rightarrow> event Normal ReasonUpdated (msg_delivered s) | Inl _ \<Rightarrow> ret ());
           ret (not_done, l2) }) }) (\<lambda>(x, l2). Some l2)" for kv and r :: "gerr + unit"
    by (rule triple_bind [OF follows_annotate]) (auto intro!: triple_cases triple_return says [OF told])
  show ?thesis unfolding deliverConnection_def
    by (rule triple_bind [OF claimed_step [OF call]], intro triple_cases ann says unclaimed_steps)
      (auto intro!: triple_return)
qed

lemma follows_move:
  assumes "lease_named E" shows "follows E cns s n None (moveDiscovered E c cns s ep) (\<lambda>a. None)"
proof -
  have event: "follows E cns s n (Some l) (event ty r m) (\<lambda>a. Some l)" for l ty r m
    by (rule claimed_step) (intro emits_intro, simp)
  have go: "follows E cns s n (Some l) (do {
      event Normal ReasonRegistered (msg_moving s);
      (x, l2) \<leftarrow> deliverConnection E c s l (coreTLS s) ep; ret x }) (\<lambda>a. None)" for l
    by (rule triple_bind [OF event], rule triple_bind [OF follows_deliver]) (auto intro: follows_done)
  have after: "follows E cns s n (case r of Inr cl \<Rightarrow> cl | _ \<Rightarrow> None) (case r of
       Inl e \<Rightarrow> ret (True, errorRequeueAfter, Some e) | Inr None \<Rightarrow> ret (True, errorRequeueAfter, None)
     | Inr (Some l) \<Rightarrow> do { event Normal ReasonRegistered (msg_moving s);
          (x, l2) \<leftarrow> deliverConnection E c s l (coreTLS s) ep; ret x }) (\<lambda>a. None)" for r
    by (auto intro: follows_intro go split: sum.split option.split)
  show ?thesis unfolding moveDiscovered_def by (rule triple_bind [OF follows_take [OF assms] after])
qed

text \<open>A step of the registration that goes on keeps what is known of the claim it hands on.\<close>
lemma follows_end_with: "triple G P m (\<lambda>a t. knows E cns s n None t) \<Longrightarrow> (\<And>a. f a = Inl (g a)) \<Longrightarrow>
    triple G P (do { a \<leftarrow> m; ret (f a) }) (\<lambda>a. knows E cns s n (case a of Inl x \<Rightarrow> None | Inr y \<Rightarrow> after y))"
  by (erule triple_bind, rule triple_return) simp

lemma follows_refuse:
  "follows E cns s n cl (reg_refuse E c s cl) (\<lambda>a. case a of Inl x \<Rightarrow> None | Inr _ \<Rightarrow> cl)"
proof -
  have refusal: "follows E cns s n cl (peerIdentityRefusal E c s) (\<lambda>a. cl)" by (rule unclaimed_step) (intro emits_intro)
  have rep: "follows E cns s n k (do { x \<leftarrow> report E r m; ret (Inl x) }) (\<lambda>a :: reg_result + unit. case a of Inl x \<Rightarrow> None | Inr _ \<Rightarrow> cl)" for k r m
    by (rule follows_end_with [where g = id]) (simp_all add: follows_unclaimed unclaimed_steps)
  have call: "emits keeping (DeregisterMCPServer E c (s_name s))" unfolding client_defs by (intro emits_intro)
  have gone: "follows E cns s n (Some l) (do {
       x \<leftarrow> claim_release E l;
       (case x of Some e \<Rightarrow> ret (Inl (done_with (Some e))) | None \<Rightarrow> do { y \<leftarrow> report E r m; ret (Inl y) }) })
     (\<lambda>a :: reg_result + unit. case a of Inl x \<Rightarrow> None | Inr _ \<Rightarrow> cl)" for l r m
    by (rule triple_bind [OF follows_release], intro triple_cases rep) (auto intro: triple_return)
  have stop: "follows E cns s n k (ret (Inl x)) (\<lambda>a :: reg_result + unit. case a of Inl x \<Rightarrow> None | Inr _ \<Rightarrow> cl)" for k x
    by (rule triple_return) (auto intro: knows_less)
  have refuse: "follows E cns s n cl (case cl of
        None \<Rightarrow> do { x \<leftarrow> report E r m; ret (Inl x) }
      | Some l \<Rightarrow> do {
          d \<leftarrow> DeregisterMCPServer E c (s_name s);
          (case d of
             Inl e \<Rightarrow> ret (Inl (done_with (Some e)))
           | Inr _ \<Rightarrow> do {
               x \<leftarrow> claim_release E l;
               (case x of Some e \<Rightarrow> ret (Inl (done_with (Some e)))
                | None \<Rightarrow> do { y \<leftarrow> report E r m; ret (Inl y) }) }) })
     (\<lambda>a :: reg_result + unit. case a of Inl x \<Rightarrow> None | Inr _ \<Rightarrow> cl)" for r m
    by (cases cl) (simp_all add: rep, intro triple_bind [OF claimed_step [OF call]] triple_cases stop gone)
  show ?thesis unfolding reg_refuse_def
    by (intro triple_cases triple_bind [OF refusal] stop refuse) (auto intro: triple_return)
qed

lemma follows_reg_deliver:
  "follows E cns s n cl (reg_deliver E c s cl ep) (\<lambda>a. case a of Inl x \<Rightarrow> None | Inr (cl2, tls) \<Rightarrow> cl2)"
proof (cases cl)
  case (Some l)
  have tail: "follows E cns s n (case a of (x, l2) \<Rightarrow> Some l2) (case a of (x, l2) \<Rightarrow>
      (if fst x \<or> snd (snd x) \<noteq> None then ret (Inl x) else ret (Inr (Some l2, tls))))
     (\<lambda>a. case a of Inl x \<Rightarrow> None | Inr (cl2, tls) \<Rightarrow> cl2)" for a :: "reg_result \<times> lease" and tls :: "json option"
    by (auto intro!: triple_return knows_less split: prod.splits)
  show ?thesis unfolding Some reg_deliver_def Let_def option.case
    by (intro triple_cases triple_bind [OF follows_deliver tail]) (auto intro: triple_return)
qed (auto simp: reg_deliver_def intro: triple_return)

lemma follows_endpoint:
  "follows E cns s n cl (reg_endpoint E c s cl tls ep) (\<lambda>a. case a of Inl x \<Rightarrow> None | Inr cl2 \<Rightarrow> cl2)"
proof (cases cl)
  case (Some l)
  have call: "emits keeping (if b then DeregisterMCPServer E c (s_name s) else ret (Inr ()))" for b
    unfolding client_defs by (intro emits_intro)
  have told: "emits keeping (if b then event Normal ReasonUpdated m else if b' then event Normal ReasonUpdated m' else ret ())"
    for b b' m m' by (intro emits_intro) simp_all
  have ann: "follows E cns s n (Some l) (do {
       (l2, e) \<leftarrow> claim_annotate E l kv;
       (case e of Some x \<Rightarrow> ret (Inl (done_with (Some x))) | None \<Rightarrow> ret (Inr (Some l2))) })
     (\<lambda>a. case a of Inl x \<Rightarrow> None | Inr cl2 \<Rightarrow> cl2)" for kv
    by (rule triple_bind [OF follows_annotate]) (auto intro!: triple_return knows_less split: option.split)
  show ?thesis unfolding Some reg_endpoint_def Let_def option.case
    by (intro triple_cases triple_bind [OF claimed_step [OF call]] triple_bind [OF claimed_step [OF told] ann])
      (auto intro!: triple_return knows_less)
qed (auto simp: reg_endpoint_def intro: triple_return)

lemma follows_core:
  assumes "lease_named E" shows "follows E cns s n cl (reg_core E c cns s cl ep) (\<lambda>a. None)"
proof -
  have health: "follows E cns s n cl (GetMCPServerHealth E c (s_name s) (s_ns s)) (\<lambda>a. cl)"
    unfolding client_defs by (rule unclaimed_step) (intro emits_intro)
  have own: "follows E cns s n None (if IsContainerMode s then discoveredFromItsOwnPod E c s else ret False) (\<lambda>a. None)"
    by (rule unclaimed_step) (intro emits_intro)
  show ?thesis
  proof (cases cl)
    case None
    show ?thesis unfolding reg_core_def
      by (rule triple_bind [OF health])
        (simp only: None option.case, intro follows_intro follows_register [OF assms] triple_bind [OF own] follows_move [OF assms])
  next
    case (Some l)
    show ?thesis unfolding reg_core_def
      by (rule triple_bind [OF health])
        (simp only: Some option.case, intro follows_intro follows_register [OF assms] follows_start)
  qed
qed

lemma follows_registration:
  assumes "lease_named E" and "sr_claims R = Some cns"
  shows "follows E cns s n None (registration E R c s ep) (\<lambda>a. None)"
proof -
  have rest: "follows E cns s n cl (do {
      a \<leftarrow> reg_refuse E c s cl;
      (case a of
         Inl x \<Rightarrow> ret x
       | Inr _ \<Rightarrow> do {
           b \<leftarrow> reg_deliver E c s cl ep;
           (case b of
              Inl x \<Rightarrow> ret x
            | Inr (claim2, tls) \<Rightarrow> do {
                d \<leftarrow> reg_endpoint E c s claim2 tls ep;
                (case d of Inl x \<Rightarrow> ret x | Inr claim3 \<Rightarrow> reg_core E c cns s claim3 ep) }) }) }) (\<lambda>a. None)" for cl
  proof (rule triple_bind [OF follows_refuse])
    have d: "follows E cns s n (case d of Inl x \<Rightarrow> None | Inr cl2 \<Rightarrow> cl2)
        (case d of Inl x \<Rightarrow> ret x | Inr claim3 \<Rightarrow> reg_core E c cns s claim3 ep) (\<lambda>a. None)" for d
      by (cases d) (auto intro: follows_done follows_core [OF assms(1)])
    have b: "follows E cns s n (case b of Inl x \<Rightarrow> None | Inr (cl2, tls) \<Rightarrow> cl2) (case b of
              Inl x \<Rightarrow> ret x
            | Inr (claim2, tls) \<Rightarrow> do {
                d \<leftarrow> reg_endpoint E c s claim2 tls ep;
                (case d of Inl x \<Rightarrow> ret x | Inr claim3 \<Rightarrow> reg_core E c cns s claim3 ep) }) (\<lambda>a. None)" for b
      by (auto intro: follows_done triple_bind [OF follows_endpoint d] split: sum.split)
    show "follows E cns s n (case a of Inl x \<Rightarrow> None | Inr _ \<Rightarrow> cl) (case a of
         Inl x \<Rightarrow> ret x
       | Inr _ \<Rightarrow> do {
           b \<leftarrow> reg_deliver E c s cl ep;
           (case b of
              Inl x \<Rightarrow> ret x
            | Inr (claim2, tls) \<Rightarrow> do {
                d \<leftarrow> reg_endpoint E c s claim2 tls ep;
                (case d of Inl x \<Rightarrow> ret x | Inr claim3 \<Rightarrow> reg_core E c cns s claim3 ep) }) }) (\<lambda>a. None)" for a :: "reg_result + unit"
      by (auto intro: follows_done triple_bind [OF follows_reg_deliver b] split: sum.split)
  qed
  show ?thesis unfolding registration_def assms(2) option.case
  proof (rule triple_bind [OF follows_get [OF assms(1)]])
    fix g :: "gerr + lease option"
    let ?known = "case g of Inr (Some l) \<Rightarrow> if holds (Some l) s then Some l else None | _ \<Rightarrow> None"
    show "follows E cns s n ?known (case g of
          Inl e \<Rightarrow> ret (done_with (Some e))
        | Inr claim \<Rightarrow> (if claim \<noteq> None \<and> \<not> holds claim s then report E ReasonNameTaken (msg_name_claimed s (the claim))
            else do {
              a \<leftarrow> reg_refuse E c s claim;
              (case a of
                 Inl x \<Rightarrow> ret x
               | Inr _ \<Rightarrow> do {
                   b \<leftarrow> reg_deliver E c s claim ep;
                   (case b of
                      Inl x \<Rightarrow> ret x
                    | Inr (claim2, tls) \<Rightarrow> do {
                        d \<leftarrow> reg_endpoint E c s claim2 tls ep;
                        (case d of Inl x \<Rightarrow> ret x | Inr claim3 \<Rightarrow> reg_core E c cns s claim3 ep) }) }) })) (\<lambda>a. None)"
    proof (cases g)
      case (Inr claim)
      show ?thesis
      proof (cases "claim \<noteq> None \<and> \<not> holds claim s")
        case True
        then show ?thesis unfolding Inr by (simp add: follows_unclaimed unclaimed_steps)
      next
        case False
        then have "?known = claim" by (auto simp: Inr split: option.split)
        then show ?thesis using rest [of claim] False unfolding Inr by auto
      qed
    qed (auto intro: follows_done)
  qed
qed

subsection \<open>Deletion\<close>

lemma follows_deregister:
  assumes "lease_named E" and "\<And>x. sr_claims R = Some x \<Longrightarrow> x = cns"
  shows "follows E cns s n None (deregisterOwned E R c s) (\<lambda>a. None)"
proof -
  have get: "follows E cns s n None (case sr_claims R of None \<Rightarrow> ret (Inr None) | Some cns \<Rightarrow> claim_get E cns (s_name s))
    (\<lambda>r. case r of Inr (Some l) \<Rightarrow> if holds (Some l) s then Some l else None | _ \<Rightarrow> None)"
    using assms(2) follows_get [OF assms(1)] by (cases "sr_claims R") (auto intro: triple_return)
  have call: "emits keeping (DeregisterMCPServer E c (s_name s))" unfolding client_defs by (intro emits_intro)
  have told: "emits keeping (case d of Inl e \<Rightarrow> event Warning ReasonFailed (msg_stays s e) | Inr _ \<Rightarrow> ret ())" for d :: "gerr + unit"
    by (intro emits_intro) simp
  have last: "emits unclaimed (do {
      (case x of Some e \<Rightarrow> event Warning ReasonFailed (msg_unreleased s l e) | None \<Rightarrow> ret ()); ret None })" for x l
    by (intro emits_intro) simp
  have drop: "follows E cns s n (Some l) (do {
      d \<leftarrow> DeregisterMCPServer E c (s_name s);
      (case d of Inl e \<Rightarrow> event Warning ReasonFailed (msg_stays s e) | Inr _ \<Rightarrow> ret ());
      x \<leftarrow> claim_release E (the (Some l));
      (case x of Some e \<Rightarrow> event Warning ReasonFailed (msg_unreleased s (the (Some l)) e) | None \<Rightarrow> ret ());
      ret None }) (\<lambda>a. None)" for l
    unfolding option.sel
    by (intro triple_bind [OF claimed_step [OF call]] triple_bind [OF claimed_step [OF told]]
        triple_bind [OF follows_release] follows_unclaimed [OF last])
  have left: "emits unclaimed (do { event Normal ReasonDeregistrationSkipped (msg_left s); ret None })"
    by (intro emits_intro) simp
  show ?thesis unfolding deregisterOwned_def
  proof (rule triple_bind [OF get])
    show "follows E cns s n (case g of Inr (Some l) \<Rightarrow> if holds (Some l) s then Some l else None | _ \<Rightarrow> None)
      (case g of
        Inl e \<Rightarrow> ret (Some e)
      | Inr claim \<Rightarrow>
         (if \<not> holds claim s then do { event Normal ReasonDeregistrationSkipped (msg_left s); ret None }
          else do {
            d \<leftarrow> DeregisterMCPServer E c (s_name s);
            (case d of Inl e \<Rightarrow> event Warning ReasonFailed (msg_stays s e) | Inr _ \<Rightarrow> ret ());
            x \<leftarrow> claim_release E (the claim);
            (case x of Some e \<Rightarrow> event Warning ReasonFailed (msg_unreleased s (the claim) e) | None \<Rightarrow> ret ());
            ret None })) (\<lambda>a. None)" for g
    proof (cases g)
      case (Inr claim)
      show ?thesis unfolding Inr sum.case
        by (cases claim) (auto intro: drop follows_unclaimed [OF left] simp: holds_def simp del: option.sel)
    qed (auto intro: follows_done)
  qed
qed

subsection \<open>The rest of a reconcile\<close>

lemma unclaimed_legacy [emits_intro]: "emits unclaimed (removeLegacyPod E s)"
  unfolding removeLegacyPod_def by (intro emits_intro; simp)

lemma unclaimed_deployment [emits_intro]:
  "emits unclaimed (write_deployment E s d hash)" "emits unclaimed (report_pod E R s inc)"
  "emits unclaimed (reconcileDeployment E R s inc)"
  unfolding reconcileDeployment_def write_deployment_def report_pod_def syncPodStatus_def handlePodRunning_def GetMCPServerTools_def
  by (intro emits_intro emits_phase; simp)+

lemma unclaimed_policy [emits_intro]:
  "emits unclaimed (reconcileNetworkPolicy E R s)" "emits unclaimed (reconcileViolationDetection E s)"
  "emits unclaimed (reconcileEgressAudit s)" "emits unclaimed (reconcileProviderIngress E R s)"
  unfolding reconcileNetworkPolicy_def reconcileViolationDetection_def reconcileEgressAudit_def reconcileProviderIngress_def
    namespaceEnforcesEgress_def withhold_egress_def open_egress_def write_policy_def deleteNetworkPolicyIfExists_def
    remove_fence_def write_fence_def record_ingress_def announce_violation_def Let_def
  by (intro emits_intro; simp)+

lemma unclaimed_remote [emits_intro]:
  "emits unclaimed (check_health E c s)" "emits unclaimed (finish_remote E s after)"
  unfolding check_health_def remote_healthy_def client_defs by (intro emits_intro; simp)+

lemma unclaimed_stops [emits_intro]:
  "emits unclaimed (holdPeerIdentity E s)" "emits unclaimed (podEndpoint E s)" "emits unclaimed (write_and_requeue E after)"
  unfolding podEndpoint_def by (intro emits_intro; simp)+

lemma follows_registering:
  assumes "lease_named E" and "\<And>x. sr_claims R = Some x \<Longrightarrow> x = cns"
  shows "follows E cns s n None (registration E R c s ep) (\<lambda>a. None)"
proof (cases "sr_claims R")
  case None
  then show ?thesis by (simp add: registration_def follows_done)
next
  case (Some x)
  then show ?thesis using follows_registration [OF assms(1)] assms(2) by blast
qed

lemma follows_reconcileRegistration:
  assumes named: "lease_named E" and the_claims: "\<And>x. sr_claims R = Some x \<Longrightarrow> x = cns"
  shows "follows E cns s n None (reconcileRegistration E R c s) (\<lambda>a. None)"
proof -
  have after: "emits unclaimed (case r of (finished, after, err) \<Rightarrow>
     (if finished \<and> err = None \<and> after = 0 then do {
        cs \<leftarrow> the_conditions;
        ret (finished, registrationRequeue E cs, err) }
      else ret (finished, after, err)))" for r :: reg_result
    by (intro emits_intro)
  show ?thesis unfolding reconcileRegistration_def
    by (rule triple_bind [OF follows_registering [OF named the_claims] unclaimed_step [OF after]])
qed

lemma follows_remote:
  assumes named: "lease_named E" and the_claims: "\<And>x. sr_claims R = Some x \<Longrightarrow> x = cns"
  shows "follows E cns s n None (reconcileRemoteProvider E R s) (\<lambda>a. None)"
proof -
  have stop: "emits unclaimed (do {
        setServerCondition E ConditionReady st r m;
        upd_status f; write_and_requeue E after })"
    "emits unclaimed (do {
        upd_status f; setServerCondition E ConditionReady st r m; finish_remote E s after })" for st r m f after
    by (intro emits_intro)+
  have go: "emits unclaimed (case x of (finished, after, err) \<Rightarrow>
      (if finished \<or> err \<noteq> None then ret (after, err) else do { a \<leftarrow> check_health E c s; finish_remote E s a }))"
    for x :: reg_result and c
    by (intro emits_intro)
  show ?thesis unfolding reconcileRemoteProvider_def
    by (intro triple_if triple_option follows_unclaimed [OF stop(1)] follows_unclaimed [OF stop(2)]
        triple_bind [OF follows_reconcileRegistration [OF named the_claims] unclaimed_step [OF go]])
qed

lemma follows_container:
  assumes named: "lease_named E" and the_claims: "\<And>x. sr_claims R = Some x \<Longrightarrow> x = cns"
  shows "follows E cns s n None (reconcileContainerProvider E R s) (\<lambda>a. None)"
proof -
  have stop: "emits unclaimed (do {
        setServerCondition E ConditionReady CondFalse r msg_image;
        upd_status f;
        x \<leftarrow> server_write E;
        (case x of Some e \<Rightarrow> ret (0, Some e)
         | None \<Rightarrow> do { event Warning ReasonFailed msg_image; ret (0, None) }) })" for r f
    by (intro emits_intro; simp)
  have start: "follows E cns s n None (upd_status f) (\<lambda>a. None)"
    "follows E cns s n None (reconcileNetworkPolicy E R s) (\<lambda>a. None)"
    "follows E cns s n None (reconcileViolationDetection E s) (\<lambda>a. None)"
    "follows E cns s n None (reconcileEgressAudit s) (\<lambda>a. None)"
    "follows E cns s n None (podEndpoint E s) (\<lambda>a. None)"
    "follows E cns s n None (case x of Some e \<Rightarrow> event Warning r (m e) | None \<Rightarrow> ret ()) (\<lambda>a. None)" for f x r and m :: "gerr \<Rightarrow> string"
    by (rule follows_unclaimed, (intro emits_intro; simp))+
  have last: "emits unclaimed (case z of (finished, after, err) \<Rightarrow>
       (case err of Some e \<Rightarrow> ret (0, Some e) | None \<Rightarrow> reconcileDeployment E R s finished))" for z :: reg_result
    by (intro emits_intro)
  have reg: "follows E cns s n None (case ep of
       Inl e \<Rightarrow> ret (0, Some e)
     | Inr endpoint \<Rightarrow> do {
         (finished, after, err) \<leftarrow> registration E R c s endpoint;
         (case err of Some e \<Rightarrow> ret (0, Some e) | None \<Rightarrow> reconcileDeployment E R s finished) }) (\<lambda>a. None)" for ep :: "gerr + string" and c
    by (intro triple_sum follows_done triple_bind [OF follows_registering [OF named the_claims] unclaimed_step [OF last]])
  show ?thesis unfolding reconcileContainerProvider_def
    by (intro triple_if triple_option follows_unclaimed [OF stop] triple_bind [OF start(1)] triple_bind [OF start(2)]
        triple_bind [OF start(3)] triple_bind [OF start(4)] triple_bind [OF start(6)] triple_bind [OF start(5) reg]
        follows_unclaimed [OF unclaimed_deployment(3)])
qed

lemma follows_normal:
  assumes named: "lease_named E" and the_claims: "\<And>x. sr_claims R = Some x \<Longrightarrow> x = cns"
  shows "follows E cns s n None (reconcileNormal E R s) (\<lambda>a. None)"
proof -
  have start: "follows E cns s n None the_obj (\<lambda>a. None)"
    "follows E cns s n None (whenM b (do { upd_status f; setServerCondition E ConditionProgressing CondTrue r m })) (\<lambda>a. None)"
    "follows E cns s n None (reconcileProviderIngress E R s) (\<lambda>a. None)"
    "follows E cns s n None (do {
          setServerCondition E ty CondFalse r m; y \<leftarrow> server_write E;
          ret (0, (case y of Some z \<Rightarrow> Some z | None \<Rightarrow> e)) }) (\<lambda>a. None)"
    "follows E cns s n None (do { y \<leftarrow> holdPeerIdentity E s; ret (0, y) }) (\<lambda>a. None)"
    "follows E cns s n None (do { setServerCondition E ty CondFalse r m; write_and_requeue E 0 }) (\<lambda>a. None)"
    for b f r m ty and e :: "gerr option"
    by (rule follows_unclaimed, (intro emits_intro; simp))+
  have mode: "follows E cns s n None (case md of ModeContainer \<Rightarrow> reconcileContainerProvider E R s
      | ModeRemote \<Rightarrow> reconcileRemoteProvider E R s
      | ModeOther x \<Rightarrow> do { setServerCondition E ConditionReady CondFalse r m; write_and_requeue E 0 }) (\<lambda>a. None)" for md r m
    by (cases md) (simp_all add: follows_container [OF named the_claims] follows_remote [OF named the_claims] start)
  show ?thesis unfolding reconcileNormal_def
    by (intro triple_bind [OF start(1)] triple_bind [OF start(2)] triple_bind [OF start(3)] triple_if triple_option start(4,5) mode)
qed

lemma follows_delete:
  assumes named: "lease_named E" and the_claims: "\<And>x. sr_claims R = Some x \<Longrightarrow> x = cns"
  shows "follows E cns s n None (reconcileDelete E R s) (\<lambda>a. None)"
proof -
  have clean: "follows E cns s n None (clean_container E s) (\<lambda>a. None)"
    unfolding clean_container_def by (rule follows_unclaimed, (intro emits_intro; simp))
  have release: "follows E cns s n None (release_server E s) (\<lambda>a. None)"
    unfolding release_server_def ClearProviderMetrics_def by (rule follows_unclaimed, (intro emits_intro; simp))
  show ?thesis unfolding reconcileDelete_def
    by (intro triple_bind [OF clean] triple_cases follows_done release
        triple_bind [where R = "\<lambda>a. knows E cns s n None"] follows_deregister [OF named the_claims])
qed

text \<open>The rule speaks of the name and the holder only: the finalizer may change.\<close>
lemma same_claim:
  assumes "claimHolder s1 = claimHolder s" "s_name s1 = s_name s"
  shows "claim_rule E cns s1 = claim_rule E cns s" "claim_known E cns s1 = claim_known E cns s"
proof -
  have h: "holds le s1 = holds le s" for le using assms(1) by (simp add: holds_def split: option.split)
  have o: "own_lease cns s1 = own_lease cns s" by (simp add: fun_eq_iff own_lease_def h assms(2))
  have l: "claim_live E cns s1 = claim_live E cns s" by (simp add: fun_eq_iff claim_live_def claim_taken_at_def h assms(2))
  show "claim_rule E cns s1 = claim_rule E cns s" unfolding claim_rule_def o l assms(2) ..
  show "claim_known E cns s1 = claim_known E cns s" unfolding claim_known_def o l ..
qed

text \<open>Every effect of a reconcile keeps the rule of the claim on the name of the MCPServer it
  was asked for.\<close>
lemma reconcile_follows:
  assumes named: "lease_named E" and the_claims: "\<And>x. sr_claims R = Some x \<Longrightarrow> x = cns"
  shows "triple (claim_rule E cns s n) (\<lambda>t. n \<le> length (st_log t) \<and> get_server E (st_log t) ns nm = Inr s)
    (server_Reconcile E R ns nm) (\<lambda>a t. True)"
proof -
  let ?s1 = "s\<lparr>s_meta := (s_meta s)\<lparr>m_finalizers := add_finalizer E (m_finalizers (s_meta s)) finalizerName\<rparr>\<rparr>"
  have same: "claim_rule E cns ?s1 = claim_rule E cns s" "claim_known E cns ?s1 = claim_known E cns s"
    by (rule same_claim; simp add: claimHolder_def)+
  have start: "follows E cns s n None (upd_obj f) (\<lambda>a. None)" "follows E cns s n None (set_base b) (\<lambda>a. None)"
    "follows E cns s n None (perform E (Update (KServer x))) (\<lambda>a. None)" for f b x
    by (rule follows_unclaimed, (intro emits_intro; simp))+
  have normal: "follows E cns s n None (reconcileNormal E R ?s1) (\<lambda>a. None)"
    using follows_normal [OF named the_claims, where s = ?s1 and n = n] by (simp add: same)
  have go: "follows E cns s n None (do {
          upd_obj (\<lambda>_. s);
          set_base (s_status s);
          (if m_deletion (s_meta s) \<noteq> None then reconcileDelete E R s
           else if \<not> contains_finalizer E (m_finalizers (s_meta s)) finalizerName then (
             let s1 = ?s1 in do {
               upd_obj (\<lambda>_. s1);
               x \<leftarrow> perform E (Update (KServer s1));
               (case x of Some e \<Rightarrow> ret (0, Some e) | None \<Rightarrow> reconcileNormal E R s1) })
           else reconcileNormal E R s) }) (\<lambda>a. None)"
    unfolding Let_def
    by (intro triple_bind [OF start(1)] triple_bind [OF start(2)] triple_bind [OF start(3)] triple_cases follows_done
        normal follows_normal [OF named the_claims] follows_delete [OF named the_claims])
  have fetch: "triple (claim_rule E cns s n) (\<lambda>t. n \<le> length (st_log t) \<and> get_server E (st_log t) ns nm = Inr s)
     (fetch ServerKind (get_server E) ns nm) (\<lambda>r t. r = Inr s \<and> knows E cns s n None t)"
    by (rule triple_pre, rule wp) (auto simp: claim_rule_def claim_known_def)
  show ?thesis unfolding server_Reconcile_def
  proof (rule triple_bind [OF fetch])
    fix r :: "gerr + mcp_server"
    show "triple (claim_rule E cns s n) (\<lambda>t. r = Inr s \<and> knows E cns s n None t) (case r of
       Inl e \<Rightarrow> ret (0, (if is_not_found e then None else Some e))
     | Inr s \<Rightarrow> do {
          upd_obj (\<lambda>_. s);
          set_base (s_status s);
          (if m_deletion (s_meta s) \<noteq> None then reconcileDelete E R s
           else if \<not> contains_finalizer E (m_finalizers (s_meta s)) finalizerName then (
             let s1 = s\<lparr>s_meta := (s_meta s)\<lparr>m_finalizers := add_finalizer E (m_finalizers (s_meta s)) finalizerName\<rparr>\<rparr> in do {
               upd_obj (\<lambda>_. s1);
               x \<leftarrow> perform E (Update (KServer s1));
               (case x of Some e \<Rightarrow> ret (0, Some e) | None \<Rightarrow> reconcileNormal E R s1) })
           else reconcileNormal E R s) }) (\<lambda>a t. True)"
    proof (cases "r = Inr s")
      case True
      show ?thesis unfolding True sum.case by (rule triple_post [OF triple_pre [OF go]]) simp_all
    qed (simp add: triple_def)
  qed
qed

section \<open>Many runs\<close>

text \<open>A reconcile: what it runs against, the MCPServer its first read finds, where it starts.\<close>
record reconcile_run =
  rr_env :: env
  rr_reconciler :: server_reconciler
  rr_server :: mcp_server
  rr_start :: "(mcp_server, server_status, kept) st"

definition run_effects :: "reconcile_run \<Rightarrow> history" where
  "run_effects r = drop (length (st_log (rr_start r))) (st_log (snd (run_state
     (server_Reconcile (rr_env r) (rr_reconciler r) (s_ns (rr_server r)) (s_name (rr_server r))) (rr_start r))))"

definition run_ok :: "string \<Rightarrow> reconcile_run \<Rightarrow> bool" where
  "run_ok cns r = (lease_named (rr_env r)
     \<and> get_server (rr_env r) (st_log (rr_start r)) (s_ns (rr_server r)) (s_name (rr_server r)) = Inr (rr_server r)
     \<and> (\<forall>x. sr_claims (rr_reconciler r) = Some x \<longrightarrow> x = cns))"

text \<open>The claims there are, by the name of the Lease, and one turn of a run: its number, what
  it does and the claims before.\<close>
type_synonym claims = "string \<rightharpoonup> lease"

record turn =
  tn_run :: nat
  tn_effect :: effect
  tn_claims :: claims

definition done_by :: "nat \<Rightarrow> turn list \<Rightarrow> history" where
  "done_by k tr = map tn_effect (filter (\<lambda>x. tn_run x = k) tr)"

text \<open>The API server on Leases of the namespace \<open>cns\<close>.  A read that succeeds answers with the
  Lease there is; a create succeeds only when there is none.  A write that is accepted takes
  effect; of one that ends in an error the caller does not know.\<close>
definition claims_answer :: "env \<Rightarrow> string \<Rightarrow> history \<Rightarrow> effect \<Rightarrow> claims \<Rightarrow> bool" where
  "claims_answer E cns l e c = (case e of
     ReadObj LeaseKind ns n \<Rightarrow> (\<forall>le. ns = cns \<and> get_lease E l ns n = Inr le \<longrightarrow> c n = Some le)
   | _ \<Rightarrow> True)"

definition claims_step :: "env \<Rightarrow> history \<Rightarrow> effect \<Rightarrow> claims \<Rightarrow> claims \<Rightarrow> bool" where
  "claims_step E l e c c' = (case e of
     Create (KLease le) \<Rightarrow> c' = c(m_name (le_meta le) \<mapsto> le) \<and> c (m_name (le_meta le)) = None
       \<or> c' = c \<and> write_result E l e \<noteq> None
   | Update (KLease le) \<Rightarrow> c' = c(m_name (le_meta le) \<mapsto> le) \<and> c (m_name (le_meta le)) \<noteq> None
       \<or> c' = c \<and> write_result E l e \<noteq> None
   | Delete LeaseKind ns n \<Rightarrow> c' = c(n := None) \<or> c' = c \<and> write_result E l e \<noteq> None
   | _ \<Rightarrow> c' = c)"

definition same_server :: "reconcile_run \<Rightarrow> reconcile_run \<Rightarrow> bool" where
  "same_server r q = (claimHolder (rr_server r) = claimHolder (rr_server q))"

text \<open>Runs take turns in any order; a run may stop for good at any point, as when the operator
  is killed.  Of one MCPServer no two runs are under way at a time, which the work queue of a
  controller sees to.\<close>
inductive interleaved :: "string \<Rightarrow> (nat \<Rightarrow> reconcile_run) \<Rightarrow> turn list \<Rightarrow> nat set \<Rightarrow> claims \<Rightarrow> bool"
  for cns runs where
  begins: "interleaved cns runs [] {} c"
| turns: "interleaved cns runs tr dead c \<Longrightarrow> k \<notin> dead \<Longrightarrow> length (done_by k tr) < length (run_effects (runs k))
    \<Longrightarrow> e = run_effects (runs k) ! length (done_by k tr)
    \<Longrightarrow> \<forall>j. j \<noteq> k \<and> same_server (runs j) (runs k) \<longrightarrow>
          j \<in> dead \<or> done_by j tr = [] \<or> length (done_by j tr) = length (run_effects (runs j))
    \<Longrightarrow> claims_answer (rr_env (runs k)) cns (st_log (rr_start (runs k)) @ done_by k tr) e c
    \<Longrightarrow> claims_step (rr_env (runs k)) (st_log (rr_start (runs k)) @ done_by k tr) e c c'
    \<Longrightarrow> interleaved cns runs (tr @ [\<lparr>tn_run = k, tn_effect = e, tn_claims = c\<rparr>]) dead c'"
| stops: "interleaved cns runs tr dead c \<Longrightarrow> interleaved cns runs tr (insert k dead) c"

lemma done_by_snoc: "done_by k (tr @ [x]) = done_by k tr @ (if tn_run x = k then [tn_effect x] else [])"
  by (simp add: done_by_def)

text \<open>A run has done the first of its effects.\<close>
lemma interleaved_prefix:
  "interleaved cns runs tr dead c \<Longrightarrow>
    done_by k tr = take (length (done_by k tr)) (run_effects (runs k)) \<and> length (done_by k tr) \<le> length (run_effects (runs k))"
proof (induction rule: interleaved.induct)
  case (turns tr dead c j e c')
  then show ?case by (cases "j = k") (auto simp: done_by_snoc take_Suc_conv_app_nth)
qed (simp_all add: done_by_def)

text \<open>What a run does next keeps the rule.\<close>
lemma next_keeps_rule:
  assumes "run_ok cns r" and "i < length (run_effects r)"
  shows "claim_rule (rr_env r) cns (rr_server r) (length (st_log (rr_start r)))
     (st_log (rr_start r) @ take i (run_effects r)) (run_effects r ! i)"
proof -
  let ?m = "server_Reconcile (rr_env r) (rr_reconciler r) (s_ns (rr_server r)) (s_name (rr_server r))"
  have T: "triple (claim_rule (rr_env r) cns (rr_server r) (length (st_log (rr_start r))))
      (\<lambda>t. length (st_log (rr_start r)) \<le> length (st_log t)
         \<and> get_server (rr_env r) (st_log t) (s_ns (rr_server r)) (s_name (rr_server r)) = Inr (rr_server r)) ?m (\<lambda>a t. True)"
    using assms(1) by (intro reconcile_follows) (auto simp: run_ok_def)
  obtain a t' where run: "run_state ?m (rr_start r) = (a, t')" by fastforce
  obtain es where es: "st_log t' = st_log (rr_start r) @ es"
    using T assms(1) run unfolding triple_def run_ok_def by (metis le_refl snd_conv)
  have "run_effects r = es" by (simp add: run_effects_def run es)
  then show ?thesis using tripleD(2) [OF T _ run es] assms by (auto simp: run_ok_def)
qed

lemma claim_live_snoc:
  assumes "claim_live E cns s n (l @ [e])"
  shows "claim_live E cns s n l \<and> \<not> lease_delete e \<or> claim_taken_at E cns s (l @ [e]) (length l)"
proof -
  obtain i where i: "n \<le> i" "i < Suc (length l)" "claim_taken_at E cns s (l @ [e]) i"
    "\<forall>j. i < j \<and> j < Suc (length l) \<longrightarrow> \<not> lease_delete ((l @ [e]) ! j)"
    using assms by (auto simp: claim_live_def)
  show ?thesis
  proof (cases "i = length l")
    case False
    then have "i < length l" using i(2) by simp
    moreover from this have "claim_taken_at E cns s l i" using i(3) by (simp add: claim_taken_at_def nth_append)
    moreover have "\<forall>j. i < j \<and> j < length l \<longrightarrow> \<not> lease_delete (l ! j)" using i(4) by (metis less_SucI nth_append)
    moreover have "\<not> lease_delete e" using i(4) \<open>i < length l\<close> by (metis lessI nth_append_length)
    ultimately show ?thesis using i(1) by (auto simp: claim_live_def)
  qed (use i in simp)
qed

definition holds_claim :: "claims \<Rightarrow> mcp_server \<Rightarrow> bool" where
  "holds_claim c s = (\<exists>le. c (lease_name s) = Some le \<and> holds (Some le) s)"

text \<open>A run that took its claim and did not delete it is at every turn the one that holds it.\<close>
definition claims_kept :: "string \<Rightarrow> (nat \<Rightarrow> reconcile_run) \<Rightarrow> turn list \<Rightarrow> nat set \<Rightarrow> claims \<Rightarrow> bool" where
  "claims_kept cns runs tr dead c = (\<forall>k. k \<notin> dead \<longrightarrow> length (done_by k tr) < length (run_effects (runs k)) \<longrightarrow>
     claim_live (rr_env (runs k)) cns (rr_server (runs k)) (length (st_log (rr_start (runs k))))
       (st_log (rr_start (runs k)) @ done_by k tr) \<longrightarrow> holds_claim c (rr_server (runs k)))"

text \<open>A step of the API server that the rule allows: the claim of the run that takes the step.\<close>
lemma own_claim_kept:
  assumes "claim_rule E cns s n l e" "claims_answer E cns l e c" "claims_step E l e c c'"
    and "claim_live E cns s n l \<Longrightarrow> holds_claim c s" and "claim_live E cns s n (l @ [e])"
  shows "holds_claim c' s"
  using claim_live_snoc [OF assms(5)]
proof (elim disjE conjE)
  assume "claim_live E cns s n l" "\<not> lease_delete e"
  then show ?thesis using assms(1-3) assms(4)
    by (cases e) (auto simp: claim_rule_def claims_answer_def claims_step_def holds_claim_def lease_delete_def own_lease_def
        split: kobj.splits kind.splits)
next
  assume "claim_taken_at E cns s (l @ [e]) (length l)"
  then show ?thesis using assms(2,3)
    by (auto simp: claim_taken_at_def claims_answer_def claims_step_def holds_claim_def)
qed

text \<open>The claim of another MCPServer.\<close>
lemma other_claim_kept:
  assumes "claim_rule E cns s n l e" "claims_step E l e c c'"
    and "claim_live E cns s n l \<Longrightarrow> holds_claim c s" and "holds_claim c q" and "claimHolder q \<noteq> claimHolder s"
  shows "holds_claim c' q"
proof -
  have "lease_name q \<noteq> lease_name s" if "claim_live E cns s n l"
    using assms(3) [OF that] assms(4,5) by (auto simp: holds_claim_def holds_def)
  then show ?thesis using assms(1,2,4)
    by (cases e) (auto simp: claim_rule_def claims_step_def holds_claim_def own_lease_def split: kobj.splits kind.splits)
qed

lemma interleaved_kept:
  assumes ok: "\<And>k. run_ok cns (runs k)" and "interleaved cns runs tr dead c"
  shows "claims_kept cns runs tr dead c
    \<and> (\<forall>x \<in> set tr. core_change (tn_effect x) \<longrightarrow> holds_claim (tn_claims x) (rr_server (runs (tn_run x))))"
  using assms(2)
proof (induction rule: interleaved.induct)
  case (begins c)
  then show ?case by (auto simp: claims_kept_def claim_live_def done_by_def)
next
  case (stops tr dead c k)
  then show ?case by (simp add: claims_kept_def)
next
  case (turns tr dead c k e c')
  let ?r = "runs k"
  let ?E = "rr_env ?r" and ?s = "rr_server ?r" and ?n = "length (st_log (rr_start ?r))"
  let ?l = "st_log (rr_start ?r) @ done_by k tr"
  have rule: "claim_rule ?E cns ?s ?n ?l e"
    using next_keeps_rule [OF ok turns.hyps(3)] interleaved_prefix [OF turns.hyps(1), of k] turns.hyps(4) by simp
  have own: "holds_claim c ?s" if "claim_live ?E cns ?s ?n ?l"
    using turns.IH turns.hyps(2,3) that by (simp add: claims_kept_def)
  have "holds_claim c ?s" if "core_change e"
    using that rule own by (cases e) (auto simp: core_change_def claim_rule_def)
  moreover have "claims_kept cns runs (tr @ [\<lparr>tn_run = k, tn_effect = e, tn_claims = c\<rparr>]) dead c'"
    unfolding claims_kept_def
  proof (intro allI impI)
    fix j
    let ?q = "runs j"
    assume j: "j \<notin> dead" "length (done_by j (tr @ [\<lparr>tn_run = k, tn_effect = e, tn_claims = c\<rparr>])) < length (run_effects ?q)"
      "claim_live (rr_env ?q) cns (rr_server ?q) (length (st_log (rr_start ?q)))
         (st_log (rr_start ?q) @ done_by j (tr @ [\<lparr>tn_run = k, tn_effect = e, tn_claims = c\<rparr>]))"
    show "holds_claim c' (rr_server ?q)"
    proof (cases "j = k")
      case True
      then show ?thesis using own_claim_kept [OF rule turns.hyps(6,7) own] j(3) by (simp add: done_by_snoc)
    next
      case False
      then have d: "done_by j (tr @ [\<lparr>tn_run = k, tn_effect = e, tn_claims = c\<rparr>]) = done_by j tr" by (simp add: done_by_snoc)
      have held: "holds_claim c (rr_server ?q)" using turns.IH j d by (simp add: claims_kept_def)
      have "done_by j tr \<noteq> []" using j(3) d by (auto simp: claim_live_def)
      then have "\<not> same_server ?q ?r" using turns.hyps(5) False j(1,2) d by auto
      then show ?thesis using other_claim_kept [OF rule turns.hyps(7) own held] by (simp add: same_server_def)
    qed
  qed
  ultimately show ?case using turns.IH by simp
qed

section \<open>Property\<close>

text \<open>C2 One MCPServer at a time changes what core holds under a name: however the reconciles
  of all MCPServers take turns, and wherever the operator is killed in between, at the
  moment of a request that changes core the claim on the name is there and names the
  MCPServer the request is for.\<close>
theorem core_changed_by_the_holder:
  assumes "\<And>k. run_ok cns (runs k)" and "interleaved cns runs tr dead c"
    and "x \<in> set tr" and "core_change (tn_effect x)"
  shows "holds_claim (tn_claims x) (rr_server (runs (tn_run x)))"
  using interleaved_kept [OF assms(1,2)] assms(3,4) by blast

text \<open>A remote server that is being deleted, and the claim it holds.\<close>
definition leaving :: mcp_server where
  "leaving = demo_remote\<lparr>s_meta := (s_meta demo_remote)\<lparr>m_deletion := Some 1, m_finalizers := [finalizerName]\<rparr>\<rparr>"

definition leaving_claim :: "string \<Rightarrow> string \<Rightarrow> lease" where
  "leaving_claim ns n = \<lparr>le_meta = empty_meta\<lparr>m_name := n, m_namespace := ns\<rparr>, le_holder = Some ''n/s/u''\<rparr>"

definition leaving_run :: reconcile_run where
  "leaving_run = \<lparr>rr_env = demo_env\<lparr>get_server := (\<lambda>l ns n. Inr leaving), get_lease := (\<lambda>l ns n. Inr (leaving_claim ns n))\<rparr>,
     rr_reconciler = demo_reconciler, rr_server = leaving, rr_start = start_state leaving zero_server_status\<rparr>"

lemma leaving_effects:
  "3 < length (run_effects leaving_run)
   \<and> run_effects leaving_run ! 0 = ReadObj ServerKind ''n'' ''s''
   \<and> run_effects leaving_run ! 1 = ReadObj LeaseKind ''ops'' (claimPrefix @ ''s'')
   \<and> core_change (run_effects leaving_run ! 2)"
  unfolding run_effects_def server_Reconcile_def reconcileDelete_def clean_container_def deregisterOwned_def
    claim_get_def claim_release_def release_server_def ClearProviderMetrics_def DeregisterMCPServer_def
  by (simp add: leaving_run_def leaving_def leaving_claim_def core_evals answer_delete_def
      IsContainerMode_def holds_def claimHolder_def core_change_def)

lemma leaving_ok: "run_ok ''ops'' leaving_run"
  by (simp add: run_ok_def lease_named_def leaving_run_def leaving_def leaving_claim_def demo_reconciler_def demo_remote_def zero_server_def)

definition leaving_claims :: claims where
  "leaving_claims = [claimPrefix @ ''s'' \<mapsto> leaving_claim ''ops'' (claimPrefix @ ''s'')]"

definition leaving_turn :: "nat \<Rightarrow> turn" where
  "leaving_turn i = \<lparr>tn_run = 0, tn_effect = run_effects leaving_run ! i, tn_claims = leaving_claims\<rparr>"

lemma leaving_done: "done_by 0 (map leaving_turn is) = map (\<lambda>i. run_effects leaving_run ! i) is"
  "j \<noteq> 0 \<Longrightarrow> done_by j (map leaving_turn is) = []"
  by (induction "is") (simp_all add: done_by_def leaving_turn_def)

lemma leaving_lease: "get_lease (rr_env leaving_run) l ns n = Inr (leaving_claim ns n)"
  by (simp add: leaving_run_def)

text \<open>The two reads and the request, one turn each.\<close>
lemma leaving_interleaved: "interleaved ''ops'' (\<lambda>k. leaving_run) (map leaving_turn [0, 1, 2]) {} leaving_claims"
proof -
  have step: "interleaved ''ops'' (\<lambda>k. leaving_run) (map leaving_turn [0..<Suc i]) {} leaving_claims"
    if "interleaved ''ops'' (\<lambda>k. leaving_run) (map leaving_turn [0..<i]) {} leaving_claims" "i < 3" for i
  proof -
    have "i = 0 \<or> i = 1 \<or> i = 2" using that(2) by auto
    then have e: "claims_answer (rr_env leaving_run) ''ops'' l (run_effects leaving_run ! i) leaving_claims"
      "claims_step (rr_env leaving_run) l (run_effects leaving_run ! i) leaving_claims leaving_claims" for l
      using leaving_effects
      by (auto simp: claims_answer_def claims_step_def core_change_def leaving_lease leaving_claims_def split: effect.splits)
    have len: "length (done_by 0 (map leaving_turn [0..<i])) = i" by (simp add: leaving_done del: upt_Suc)
    show ?thesis
      using interleaved.turns [OF that(1), of 0 "run_effects leaving_run ! i" leaving_claims] e leaving_effects that(2)
      by (simp add: len leaving_done leaving_turn_def)
  qed
  have "interleaved ''ops'' (\<lambda>k. leaving_run) (map leaving_turn [0..<0]) {} leaving_claims"
    by (simp add: interleaved.begins)
  then have "interleaved ''ops'' (\<lambda>k. leaving_run) (map leaving_turn [0..<Suc (Suc (Suc 0))]) {} leaving_claims"
    by (intro step) simp_all
  then show ?thesis by (simp add: numeral_2_eq_2)
qed

theorem core_changed_by_the_holder_witness:
  "\<exists>x :: turn. core_change (tn_effect x) \<and> holds_claim (tn_claims x) leaving"
proof -
  have c: "core_change (tn_effect (leaving_turn 2))" using leaving_effects by (simp add: leaving_turn_def)
  have "holds_claim (tn_claims (leaving_turn 2)) (rr_server leaving_run)"
    using core_changed_by_the_holder [OF leaving_ok leaving_interleaved _ c] by simp
  then show ?thesis using c by (intro exI [of _ "leaving_turn 2"]) (simp add: leaving_run_def)
qed

end
