(* ===== verification/Spec2Isabelle.thy ===== *)
theory Spec2Isabelle
  imports ServerController NamespaceEgress EgressReport Watches Metrics Operator DeepCopy Interleaving
begin

text \<open>
  A verification development for the MCP Hangar operator, the Kubernetes operator of
  \<open>mcp-hangar\<close> (Go, under \<open>src/\<close>).

  The program.  The operator reconciles four custom resources.  An MCPServer runs a
  server as a Deployment (container mode) or names one elsewhere (remote mode); the
  operator registers it with MCP-Hangar core over HTTP under a claim, keeps its
  NetworkPolicies and reports its state.  An MCPEgressPolicy adds a network backstop
  and an L7 policy, an MCPServerGroup aggregates servers, an MCPDiscoverySource
  creates them; a fourth controller keeps the namespace default-deny.  Admission
  webhooks warn, refuse cross-namespace references and guard the provider label.

  The model.  A reconcile is a program in the state monad over a record of the object
  being reconciled, the status it was read with, what the reconciler keeps between
  reconciles, and the log of everything it did, in order.  Third-party code is a
  parameter: the record \<open>env\<close> of theory Cluster answers every read, write, request and
  clock tick as a function of the log so far, so a theorem about a run holds however
  the cluster, core and the clock behave, and the record \<open>klib\<close> of theory KubeLib holds
  the pure functions of apimachinery, regexp, crypto and yaml.  What the code relies on
  of them is stated by the locales \<open>condition_list\<close>, \<open>condition_store\<close>, \<open>finalizer_list\<close>,
  \<open>owner_refs\<close> and \<open>upserting\<close>, each interpreted on concrete functions.  Nothing in the model loops without a
  structural bound: the only retry loop (\<open>doWithRetry\<close>) recurses on the attempts left,
  and every other loop is over a list, so no fuel is used and every definition is total.

  The theories, in the order of the code.
  \<^item> Prelude: Go strings and integers, the state monad, loops.
  \<^item> ApiTypes: \<open>api/v1alpha2\<close> and the Kubernetes objects the operator reads and writes.
  \<^item> KubeLib: library functions and their laws.  IpAddr: \<open>net\<close> and \<open>netip\<close> prefixes.
  \<^item> NetPolicy: \<open>pkg/networkpolicy/builder.go\<close>, \<open>ingress.go\<close>; what the generated policies
    permit.  Enforcement: \<open>enforcement.go\<close>, the probe and its cache.
  \<^item> Cluster: effects, the environment, \<open>status_write.go\<close>, \<open>conditions.go\<close>, \<open>apply.go\<close>, and a
    calculus of triples over runs: a guard each effect must satisfy at the history it
    happens in, a precondition and a postcondition.
  \<^item> InitData, ProviderBuild: \<open>pkg/provider\<close>.  HangarClient: \<open>pkg/hangar/client.go\<close>.
  \<^item> Registration: \<open>mcpserver_registration.go\<close>, \<open>mcpserver_peer_identity.go\<close>.
  \<^item> ServerPolicy: the policy, violation, audit and ingress steps of the MCPServer
    reconciler.  ServerController: the rest of \<open>mcpserver_controller.go\<close> and
    \<open>mcpserver_deployment.go\<close>.
  \<^item> Interleaving: reconciles of many MCPServers taking turns against one set of claims.
  \<^item> NamespaceEgress: \<open>namespace_egress_controller.go\<close>.
  \<^item> Webhooks: \<open>internal/webhook\<close>, \<open>internal/health\<close>.
  \<^item> EgressCompile, EgressPolicy, EgressWatch: \<open>mcpegresspolicy_controller.go\<close> with
    \<open>mcpegresspolicy_membership.go\<close> and \<open>mcpegresspolicy_gateway.go\<close>; EgressReport holds
    what is shown of the reconciler.
  \<^item> ServerGroup: \<open>mcpservergroup_controller.go\<close>, the aggregate status and why a reconcile
    settles.
  \<^item> Discovery: \<open>mcpdiscoverysource_controller.go\<close>; DiscoverySync holds what is shown of it.
  \<^item> Watches: the \<open>SetupWithManager\<close> of the five controllers, which change wakes which of them.
  \<^item> Metrics: \<open>pkg/metrics/metrics.go\<close>, the registry and what a history leaves in it.
  \<^item> Operator: \<open>cmd/operator\<close>, the start of the operator and the render command.
  \<^item> GoHeap, DeepCopy: Go values that share cells, and the generated deep copies of
    \<open>api/v1alpha2/zz_generated.deepcopy.go\<close>.  The other theories take Go values as HOL values;
    that a status base, a template or a copied capability stays what it was while the object
    changes is what the deep copies give.
  This theory holds what is shown of the metrics of deleted objects, which takes the server,
  group and source reconcilers together.

  The properties.  They are named C1, C2, ... in the text above each.  Those of Registration,
  ServerPolicy, ServerController, NamespaceEgress and EgressReport are about the order of
  effects: what was read or answered before a change is made, for every environment.  That of Interleaving takes such
  a rule, which every reconcile of an MCPServer keeps, to any order of turns of any number
  of reconciles; its state machine assumes of the API server that a Lease is created only
  where there is none, that an accepted write takes effect and that nobody else writes the
  Leases of the operator's namespace, and of the work queue that one MCPServer has one
  reconcile at a time.  Those of NetPolicy relate the generated policies to the documented
  meaning of NetworkPolicy and to what the specs declare, the CIDR pattern of the schema
  included; the destinations range over TCP and UDP, the protocols the code names.  That of
  InitData reads the annotation back with a reader written from the formats.  The others give
  the functional behaviour of a component on every branch.

  Left out.  Log lines; the values gauges are set to, which the replay of a history takes as
  an argument; flag parsing by package flag; the queue and the cache of the manager;
  reads through the cache against direct reads; TLS and timeouts of the HTTP client, which
  appear as answers of the environment; the registration of the types with the scheme.
  JSON field names are matched exactly, as core writes them.
\<close>

section \<open>Metrics of deleted objects\<close>

abbreviation "no_metrics fs \<equiv> list_all (\<lambda>e. \<not> (\<exists>m ls. e = Metric m ls)) fs"

lemma release_server_log:
  assumes "run_state (release_server E s) t = (r, t')"
  shows "\<exists>fs. st_log t' = st_log t @ Metric ''clear_provider_metrics'' [s_ns s, s_name s] # fs \<and> no_metrics fs"
  using assms by (auto simp: release_server_def run_bind ClearProviderMetrics_def split: option.splits)

lemma deleted_server_log:
  assumes "run_state (reconcileDelete E R s) t = ((0, None), t')"
  shows "\<exists>es fs. st_log t' = es @ Metric ''clear_provider_metrics'' [s_ns s, s_name s] # fs \<and> no_metrics fs"
proof -
  obtain x t1 where x: "run_state (clean_container E s) t = (x, t1)" by (metis surj_pair)
  obtain y t2 where y: "run_state (case sr_client R of None \<Rightarrow> ret None | Some c \<Rightarrow> deregisterOwned E R c s) t1 = (y, t2)"
    by (metis surj_pair)
  have "run_state (release_server E s) t2 = ((0, None), t')"
    using assms x y by (auto simp: reconcileDelete_def run_bind split: option.splits)
  then show ?thesis using release_server_log by blast
qed

lemma deleted_source_log:
  assumes "run_state (src_reconcileDelete E d) t = (r, t')"
  shows "\<exists>es fs. st_log t' = es @ Metric ''clear_discovery_metrics'' [d_ns d, d_name d] # fs \<and> no_metrics fs"
proof -
  obtain u s where u: "run_state (remove_managed E d) t = (u, s)" by (metis surj_pair)
  then have "\<exists>fs. st_log t' = st_log s @ Metric ''clear_discovery_metrics'' [d_ns d, d_name d] # fs \<and> no_metrics fs"
    using assms by (auto simp: src_reconcileDelete_def run_bind ClearDiscoveryMetrics_def split: option.splits)
  then show ?thesis by blast
qed

lemma delete_run_done: "fst delete_run = (0, None)"
  unfolding delete_run_def reconcileDelete_def clean_container_def removeLegacyPod_def deregisterOwned_def
    claim_get_def release_server_def ClearProviderMetrics_def
  by (simp add: core_evals demo_container_def deleting_def IsContainerMode_def is_not_found_def holds_def)

lemma metric_ok_simps [simp]:
  "metric_ok (ReadObj k ns n)" "metric_ok (ListObjs k ns sel)" "metric_ok (Update ob)" "metric_ok (StatusPatch ob)"
  "metric_ok (Metric ''clear_group_metrics'' ls)"
  "metric_ok (Metric ''group_provider_count'' ls) = (last ls \<in> set state_labels)"
  "metric_ok (Metric ''group_status_write_total'' ls) = (last ls \<in> set write_results)"
  by (simp_all add: metric_ok_def)

lemma group_metrics_ok: "emits metric_ok (group_Reconcile E ns n)"
proof -
  have w: "emits metric_ok (write_metric g x)" if "x \<in> set write_results" for g x
    unfolding write_metric_def using that by (intro emits_intro) simp
  have u: "emits metric_ok (updateStatus E g)" for g
    unfolding updateStatus_def by (intro emits_intro w) (simp_all add: write_results_def)
  show ?thesis
    unfolding group_Reconcile_def group_reconcileNormal_def ClearGroupMetrics_def group_metrics_def evaluateConditions_def
      upd_gstatus_def setGroupCondition_def Let_def
    by (intro emits_intro u) (auto simp: state_labels_def)
qed

text \<open>C37 When the reconcile of a deleted object is done with it, none of its series is left in
  the registry: a server whose finalizer was released, a source whose finalizer release was
  tried, a group that is gone.  For the group the history holds only the label values the
  operator uses, which every reconcile of a group keeps.\<close>
theorem deleted_objects_leave_no_series:
  shows "(run_state (reconcileDelete E R s) t = ((0, None), t') \<longrightarrow>
      object_series provider_vecs (s_ns s) (s_name s) (registry_after v (st_log t')) = {})
    \<and> (run_state (src_reconcileDelete F d) u = (r, u') \<longrightarrow>
      object_series discovery_vecs (d_ns d) (d_name d) (registry_after v (st_log u')) = {})
    \<and> (run_state (group_Reconcile G ns n) w = (q, w') \<and> list_all metric_ok (st_log w) \<longrightarrow>
      list_all metric_ok (st_log w')
      \<and> (get_group G (st_log w) ns n = Inl e \<and> is_not_found e \<longrightarrow>
          object_series group_vecs ns n (registry_after v (st_log w')) = {}))"
proof (intro conjI impI; (elim conjE)?)
  assume "run_state (reconcileDelete E R s) t = ((0, None), t')"
  from deleted_server_log [OF this]
  show "object_series provider_vecs (s_ns s) (s_name s) (registry_after v (st_log t')) = {}"
    by (elim exE conjE) (simp add: cleared_after(1))
next
  assume "run_state (src_reconcileDelete F d) u = (r, u')"
  from deleted_source_log [OF this]
  show "object_series discovery_vecs (d_ns d) (d_name d) (registry_after v (st_log u')) = {}"
    by (elim exE conjE) (simp add: cleared_after(3))
next
  assume run: "run_state (group_Reconcile G ns n) w = (q, w')" and ok: "list_all metric_ok (st_log w)"
  show "list_all metric_ok (st_log w')" using emitsD [OF group_metrics_ok run] ok by auto
  assume "get_group G (st_log w) ns n = Inl e" "is_not_found e"
  then have "st_log w' = (st_log w @ [ReadObj GroupKind ns n]) @ [Metric ''clear_group_metrics'' [ns, n]]"
    using run by (auto simp: group_Reconcile_def run_bind ClearGroupMetrics_def)
  then show "object_series group_vecs ns n (registry_after v (st_log w')) = {}"
    using cleared_after(2) [of "[]" "st_log w @ [ReadObj GroupKind ns n]"] ok by simp
qed

text \<open>A server whose finalizer a reconcile released, and a group and a source that are gone.\<close>
theorem deleted_objects_leave_no_series_witness:
  "object_series provider_vecs ''n'' ''s'' (registry_after (\<lambda>h. 1) (st_log (snd delete_run))) = {}
   \<and> (\<exists>q w'. run_state (group_Reconcile std_env ''n'' ''g'') team_start = (q, w')
      \<and> object_series group_vecs ''n'' ''g'' (registry_after (\<lambda>h. 1) (st_log w')) = {})
   \<and> (\<exists>r u'. run_state (src_reconcileDelete finder_env finder) finder_start = (r, u')
      \<and> object_series discovery_vecs ''n'' ''d'' (registry_after (\<lambda>h. 1) (st_log u')) = {})"
proof -
  obtain t' where t: "run_state (reconcileDelete std_env demo_reconciler deleting) (start_state deleting zero_server_status) = ((0, None), t')"
    and d: "snd delete_run = t'"
    using delete_run_done by (auto simp: delete_run_def prod_eq_iff)
  obtain r u' where u: "run_state (src_reconcileDelete finder_env finder) finder_start = (r, u')" by fastforce
  obtain q w' where w: "run_state (group_Reconcile std_env ''n'' ''g'') team_start = (q, w')" by fastforce
  have g: "get_group std_env [] ''n'' ''g'' = Inl (NotFound []) \<and> is_not_found (NotFound [])"
    by (simp add: is_not_found_def)
  have "s_ns deleting = ''n''" "s_name deleting = ''s''" "d_ns finder = ''n''" "d_name finder = ''d''"
    by (simp_all add: deleting_def demo_container_def finder_def mk_meta_def empty_meta_def)
  then show ?thesis
    using deleted_objects_leave_no_series [of std_env demo_reconciler deleting "start_state deleting zero_server_status" t'
        "\<lambda>h. 1" finder_env finder finder_start r u' std_env "''n''" "''g''" team_start q w' "NotFound []"] t u w g d
    by fastforce
qed

end
